(* ===== verification/Rust_Text.thy ===== *)
theory Rust_Text
  imports Prelude
begin

text \<open>
  Rust texts. A \<open>str\<close> is the list of its Unicode scalar values (\<open>rchar\<close>, a \<open>nat\<close>);
  a \<open>u8\<close> is an Isabelle \<open>char\<close>, which is exactly an 8-bit value, so that the byte string
  \<^verbatim>\<open>b"POST"\<close> is \<open>''POST''\<close> and the text \<^verbatim>\<open>"POST"\<close> is \<open>lit ''POST''\<close>.
  The theory holds the operations of \<open>str\<close>, \<open>char\<close> and the integer parsers that the
  code calls: trimming, case folding, searching and splitting, \<open>parse::<usize>\<close>,
  \<open>from_str_radix\<close>, decimal printing, and UTF-8 with its validity check.
\<close>

type_synonym rchar = nat
type_synonym rstr = "rchar list"
type_synonym byte = char
type_synonym bytes = "char list"

definition lit :: "string \<Rightarrow> rstr" where
  "lit s = map of_char s"

text \<open>Literals stay folded in proofs; \<open>lit_Cons\<close> unfolds them for evaluation.\<close>

lemma lit_Nil [simp]: "lit [] = []"
  by (simp add: lit_def)

lemma lit_Cons [rust_std]: "lit (c # s) = of_char c # lit s"
  by (simp add: lit_def)

lemma lit_append: "lit (s @ t) = lit s @ lit t"
  by (simp add: lit_def)

lemma lit_inject [simp]: "lit s = lit t \<longleftrightarrow> s = t"
  by (simp add: lit_def inj_map_eq_map inj_on_def)

lemma lit_eq_Nil [simp]: "lit s = [] \<longleftrightarrow> s = []" "[] = lit s \<longleftrightarrow> s = []"
  by (auto simp: lit_def)

lemma length_lit [simp]: "length (lit s) = length s"
  by (simp add: lit_def)

subsection \<open>Character classes\<close>

text \<open>\<open>char::is_whitespace\<close>: the Unicode property White\_Space.\<close>

definition is_whitespace :: "rchar \<Rightarrow> bool" where
  "is_whitespace c \<longleftrightarrow> 9 \<le> c \<and> c \<le> 13 \<or> c = 32 \<or> c = 0x85 \<or> c = 0xA0 \<or> c = 0x1680
     \<or> 0x2000 \<le> c \<and> c \<le> 0x200A \<or> c = 0x2028 \<or> c = 0x2029 \<or> c = 0x202F \<or> c = 0x205F \<or> c = 0x3000"

text \<open>\<open>char::is_control\<close>: the general category Cc.\<close>

definition is_control :: "rchar \<Rightarrow> bool" where
  "is_control c \<longleftrightarrow> c \<le> 0x1F \<or> 0x7F \<le> c \<and> c \<le> 0x9F"

definition is_ascii_digit :: "rchar \<Rightarrow> bool" where
  "is_ascii_digit c \<longleftrightarrow> 48 \<le> c \<and> c \<le> 57"

definition is_ascii_upper :: "rchar \<Rightarrow> bool" where
  "is_ascii_upper c \<longleftrightarrow> 65 \<le> c \<and> c \<le> 90"

definition is_ascii_lower :: "rchar \<Rightarrow> bool" where
  "is_ascii_lower c \<longleftrightarrow> 97 \<le> c \<and> c \<le> 122"

definition is_ascii_alphanumeric :: "rchar \<Rightarrow> bool" where
  "is_ascii_alphanumeric c \<longleftrightarrow> is_ascii_digit c \<or> is_ascii_upper c \<or> is_ascii_lower c"

definition ascii_lower :: "rchar \<Rightarrow> rchar" where
  "ascii_lower c = (if is_ascii_upper c then c + 32 else c)"

lemmas char_class_defs = is_whitespace_def is_control_def is_ascii_digit_def is_ascii_upper_def
  is_ascii_lower_def is_ascii_alphanumeric_def ascii_lower_def

declare char_class_defs [rust_std]

definition to_ascii_lowercase :: "rstr \<Rightarrow> rstr" where
  "to_ascii_lowercase s = map ascii_lower s"

definition eq_ignore_ascii_case :: "rstr \<Rightarrow> rstr \<Rightarrow> bool" where
  "eq_ignore_ascii_case s t \<longleftrightarrow> to_ascii_lowercase s = to_ascii_lowercase t"

lemma ascii_lower_idem [simp]: "ascii_lower (ascii_lower c) = ascii_lower c"
  by (simp add: char_class_defs)

lemma ascii_lower_class [simp]:
  "is_whitespace (ascii_lower c) = is_whitespace c"
  "is_ascii_alphanumeric (ascii_lower c) = is_ascii_alphanumeric c"
  "\<not> is_ascii_upper (ascii_lower c)"
  by (auto simp: char_class_defs)

lemma ascii_lower_id: "\<not> is_ascii_upper c \<Longrightarrow> ascii_lower c = c"
  by (simp add: ascii_lower_def)

lemma to_ascii_lowercase_idem [simp]:
  "to_ascii_lowercase (to_ascii_lowercase s) = to_ascii_lowercase s"
  by (simp add: to_ascii_lowercase_def)

lemma to_ascii_lowercase_Nil [simp]: "to_ascii_lowercase s = [] \<longleftrightarrow> s = []"
  by (simp add: to_ascii_lowercase_def)

lemma to_ascii_lowercase_id:
  "\<forall>c \<in> set s. \<not> is_ascii_upper c \<Longrightarrow> to_ascii_lowercase s = s"
  by (simp add: to_ascii_lowercase_def ascii_lower_id map_idI)

lemma eq_ignore_ascii_case_equiv:
  "eq_ignore_ascii_case s s"
  "eq_ignore_ascii_case s t \<Longrightarrow> eq_ignore_ascii_case t s"
  "eq_ignore_ascii_case s t \<Longrightarrow> eq_ignore_ascii_case t u \<Longrightarrow> eq_ignore_ascii_case s u"
  by (simp_all add: eq_ignore_ascii_case_def)

subsection \<open>Trimming\<close>

definition trim_start :: "rstr \<Rightarrow> rstr" where
  "trim_start s = dropWhile is_whitespace s"

definition trim_end :: "rstr \<Rightarrow> rstr" where
  "trim_end s = rev (dropWhile is_whitespace (rev s))"

definition trim :: "rstr \<Rightarrow> rstr" where
  "trim s = trim_end (trim_start s)"

definition trimmed :: "rstr \<Rightarrow> bool" where
  "trimmed s \<longleftrightarrow> s = [] \<or> \<not> is_whitespace (hd s) \<and> \<not> is_whitespace (last s)"

lemma trim_Nil [simp]: "trim [] = []"
  by (simp add: trim_def trim_start_def trim_end_def)

lemma set_trim: "set (trim s) \<subseteq> set s"
  unfolding trim_def trim_start_def trim_end_def
  using set_dropWhile_subset by (metis set_rev subset_trans)

lemma trim_ends_hd:
  assumes "s \<noteq> []" "\<not> is_whitespace (hd s)"
  shows "trim_end s \<noteq> [] \<and> hd (trim_end s) = hd s \<and> \<not> is_whitespace (last (trim_end s))"
proof -
  obtain c r where s: "s = c # r" using assms(1) by (cases s) auto
  with assms(2) have "\<exists>x \<in> set (rev s). \<not> is_whitespace x" by auto
  then have ne: "dropWhile is_whitespace (rev s) \<noteq> []"
    by (metis dropWhile_eq_Nil_conv)
  then have "\<not> is_whitespace (hd (dropWhile is_whitespace (rev s)))"
    by (rule hd_dropWhile)
  moreover have "last (dropWhile is_whitespace (rev s)) = c"
    using s assms(2) by (cases "\<forall>x \<in> set r. is_whitespace x") (auto simp: dropWhile_append)
  ultimately show ?thesis
    using ne s by (simp add: trim_end_def hd_rev last_rev)
qed

lemma trim_trimmed: "trimmed (trim s)"
proof (cases "trim_start s")
  case Nil
  then show ?thesis by (simp add: trimmed_def trim_def trim_end_def)
next
  case (Cons c r)
  then have "\<not> is_whitespace (hd (trim_start s))"
    unfolding trim_start_def by (metis hd_dropWhile list.distinct(1))
  with Cons trim_ends_hd [of "trim_start s"] show ?thesis
    by (simp add: trimmed_def trim_def)
qed

lemma trimmed_trim: "trimmed s \<Longrightarrow> trim s = s"
  by (cases s)
     (auto simp: trimmed_def trim_def trim_start_def trim_end_def dropWhile_rev_last
       simp del: rev.simps)

lemma trim_eq_iff: "trim s = s \<longleftrightarrow> trimmed s"
  using trim_trimmed [of s] trimmed_trim [of s] by auto

lemma trim_idem [simp]: "trim (trim s) = trim s"
  by (simp add: trimmed_trim trim_trimmed)

lemma trimmed_no_whitespace: "\<forall>c \<in> set s. \<not> is_whitespace c \<Longrightarrow> trimmed s"
  by (cases "s = []") (auto simp: trimmed_def)

lemma trim_eq_Nil: "trim s = [] \<longleftrightarrow> (\<forall>c \<in> set s. is_whitespace c)"
proof
  assume nil: "trim s = []"
  have "trim_start s = []"
  proof (rule ccontr)
    assume ne: "trim_start s \<noteq> []"
    then have "\<not> is_whitespace (hd (trim_start s))"
      unfolding trim_start_def by (rule hd_dropWhile)
    with ne nil show False using trim_ends_hd by (simp add: trim_def)
  qed
  then show "\<forall>c \<in> set s. is_whitespace c" by (simp add: trim_start_def)
next
  assume "\<forall>c \<in> set s. is_whitespace c"
  then have "trim_start s = []" by (simp add: trim_start_def)
  then show "trim s = []" by (simp add: trim_def trim_end_def)
qed

lemma trim_padded:
  assumes "\<forall>c \<in> set u. is_whitespace c" "\<forall>c \<in> set v. is_whitespace c" "trimmed s"
  shows "trim (u @ s @ v) = s"
proof (cases s)
  case Nil
  with assms(1,2) have "\<forall>c \<in> set (u @ s @ v). is_whitespace c" by auto
  with Nil show ?thesis by (simp only: trim_eq_Nil)
next
  case (Cons c r)
  then have "\<not> is_whitespace c" using assms(3) by (simp add: trimmed_def)
  then have "trim_start (u @ s @ v) = s @ v"
    using assms(1) Cons by (simp add: trim_start_def dropWhile_append)
  moreover have "dropWhile is_whitespace (rev v @ rev s) = rev s"
    using assms(2,3) Cons dropWhile_rev_last [of s is_whitespace]
    by (auto simp: dropWhile_append trimmed_def simp del: rev.simps)
  then have "trim_end (s @ v) = s" by (simp add: trim_end_def)
  ultimately show ?thesis by (simp add: trim_def)
qed

subsection \<open>Searching and splitting\<close>

definition starts_with :: "rstr \<Rightarrow> rstr \<Rightarrow> bool" where
  "starts_with s p \<longleftrightarrow> take (length p) s = p"

definition ends_with :: "rstr \<Rightarrow> rstr \<Rightarrow> bool" where
  "ends_with s p \<longleftrightarrow> starts_with (rev s) (rev p)"

definition strip_prefix :: "rstr \<Rightarrow> rstr \<Rightarrow> rstr option" where
  "strip_prefix p s = (if starts_with s p then Some (drop (length p) s) else None)"

fun find_sub :: "rstr \<Rightarrow> rstr \<Rightarrow> nat option" where
  "find_sub p [] = (if p = [] then Some 0 else None)"
| "find_sub p (c # s) = (if starts_with (c # s) p then Some 0 else map_option Suc (find_sub p s))"

definition contains_sub :: "rstr \<Rightarrow> rstr \<Rightarrow> bool" where
  "contains_sub p s \<longleftrightarrow> find_sub p s \<noteq> None"

text \<open>\<open>s.split_once(c)\<close> and \<open>s.split(P).next()\<close>.\<close>

definition split_once :: "rchar \<Rightarrow> rstr \<Rightarrow> (rstr \<times> rstr) option" where
  "split_once c s =
     (if c \<in> set s then Some (takeWhile (\<lambda>x. x \<noteq> c) s, tl (dropWhile (\<lambda>x. x \<noteq> c) s)) else None)"

definition first_segment :: "(rchar \<Rightarrow> bool) \<Rightarrow> rstr \<Rightarrow> rstr" where
  "first_segment P s = takeWhile (\<lambda>c. \<not> P c) s"

function split_whitespace :: "rstr \<Rightarrow> rstr list" where
  "split_whitespace s =
     (if trim_start s = [] then []
      else takeWhile (\<lambda>c. \<not> is_whitespace c) (trim_start s)
           # split_whitespace (dropWhile (\<lambda>c. \<not> is_whitespace c) (trim_start s)))"
  by pat_completeness auto
termination
proof (relation "measure length", goal_cases)
  case (2 s)
  obtain c r where cr: "trim_start s = c # r" using 2 by (cases "trim_start s") auto
  then have "\<not> is_whitespace c" unfolding trim_start_def by (simp add: dropWhile_eq_Cons_conv)
  moreover have "length (trim_start s) \<le> length s" by (simp add: trim_start_def length_dropWhile_le)
  moreover have "length (dropWhile (\<lambda>c. \<not> is_whitespace c) r) \<le> length r"
    by (rule length_dropWhile_le)
  ultimately show ?case using cr by simp
qed simp

declare split_whitespace.simps [simp del]

function trim_start_matches :: "rstr \<Rightarrow> rstr \<Rightarrow> rstr" where
  "trim_start_matches p s =
     (if p \<noteq> [] \<and> s \<noteq> [] \<and> starts_with s p then trim_start_matches p (drop (length p) s) else s)"
  by pat_completeness auto
termination
  by (relation "measure (\<lambda>(p, s). length s)") auto

declare trim_start_matches.simps [simp del]

lemma starts_with_append: "starts_with (p @ s) p"
  by (simp add: starts_with_def)

lemma starts_with_iff: "starts_with s p \<longleftrightarrow> (\<exists>r. s = p @ r)"
  by (metis append_eq_conv_conj append_take_drop_id starts_with_def)

lemma strip_prefix_eq_Some: "strip_prefix p s = Some r \<longleftrightarrow> s = p @ r"
  by (auto simp: strip_prefix_def starts_with_iff)

lemma find_sub_SomeD: "find_sub p s = Some i \<Longrightarrow> \<exists>u v. s = u @ p @ v \<and> length u = i"
proof (induction s arbitrary: i)
  case Nil
  then show ?case by (auto split: if_splits)
next
  case (Cons c s)
  show ?case
  proof (cases "starts_with (c # s) p")
    case True
    with Cons.prems show ?thesis by (auto simp: starts_with_iff)
  next
    case False
    with Cons.prems obtain j where j: "find_sub p s = Some j" "i = Suc j" by auto
    from Cons.IH [OF j(1)] obtain u v where "s = u @ p @ v" "length u = j" by blast
    with j(2) show ?thesis by (intro exI [of _ "c # u"] exI [of _ v]) simp
  qed
qed

lemma find_sub_append: "\<exists>i. find_sub p (u @ p @ v) = Some i"
proof (induction u)
  case Nil
  have "starts_with (p @ v) p" by (rule starts_with_append)
  then have "find_sub p (p @ v) = Some 0" by (cases "p @ v") simp_all
  then show ?case by simp
next
  case (Cons c u)
  then show ?case by auto
qed

lemma contains_sub_iff: "contains_sub p s \<longleftrightarrow> (\<exists>u v. s = u @ p @ v)"
  unfolding contains_sub_def
  using find_sub_SomeD find_sub_append by (metis not_None_eq)

lemma split_once_append:
  "c \<notin> set u \<Longrightarrow> split_once c (u @ c # v) = Some (u, v)"
  by (simp add: split_once_def takeWhile_append dropWhile_append takeWhile_eq_all_conv [THEN iffD2])

lemma split_once_SomeD:
  assumes "split_once c s = Some (u, v)"
  shows "s = u @ c # v" "c \<notin> set u"
proof -
  have c: "c \<in> set s" and u: "u = takeWhile (\<lambda>x. x \<noteq> c) s"
    and v: "v = tl (dropWhile (\<lambda>x. x \<noteq> c) s)"
    using assms by (auto simp: split_once_def split: if_splits)
  have "dropWhile (\<lambda>x. x \<noteq> c) s \<noteq> []" using c by (simp add: dropWhile_eq_Nil_conv)
  then have "dropWhile (\<lambda>x. x \<noteq> c) s = c # v"
    using v hd_dropWhile [of "\<lambda>x. x \<noteq> c" s] by (cases "dropWhile (\<lambda>x. x \<noteq> c) s") auto
  then show "s = u @ c # v" using u by (metis takeWhile_dropWhile_id)
  show "c \<notin> set u" using u by (auto dest: set_takeWhileD)
qed

lemma first_segment_id: "\<forall>c \<in> set s. \<not> P c \<Longrightarrow> first_segment P s = s"
  by (simp add: first_segment_def takeWhile_eq_all_conv)

lemma first_segment_no: "\<forall>c \<in> set (first_segment P s). \<not> P c"
  by (auto simp: first_segment_def dest: set_takeWhileD)

lemma set_first_segment: "set (first_segment P s) \<subseteq> set s"
  by (auto simp: first_segment_def dest: set_takeWhileD)

text \<open>Texts without white space: the words of a request line.\<close>

definition word_text :: "rstr \<Rightarrow> bool" where
  "word_text s \<longleftrightarrow> s \<noteq> [] \<and> (\<forall>c \<in> set s. \<not> is_whitespace c)"

lemma split_whitespace_Nil [simp]: "split_whitespace [] = []"
  by (subst split_whitespace.simps) (simp add: trim_start_def)

lemma split_whitespace_space: "split_whitespace (32 # s) = split_whitespace s"
  by (subst (1 2) split_whitespace.simps) (simp add: trim_start_def is_whitespace_def)

lemma trim_start_word: "word_text w \<Longrightarrow> trim_start (w @ s) = w @ s"
  by (cases w) (auto simp: word_text_def trim_start_def)

lemma split_whitespace_word:
  assumes "word_text w"
  shows "split_whitespace (w @ 32 # s) = w # split_whitespace s"
    and "split_whitespace w = [w]"
proof -
  have w: "w \<noteq> []" "takeWhile (\<lambda>c. \<not> is_whitespace c) w = w"
    "dropWhile (\<lambda>c. \<not> is_whitespace c) w = []"
    "\<And>t. takeWhile (\<lambda>c. \<not> is_whitespace c) (w @ 32 # t) = w"
    "\<And>t. dropWhile (\<lambda>c. \<not> is_whitespace c) (w @ 32 # t) = 32 # t"
    using assms by (auto simp: word_text_def takeWhile_eq_all_conv dropWhile_append
        takeWhile_append is_whitespace_def)
  show "split_whitespace (w @ 32 # s) = w # split_whitespace s"
    using w trim_start_word [OF assms, of "32 # s"]
    by (subst split_whitespace.simps) (simp add: split_whitespace_space)
  show "split_whitespace w = [w]"
    using w(1-3) trim_start_word [OF assms, of "[]"]
    by (subst split_whitespace.simps) (simp del: takeWhile_eq_all_conv dropWhile_eq_Nil_conv)
qed

subsection \<open>First occurrences\<close>

lemma starts_with_hd: "p \<noteq> [] \<Longrightarrow> starts_with (c # s) p \<Longrightarrow> c = hd p"
  by (cases p) (auto simp: starts_with_def)

lemma find_sub_first:
  assumes "p \<noteq> []" "hd p \<notin> set u"
  shows "find_sub p (u @ p @ v) = Some (length u)"
  using assms(2)
proof (induction u)
  case Nil
  obtain c r where "p @ v = c # r" using assms(1) by (cases p) auto
  then show ?case using starts_with_append [of p v] by simp
next
  case (Cons c u)
  then have "\<not> starts_with ((c # u) @ p @ v) p" using starts_with_hd [OF assms(1)] by auto
  with Cons show ?case by simp
qed

lemma find_sub_None: "\<not> contains_sub p s \<Longrightarrow> find_sub p s = None"
  by (simp add: contains_sub_def)

lemma first_segment_append:
  assumes "\<forall>c \<in> set u. \<not> P c" "v = [] \<or> P (hd v)"
  shows "first_segment P (u @ v) = u"
  using assms by (cases v) (auto simp: first_segment_def takeWhile_append)

subsection \<open>Splitting at a character\<close>

fun split_on :: "rchar \<Rightarrow> rstr \<Rightarrow> rstr list" where
  "split_on c [] = [[]]"
| "split_on c (x # xs) =
     (if x = c then [] # split_on c xs
      else (case split_on c xs of [] \<Rightarrow> [[x]] | w # ws \<Rightarrow> (x # w) # ws))"

lemma split_on_ne [simp]: "split_on c s \<noteq> []"
  by (induction s) (auto split: list.splits)

lemma split_on_no: "w \<in> set (split_on c s) \<Longrightarrow> c \<notin> set w"
proof (induction s arbitrary: w)
  case Nil
  then show ?case by simp
next
  case (Cons x xs)
  then show ?case by (cases "split_on c xs") (auto split: if_splits)
qed

lemma split_on_none: "c \<notin> set s \<Longrightarrow> split_on c s = [s]"
  by (induction s) auto

lemma split_on_append: "c \<notin> set u \<Longrightarrow> split_on c (u @ c # v) = u # split_on c v"
  by (induction u) auto

lemma ends_with_iff: "ends_with s p \<longleftrightarrow> (\<exists>r. s = r @ p)"
  unfolding ends_with_def starts_with_iff
  by (metis rev_append rev_rev_ident)

lemma ends_with_last: "ends_with s p \<Longrightarrow> p \<noteq> [] \<Longrightarrow> last s = last p"
  by (auto simp: ends_with_iff)

lemma contains_sub_set: "contains_sub p s \<Longrightarrow> set p \<subseteq> set s"
  by (auto simp: contains_sub_iff)

end
