(* ===== verification/Rust_Utf8.thy ===== *)
theory Rust_Utf8
  imports Rust_Text
begin

text \<open>
  UTF-8: the byte length of a text (\<open>str::len\<close>), the bytes a text is written as, and the strict
  decoding of \<open>String::from_utf8\<close> (no overlong forms, no surrogates, nothing above U+10FFFF).
  The two directions are inverse: decoding accepts exactly the encodings of valid texts.
\<close>

definition valid_scalar :: "rchar \<Rightarrow> bool" where
  "valid_scalar c \<longleftrightarrow> c < 0xD800 \<or> 0xE000 \<le> c \<and> c < 0x110000"

definition valid_text :: "rstr \<Rightarrow> bool" where
  "valid_text s \<longleftrightarrow> (\<forall>c \<in> set s. valid_scalar c)"

definition ascii_text :: "rstr \<Rightarrow> bool" where
  "ascii_text s \<longleftrightarrow> (\<forall>c \<in> set s. c < 0x80)"

definition utf8_char :: "rchar \<Rightarrow> bytes" where
  "utf8_char c =
     (if c < 0x80 then [char_of c]
      else if c < 0x800 then [char_of (0xC0 + c div 64), char_of (0x80 + c mod 64)]
      else if c < 0x10000 then
        [char_of (0xE0 + c div 4096), char_of (0x80 + c div 64 mod 64), char_of (0x80 + c mod 64)]
      else
        [char_of (0xF0 + c div 262144), char_of (0x80 + c div 4096 mod 64),
         char_of (0x80 + c div 64 mod 64), char_of (0x80 + c mod 64)])"

definition utf8_encode :: "rstr \<Rightarrow> bytes" where
  "utf8_encode s = concat (map utf8_char s)"

definition str_len :: "rstr \<Rightarrow> nat" where
  "str_len s = length (utf8_encode s)"

definition cont_byte :: "byte \<Rightarrow> bool" where
  "cont_byte b \<longleftrightarrow> 0x80 \<le> (of_char b :: nat) \<and> (of_char b :: nat) < 0xC0"

fun utf8_head :: "bytes \<Rightarrow> (rchar \<times> bytes) option" where
  "utf8_head [] = None"
| "utf8_head (b # bs) =
     (let n = of_char b in
      if n < 0x80 then Some (n, bs)
      else if n < 0xC0 then None
      else if n < 0xE0 then
        (case bs of
           c1 # r \<Rightarrow>
             (let cp = (n - 0xC0) * 64 + (of_char c1 - 0x80) in
              if cont_byte c1 \<and> 0x80 \<le> cp then Some (cp, r) else None)
         | _ \<Rightarrow> None)
      else if n < 0xF0 then
        (case bs of
           c1 # c2 # r \<Rightarrow>
             (let cp = (n - 0xE0) * 4096 + (of_char c1 - 0x80) * 64 + (of_char c2 - 0x80) in
              if cont_byte c1 \<and> cont_byte c2 \<and> 0x800 \<le> cp \<and> valid_scalar cp
              then Some (cp, r) else None)
         | _ \<Rightarrow> None)
      else if n < 0xF8 then
        (case bs of
           c1 # c2 # c3 # r \<Rightarrow>
             (let cp = (n - 0xF0) * 262144 + (of_char c1 - 0x80) * 4096
                       + (of_char c2 - 0x80) * 64 + (of_char c3 - 0x80) in
              if cont_byte c1 \<and> cont_byte c2 \<and> cont_byte c3 \<and> 0x10000 \<le> cp \<and> valid_scalar cp
              then Some (cp, r) else None)
         | _ \<Rightarrow> None)
      else None)"

lemma utf8_head_shorter: "utf8_head bs = Some (c, r) \<Longrightarrow> length r < length bs"
  by (cases bs) (auto simp: Let_def split: if_splits list.splits)

function utf8_decode :: "bytes \<Rightarrow> rstr option" where
  "utf8_decode bs =
     (if bs = [] then Some []
      else case utf8_head bs of
             None \<Rightarrow> None
           | Some (c, r) \<Rightarrow> map_option (\<lambda>s. c # s) (utf8_decode r))"
  by pat_completeness auto
termination
  by (relation "measure length") (auto dest: utf8_head_shorter)

declare utf8_decode.simps [simp del]

lemma utf8_encode_simps [simp]:
  "utf8_encode [] = []" "utf8_encode (c # s) = utf8_char c @ utf8_encode s"
  "utf8_encode (s @ t) = utf8_encode s @ utf8_encode t"
  by (simp_all add: utf8_encode_def)

lemma valid_text_simps [simp]:
  "valid_text []" "valid_text (c # s) \<longleftrightarrow> valid_scalar c \<and> valid_text s"
  "valid_text (s @ t) \<longleftrightarrow> valid_text s \<and> valid_text t"
  by (auto simp: valid_text_def)

lemma ascii_text_simps [simp]:
  "ascii_text []" "ascii_text (c # s) \<longleftrightarrow> c < 0x80 \<and> ascii_text s"
  "ascii_text (s @ t) \<longleftrightarrow> ascii_text s \<and> ascii_text t"
  by (auto simp: ascii_text_def)

lemma ascii_text_valid: "ascii_text s \<Longrightarrow> valid_text s"
  by (auto simp: ascii_text_def valid_text_def valid_scalar_def)

lemma of_char_lt [simp]: "(of_char c :: nat) < 256"
  using of_char_mod_256 [of c] by (metis mod_less_divisor zero_less_numeral)

lemma of_char_char_of_lt [simp]: "n < 256 \<Longrightarrow> of_char (char_of n) = (n :: nat)"
  by simp

lemma utf8_char_ascii: "c < 0x80 \<Longrightarrow> utf8_char c = [char_of c]"
  by (simp add: utf8_char_def)

lemma utf8_encode_ascii: "ascii_text s \<Longrightarrow> utf8_encode s = map char_of s"
  by (induction s) (simp_all add: utf8_char_ascii)

lemma str_len_ascii: "ascii_text s \<Longrightarrow> str_len s = length s"
  by (simp add: str_len_def utf8_encode_ascii)

lemma utf8_encode_lit: "ascii_text (lit s) \<Longrightarrow> utf8_encode (lit s) = s"
  by (simp add: utf8_encode_ascii lit_def comp_def)

lemma utf8_char_ne [simp]: "utf8_char c \<noteq> []"
  by (simp add: utf8_char_def)

lemma str_len_eq_0 [simp]: "str_len s = 0 \<longleftrightarrow> s = []"
  by (cases s) (simp_all add: str_len_def)

lemma length_le_str_len: "length s \<le> str_len s"
proof (induction s)
  case Nil
  then show ?case by simp
next
  case (Cons c s)
  moreover have "1 \<le> length (utf8_char c)" by (cases "utf8_char c") auto
  ultimately show ?case by (simp add: str_len_def)
qed

subsection \<open>Decoding inverts encoding\<close>

text \<open>Base-64 digits of a scalar value, joined and split.\<close>

lemma split64: "m < 64 \<Longrightarrow> (q * 64 + m) div 64 = (q::nat)" "m < 64 \<Longrightarrow> (q * 64 + m) mod 64 = (m::nat)"
  by simp_all

lemma div4096: "(c::nat) div 4096 = c div 64 div 64" "(c::nat) div 262144 = c div 64 div 64 div 64"
  using div_mult2_eq [of c 64 64] div_mult2_eq [of c 4096 64] by simp_all

lemma join64:
  "c div 4096 * 4096 + c div 64 mod 64 * 64 + c mod 64 = (c::nat)"
  "c div 262144 * 262144 + c div 4096 mod 64 * 4096 + c div 64 mod 64 * 64 + c mod 64 = (c::nat)"
  using div_mult_mod_eq [of c 64] div_mult_mod_eq [of "c div 64" 64]
    div_mult_mod_eq [of "c div 64 div 64" 64]
  unfolding div4096 by linarith+

lemma digits64_3:
  assumes "c = a * 4096 + m1 * 64 + m2" "m1 < 64" "m2 < (64::nat)"
  shows "c div 4096 = a" "c div 64 mod 64 = m1" "c mod 64 = m2"
proof -
  have c: "c = (a * 64 + m1) * 64 + m2" using assms(1) by simp
  show "c div 4096 = a" "c div 64 mod 64 = m1" "c mod 64 = m2"
    unfolding div4096 c using assms(2,3) by (simp_all only: split64)
qed

lemma digits64_4:
  assumes "c = a * 262144 + m1 * 4096 + m2 * 64 + m3" "m1 < 64" "m2 < 64" "m3 < (64::nat)"
  shows "c div 262144 = a" "c div 4096 mod 64 = m1" "c div 64 mod 64 = m2" "c mod 64 = m3"
proof -
  have c: "c = ((a * 64 + m1) * 64 + m2) * 64 + m3" using assms(1) by simp
  show "c div 262144 = a" "c div 4096 mod 64 = m1" "c div 64 mod 64 = m2" "c mod 64 = m3"
    unfolding div4096 c using assms(2-4) by (simp_all only: split64)
qed

lemma utf8_head_2:
  assumes "a < 32" "m < 64" "2 \<le> a"
  shows "utf8_head (char_of (0xC0 + a) # char_of (0x80 + m) # r) = Some (a * 64 + m, r)"
  using assms by (simp add: cont_byte_def Let_def del: of_char_of)

lemma utf8_head_3:
  assumes "a < 16" "m1 < 64" "m2 < 64" "0x800 \<le> a * 4096 + m1 * 64 + m2"
    and "valid_scalar (a * 4096 + m1 * 64 + m2)"
  shows "utf8_head (char_of (0xE0 + a) # char_of (0x80 + m1) # char_of (0x80 + m2) # r)
    = Some (a * 4096 + m1 * 64 + m2, r)"
  using assms by (simp add: cont_byte_def Let_def del: of_char_of)

lemma utf8_head_4:
  assumes "a < 8" "m1 < 64" "m2 < 64" "m3 < 64"
    and "0x10000 \<le> a * 262144 + m1 * 4096 + m2 * 64 + m3"
    and "valid_scalar (a * 262144 + m1 * 4096 + m2 * 64 + m3)"
  shows "utf8_head (char_of (0xF0 + a) # char_of (0x80 + m1) # char_of (0x80 + m2)
      # char_of (0x80 + m3) # r) = Some (a * 262144 + m1 * 4096 + m2 * 64 + m3, r)"
  using assms by (simp add: cont_byte_def Let_def del: of_char_of)

lemma utf8_head_encode:
  assumes "valid_scalar c"
  shows "utf8_head (utf8_char c @ r) = Some (c, r)"
proof -
  have up: "c < 0x110000" using assms by (auto simp: valid_scalar_def)
  have mods: "c mod 64 < 64" "c div 64 mod 64 < 64" "c div 4096 mod 64 < 64" by simp_all
  consider "c < 0x80" | "0x80 \<le> c" "c < 0x800" | "0x800 \<le> c" "c < 0x10000" | "0x10000 \<le> c"
    by linarith
  then show ?thesis
  proof cases
    case 1
    then show ?thesis by (simp add: utf8_char_def)
  next
    case 2
    then have a: "c div 64 < 32" "2 \<le> c div 64" by (simp_all add: less_mult_imp_div_less)
    show ?thesis
      using utf8_head_2 [OF a(1) mods(1) a(2), of r] 2 by (simp add: utf8_char_def)
  next
    case 3
    then have a: "c div 4096 < 16" by (simp add: less_mult_imp_div_less)
    show ?thesis
      using utf8_head_3 [OF a mods(2,1), unfolded join64, OF 3(1) assms, of r] 3
      by (simp add: utf8_char_def)
  next
    case 4
    then have a: "c div 262144 < 8" using up by (simp add: less_mult_imp_div_less)
    show ?thesis
      using utf8_head_4 [OF a mods(3,2,1), unfolded join64, OF 4 assms, of r] 4
      by (simp add: utf8_char_def)
  qed
qed

lemma utf8_decode_Cons:
  "valid_scalar c \<Longrightarrow> utf8_decode (utf8_char c @ r) = map_option (\<lambda>s. c # s) (utf8_decode r)"
  by (subst utf8_decode.simps) (simp add: utf8_head_encode)

lemma utf8_decode_Nil [simp]: "utf8_decode [] = Some []"
  by (subst utf8_decode.simps) simp

lemma utf8_decode_append:
  "valid_text s \<Longrightarrow> utf8_decode (utf8_encode s @ r) = map_option (\<lambda>t. s @ t) (utf8_decode r)"
  by (induction s) (cases "utf8_decode r"; simp add: utf8_decode_Cons)+

lemma utf8_decode_encode: "valid_text s \<Longrightarrow> utf8_decode (utf8_encode s) = Some s"
  using utf8_decode_append [of s "[]"] by simp

lemma char_of_of_char_eq: "n = of_char b \<Longrightarrow> char_of n = b"
  by simp

lemma utf8_head_exact:
  assumes "utf8_head bs = Some (c, r)"
  shows "valid_scalar c" "bs = utf8_char c @ r"
proof -
  obtain b t where bs: "bs = b # t" using assms by (cases bs) auto
  define n where "n = (of_char b :: nat)"
  have "n < 256" by (simp add: n_def)
  consider "n < 0x80" | "0xC0 \<le> n" "n < 0xE0" | "0xE0 \<le> n" "n < 0xF0" | "0xF0 \<le> n" "n < 0xF8"
    using assms bs unfolding n_def by (fastforce simp: Let_def split: if_splits)
  then have "valid_scalar c \<and> bs = utf8_char c @ r"
  proof cases
    case 1
    then show ?thesis
      using assms bs unfolding n_def by (auto simp: valid_scalar_def utf8_char_def)
  next
    case 2
    then obtain c1 where t: "t = c1 # r" and c1: "cont_byte c1"
      and c: "c = (n - 0xC0) * 64 + (of_char c1 - 0x80)" "0x80 \<le> c"
      using assms 2 unfolding bs n_def by (auto simp: Let_def split: list.splits if_splits)
    define m where "m = (of_char c1 - 0x80 :: nat)"
    have m: "m < 64" "0x80 + m = of_char c1" using c1 by (auto simp: m_def cont_byte_def)
    have "c div 64 = n - 0xC0" "c mod 64 = m"
      using c(1) m(1) unfolding m_def [symmetric] by (simp_all only: split64)
    then have "char_of (0xC0 + c div 64) = b" "char_of (0x80 + c mod 64) = c1"
      using 2 m(2) by (simp_all add: n_def)
    moreover have "c < 0x800" using c(1) m(1) 2 unfolding m_def [symmetric] by linarith
    ultimately show ?thesis
      using c(2) unfolding bs t by (simp add: utf8_char_def valid_scalar_def)
  next
    case 3
    then obtain c1 c2 where t: "t = c1 # c2 # r" and cb: "cont_byte c1" "cont_byte c2"
      and c: "c = (n - 0xE0) * 4096 + (of_char c1 - 0x80) * 64 + (of_char c2 - 0x80)"
        "0x800 \<le> c" "valid_scalar c"
      using assms 3 unfolding bs n_def by (auto simp: Let_def split: list.splits if_splits)
    define m1 m2 where "m1 = (of_char c1 - 0x80 :: nat)" and "m2 = (of_char c2 - 0x80 :: nat)"
    have m: "m1 < 64" "0x80 + m1 = of_char c1" "m2 < 64" "0x80 + m2 = of_char c2"
      using cb by (auto simp: m1_def m2_def cont_byte_def)
    have q: "c div 4096 = n - 0xE0" "c div 64 mod 64 = m1" "c mod 64 = m2"
      using digits64_3 [OF c(1) [folded m1_def m2_def] m(1,3)] by simp_all
    have "c < 0x10000" using c(1) m 3 unfolding m1_def [symmetric] m2_def [symmetric] by linarith
    moreover have "char_of (0xE0 + c div 4096) = b" "char_of (0x80 + c div 64 mod 64) = c1"
      "char_of (0x80 + c mod 64) = c2"
      using 3 m q by (simp_all add: n_def)
    ultimately show ?thesis
      using c(2,3) unfolding bs t by (simp add: utf8_char_def)
  next
    case 4
    then obtain c1 c2 c3 where t: "t = c1 # c2 # c3 # r"
      and cb: "cont_byte c1" "cont_byte c2" "cont_byte c3"
      and c: "c = (n - 0xF0) * 262144 + (of_char c1 - 0x80) * 4096 + (of_char c2 - 0x80) * 64
                  + (of_char c3 - 0x80)"
        "0x10000 \<le> c" "valid_scalar c"
      using assms 4 unfolding bs n_def by (auto simp: Let_def split: list.splits if_splits)
    define m1 m2 m3 where "m1 = (of_char c1 - 0x80 :: nat)" and "m2 = (of_char c2 - 0x80 :: nat)"
      and "m3 = (of_char c3 - 0x80 :: nat)"
    have m: "m1 < 64" "0x80 + m1 = of_char c1" "m2 < 64" "0x80 + m2 = of_char c2"
      "m3 < 64" "0x80 + m3 = of_char c3"
      using cb by (auto simp: m1_def m2_def m3_def cont_byte_def)
    have q: "c div 262144 = n - 0xF0" "c div 4096 mod 64 = m1" "c div 64 mod 64 = m2" "c mod 64 = m3"
      using digits64_4 [OF c(1) [folded m1_def m2_def m3_def] m(1,3,5)] by simp_all
    then have "char_of (0xF0 + c div 262144) = b" "char_of (0x80 + c div 4096 mod 64) = c1"
      "char_of (0x80 + c div 64 mod 64) = c2" "char_of (0x80 + c mod 64) = c3"
      using 4 m by (simp_all add: n_def)
    then show ?thesis
      using c(2,3) unfolding bs t by (simp add: utf8_char_def)
  qed
  then show "valid_scalar c" "bs = utf8_char c @ r" by auto
qed

lemma utf8_decode_exact:
  "utf8_decode bs = Some s \<Longrightarrow> valid_text s \<and> utf8_encode s = bs"
proof (induction bs arbitrary: s rule: utf8_decode.induct)
  case (1 bs)
  show ?case
  proof (cases "bs = []")
    case True
    with "1.prems" show ?thesis by simp
  next
    case False
    with "1.prems" obtain c r where h: "utf8_head bs = Some (c, r)"
      by (subst (asm) utf8_decode.simps) (auto split: option.splits)
    with False "1.prems" obtain t where t: "utf8_decode r = Some t" "s = c # t"
      by (subst (asm) utf8_decode.simps) auto
    have "valid_text t \<and> utf8_encode t = r"
      using "1.IH" [OF False h refl t(1)] .
    with t utf8_head_exact [OF h] show ?thesis by simp
  qed
qed

lemma utf8_decode_ascii:
  "\<forall>b \<in> set bs. (of_char b :: nat) < 0x80 \<Longrightarrow> utf8_decode bs = Some (map of_char bs)"
  using utf8_decode_encode [of "map of_char bs"]
  by (simp add: ascii_text_valid ascii_text_def utf8_encode_ascii comp_def)

lemma str_len_of_decode: "utf8_decode bs = Some s \<Longrightarrow> str_len s = length bs"
  by (auto simp: str_len_def dest: utf8_decode_exact)

subsection \<open>Line feeds\<close>

lemma utf8_char_high:
  assumes "valid_scalar c" "0x80 \<le> c" "b \<in> set (utf8_char c)"
  shows "0x80 \<le> (of_char b :: nat)"
proof -
  have "c < 0x110000" using assms(1) by (auto simp: valid_scalar_def)
  then have "c div 64 < 17408" "c div 4096 < 272" "c div 262144 < 5"
    by (simp_all add: less_mult_imp_div_less)
  moreover have "c < 0x800 \<Longrightarrow> c div 64 < 32" "c < 0x10000 \<Longrightarrow> c div 4096 < 16"
    by (simp_all add: less_mult_imp_div_less)
  ultimately show ?thesis
    using assms(2,3) by (auto simp: utf8_char_def simp del: of_char_of split: if_splits)
qed

lemma char_of_line_feed: "char_of (10::nat) = CHR 0x0A"
  by (simp add: char_of_eq_iff take_bit_eq_mod)

lemma newline_utf8_char: "valid_scalar c \<Longrightarrow> CHR 0x0A \<in> set (utf8_char c) \<longleftrightarrow> c = 10"
proof (cases "c < 0x80")
  case True
  have "CHR 0x0A = char_of c \<longleftrightarrow> c = 10"
  proof
    assume "CHR 0x0A = char_of c"
    then have "of_char (char_of c :: char) = (of_char (CHR 0x0A) :: nat)" by simp
    with True show "c = 10" by simp
  qed (simp add: char_of_line_feed)
  with True show ?thesis by (simp add: utf8_char_ascii)
next
  case False
  then show "valid_scalar c \<Longrightarrow> ?thesis" using utf8_char_high [of c "CHR 0x0A"] by auto
qed

lemma newline_utf8_encode:
  "valid_text s \<Longrightarrow> CHR 0x0A \<in> set (utf8_encode s) \<longleftrightarrow> 10 \<in> set s"
  by (induction s) (auto simp: newline_utf8_char)

end
