(* ===== verification/Btree_Map.thy ===== *)
theory Btree_Map
  imports Prelude
begin

text \<open>
  The ordered maps of the code (\<open>BTreeMap\<close>, and the map inside a JSON object): association lists
  in strictly increasing key order, so that iteration order is the list order and equal maps are
  equal lists. The interface \<open>ordered_map\<close> states what the clients rely on: what a lookup
  returns after an insertion or a removal. It is interpreted on the model's own operations.
\<close>

type_synonym ('k, 'v) btree = "('k \<times> 'v) list"

definition btree_ok :: "('k::linorder, 'v) btree \<Rightarrow> bool" where
  "btree_ok m \<longleftrightarrow> sorted_wrt (\<lambda>p q. fst p < fst q) m"

definition bt_get :: "('k, 'v) btree \<Rightarrow> 'k \<Rightarrow> 'v option" where
  "bt_get m k = map_of m k"

fun bt_insert :: "'k::linorder \<Rightarrow> 'v \<Rightarrow> ('k, 'v) btree \<Rightarrow> ('k, 'v) btree" where
  "bt_insert k v [] = [(k, v)]"
| "bt_insert k v (p # m) =
     (if k = fst p then (k, v) # m
      else if k < fst p then (k, v) # p # m
      else p # bt_insert k v m)"

definition bt_remove :: "'k \<Rightarrow> ('k, 'v) btree \<Rightarrow> ('k, 'v) btree" where
  "bt_remove k m = filter (\<lambda>p. fst p \<noteq> k) m"

text \<open>
  \<open>entry(k).or_insert_with(|| v)\<close> keeps a present entry;
  \<open>entry(k).and_modify(f).or_insert_with(|| v)\<close> updates it.
\<close>

definition bt_or_insert :: "'k::linorder \<Rightarrow> 'v \<Rightarrow> ('k, 'v) btree \<Rightarrow> ('k, 'v) btree" where
  "bt_or_insert k v m = (case bt_get m k of Some _ \<Rightarrow> m | None \<Rightarrow> bt_insert k v m)"

definition bt_modify_or_insert ::
  "'k::linorder \<Rightarrow> ('v \<Rightarrow> 'v) \<Rightarrow> 'v \<Rightarrow> ('k, 'v) btree \<Rightarrow> ('k, 'v) btree" where
  "bt_modify_or_insert k f v m =
     bt_insert k (case bt_get m k of Some u \<Rightarrow> f u | None \<Rightarrow> v) m"

text \<open>\<open>BTreeMap::from([(k, v), ...])\<close>: later entries win.\<close>

definition bt_from :: "('k::linorder \<times> 'v) list \<Rightarrow> ('k, 'v) btree" where
  "bt_from kvs = fold (\<lambda>(k, v). bt_insert k v) kvs []"

subsection \<open>The interface\<close>

locale ordered_map =
  fixes get :: "'m \<Rightarrow> 'k \<Rightarrow> 'v option"
    and put :: "'k \<Rightarrow> 'v \<Rightarrow> 'm \<Rightarrow> 'm"
    and del :: "'k \<Rightarrow> 'm \<Rightarrow> 'm"
    and wf :: "'m \<Rightarrow> bool"
    and start :: "'m"
  assumes get_start: "get start k = None"
    and get_put: "wf m \<Longrightarrow> get (put k v m) j = (if j = k then Some v else get m j)"
    and get_del: "wf m \<Longrightarrow> get (del k m) j = (if j = k then None else get m j)"
    and wf_start: "wf start"
    and wf_put: "wf m \<Longrightarrow> wf (put k v m)"
    and wf_del: "wf m \<Longrightarrow> wf (del k m)"
begin

lemmas map_laws = get_start get_put get_del wf_start wf_put wf_del

lemma wf_fold_put: "wf m \<Longrightarrow> wf (fold (\<lambda>(k, v). put k v) kvs m)"
  by (induction kvs arbitrary: m) (auto simp: wf_put)

lemma get_fold_put:
  "wf m \<Longrightarrow> get (fold (\<lambda>(k, v). put k v) kvs m) j = or_else (map_of (rev kvs) j) (get m j)"
proof (induction kvs arbitrary: m)
  case Nil
  then show ?case by simp
next
  case (Cons p kvs)
  obtain k v where p: "p = (k, v)" by (cases p)
  have "get (fold (\<lambda>(k, v). put k v) kvs (put k v m)) j
      = or_else (map_of (rev kvs) j) (get (put k v m) j)"
    using Cons.IH Cons.prems wf_put by blast
  then show ?case
    using Cons.prems p by (auto simp: get_put or_else_def map_add_def split: option.splits)
qed

lemma get_build: "get (fold (\<lambda>(k, v). put k v) kvs start) j = map_of (rev kvs) j"
  using get_fold_put [OF wf_start] by (simp add: get_start or_else_def split: option.splits)

lemma put_other: "wf m \<Longrightarrow> j \<noteq> k \<Longrightarrow> get (put k v m) j = get m j"
  by (simp add: get_put)

lemma put_same: "wf m \<Longrightarrow> get (put k v m) k = Some v"
  by (simp add: get_put)

lemma put_del_other: "wf m \<Longrightarrow> j \<noteq> k \<Longrightarrow> get (del j (put k v m)) k = Some v"
  by (simp add: get_put get_del wf_put)

end

subsection \<open>The model satisfies it\<close>

lemma btree_ok_Nil [simp]: "btree_ok []"
  by (simp add: btree_ok_def)

lemma btree_ok_Cons: "btree_ok (p # m) \<longleftrightarrow> (\<forall>q \<in> set m. fst p < fst q) \<and> btree_ok m"
  by (simp add: btree_ok_def)

lemma keys_bt_insert: "fst ` set (bt_insert k v m) = insert k (fst ` set m)"
  by (induction m) auto

lemma btree_ok_insert: "btree_ok m \<Longrightarrow> btree_ok (bt_insert k v m)"
proof (induction m)
  case Nil
  then show ?case by (simp add: btree_ok_Cons)
next
  case (Cons p m)
  then have m: "btree_ok m" "\<And>q. q \<in> set m \<Longrightarrow> fst p < fst q"
    by (auto simp: btree_ok_Cons)
  consider "k = fst p" | "k < fst p" | "fst p < k" by (rule linorder_cases [of k "fst p"]) auto
  then show ?case
  proof cases
    case 1
    with m show ?thesis by (simp add: btree_ok_Cons)
  next
    case 2
    with m show ?thesis by (auto simp: btree_ok_Cons intro: less_trans)
  next
    case 3
    have "fst p < fst q" if "q \<in> set (bt_insert k v m)" for q
      using that 3 m(2) keys_bt_insert [of k v m] by (metis image_iff insert_iff)
    with 3 m Cons.IH show ?thesis by (auto simp: btree_ok_Cons)
  qed
qed

lemma btree_ok_filter: "btree_ok m \<Longrightarrow> btree_ok (filter P m)"
  by (simp add: btree_ok_def sorted_wrt_filter)

lemma bt_get_insert: "bt_get (bt_insert k v m) j = (if j = k then Some v else bt_get m j)"
  by (induction m) (auto simp: bt_get_def)

lemma bt_get_remove: "bt_get (bt_remove k m) j = (if j = k then None else bt_get m j)"
  by (induction m) (auto simp: bt_get_def bt_remove_def)

lemma bt_get_Nil [simp]: "bt_get [] k = None"
  by (simp add: bt_get_def)

lemma btree_ok_remove: "btree_ok m \<Longrightarrow> btree_ok (bt_remove k m)"
  by (simp add: bt_remove_def btree_ok_filter)

interpretation bt: ordered_map bt_get bt_insert bt_remove btree_ok "[]"
  by unfold_locales
     (simp_all add: bt_get_insert bt_get_remove btree_ok_insert btree_ok_remove)

lemma keys_bt_from: "fst ` set (bt_from kvs) = fst ` set kvs"
proof -
  have "fst ` set (fold (\<lambda>(k, v). bt_insert k v) kvs m) = fst ` set m \<union> fst ` set kvs" for m :: "('a, 'b) btree"
    by (induction kvs arbitrary: m) (simp_all add: keys_bt_insert split_beta)
  from this [of "[]"] show ?thesis by (simp add: bt_from_def)
qed

lemma btree_ok_map: "btree_ok m \<Longrightarrow> btree_ok (map (\<lambda>(k, v). (k, f v)) m)"
  by (simp add: btree_ok_def sorted_wrt_map split_beta)

lemma btree_ok_from: "btree_ok (bt_from kvs)"
  unfolding bt_from_def by (rule bt.wf_fold_put) simp

lemma bt_get_from: "bt_get (bt_from kvs) j = map_of (rev kvs) j"
  unfolding bt_from_def by (rule bt.get_build)

lemma bt_get_or_insert:
  "bt_get (bt_or_insert k v m) j = (if j = k then Some (unwrap_or (bt_get m k) v) else bt_get m j)"
  by (auto simp: bt_or_insert_def bt_get_insert split: option.splits)

lemma btree_ok_or_insert: "btree_ok m \<Longrightarrow> btree_ok (bt_or_insert k v m)"
  by (auto simp: bt_or_insert_def btree_ok_insert split: option.splits)

lemma bt_get_modify:
  "bt_get (bt_modify_or_insert k f v m) j =
     (if j = k then Some (case bt_get m k of Some u \<Rightarrow> f u | None \<Rightarrow> v) else bt_get m j)"
  by (simp add: bt_modify_or_insert_def bt_get_insert)

lemma btree_ok_modify: "btree_ok m \<Longrightarrow> btree_ok (bt_modify_or_insert k f v m)"
  by (simp add: bt_modify_or_insert_def btree_ok_insert)

lemmas bt_ok = btree_ok_insert btree_ok_from btree_ok_or_insert btree_ok_modify bt.wf_del

lemmas bt_get_laws = bt_get_insert bt_get_remove bt_get_from bt_get_or_insert bt_get_modify

lemma bt_get_in_set: "bt_get m k = Some v \<Longrightarrow> (k, v) \<in> set m"
  by (simp add: bt_get_def map_of_SomeD)

lemma btree_ok_distinct: "btree_ok m \<Longrightarrow> distinct (map fst m)"
  by (induction m) (auto simp: btree_ok_Cons)

lemma in_set_bt_get: "btree_ok m \<Longrightarrow> (k, v) \<in> set m \<Longrightarrow> bt_get m k = Some v"
  by (simp add: bt_get_def btree_ok_distinct)

lemma set_bt_insert: "set (bt_insert k v m) \<subseteq> insert (k, v) (set m)"
  by (induction m) auto

text \<open>Two well-formed maps with the same lookups are the same list: the model is canonical.\<close>

lemma btree_ext:
  assumes "btree_ok m" "btree_ok n" "\<And>k. bt_get m k = bt_get n k"
  shows "m = n"
proof (rule map_sorted_distinct_set_unique [of fst])
  have dom: "set m = set n"
    using assms by (auto dest: in_set_bt_get bt_get_in_set) (metis bt_get_in_set in_set_bt_get)+
  show "inj_on fst (set m \<union> set n)"
    using btree_ok_distinct [OF assms(1)] dom by (simp add: distinct_map)
  have "sorted (map fst xs)" if "btree_ok xs" for xs :: "('a \<times> 'b) list"
    using that by (induction xs) (auto simp: btree_ok_Cons less_imp_le)
  then show "sorted (map fst m)" "sorted (map fst n)" using assms by auto
  show "distinct (map fst m)" "distinct (map fst n)"
    using assms btree_ok_distinct by auto
  show "set m = set n" by (rule dom)
qed

end
