(* ===== verification/Json.thy ===== *)
theory Json
  imports Rust_Utf8 Btree_Map "HOL-Library.Word"
begin

text \<open>
  JSON values as \<open>serde_json::Value\<close> has them, with the accessors the code calls. An object is an
  ordered map with text keys. A number is a \<open>u64\<close>, an \<open>i64\<close> or the bits of an \<open>f64\<close>; the
  code only asks whether a value is a number. The parser and the printer are not code of the
  repository: they are the parameter \<open>serde\<close> of every definition that calls them.
\<close>

datatype number = PosInt "64 word" | NegInt "64 word" | Float "64 word"

datatype json =
    Null
  | Bool bool
  | Number number
  | String rstr
  | Array "json list"
  | Object "(rstr \<times> json) list"

record serde =
  from_slice :: "bytes \<Rightarrow> json option"
  from_str :: "rstr \<Rightarrow> json option"
  to_vec :: "json \<Rightarrow> bytes option"
  to_string :: "json \<Rightarrow> rstr option"

text \<open>A codec that fails on everything, for evaluating what does not depend on it.\<close>

definition null_serde :: serde where
  "null_serde = \<lparr>from_slice = (\<lambda>_. None), from_str = (\<lambda>_. None), to_vec = (\<lambda>_. None),
     to_string = (\<lambda>_. None)\<rparr>"

definition json_obj :: "(rstr \<times> json) list \<Rightarrow> json" where
  "json_obj kvs = Object (bt_from kvs)"

definition json_uint :: "nat \<Rightarrow> json" where
  "json_uint n = Number (PosInt (of_nat n))"

definition empty_obj :: json where
  "empty_obj = Object []"

definition value_get :: "rstr \<Rightarrow> json \<Rightarrow> json option" where
  "value_get k v = (case v of Object m \<Rightarrow> bt_get m k | _ \<Rightarrow> None)"

text \<open>\<open>Value::pointer\<close> along tokens that are not array indices.\<close>

fun value_pointer :: "rstr list \<Rightarrow> json \<Rightarrow> json option" where
  "value_pointer [] v = Some v"
| "value_pointer (k # ks) v = Option.bind (value_get k v) (value_pointer ks)"

definition as_str :: "json \<Rightarrow> rstr option" where
  "as_str v = (case v of String s \<Rightarrow> Some s | _ \<Rightarrow> None)"

definition as_bool :: "json \<Rightarrow> bool option" where
  "as_bool v = (case v of Bool b \<Rightarrow> Some b | _ \<Rightarrow> None)"

definition as_object :: "json \<Rightarrow> (rstr, json) btree option" where
  "as_object v = (case v of Object m \<Rightarrow> Some m | _ \<Rightarrow> None)"

text \<open>Well-formed values: the keys of every object strictly increase.\<close>

fun json_ok :: "json \<Rightarrow> bool" where
  "json_ok (Array vs) = list_all json_ok vs"
| "json_ok (Object m) = (btree_ok m \<and> list_all (\<lambda>p. json_ok (snd p)) m)"
| "json_ok _ = True"

lemma value_get_obj: "value_get k (json_obj kvs) = map_of (rev kvs) k"
  by (simp add: value_get_def json_obj_def bt_get_from)

lemma value_get_simps [simp]:
  "value_get k (Object m) = bt_get m k" "value_get k (String s) = None" "value_get k Null = None"
  "value_get k (Bool b) = None" "value_get k (Number n) = None" "value_get k (Array vs) = None"
  by (simp_all add: value_get_def)

lemma as_str_eq [simp]: "as_str v = Some s \<longleftrightarrow> v = String s"
  by (cases v) (auto simp: as_str_def)

lemma as_bool_eq [simp]: "as_bool v = Some b \<longleftrightarrow> v = Bool b"
  by (cases v) (auto simp: as_bool_def)

lemma as_str_simps [simp]: "as_str (String s) = Some s" "as_str (Object m) = None"
  by (simp_all add: as_str_def)

lemma as_bool_simps [simp]: "as_bool (Bool b) = Some b"
  by (simp add: as_bool_def)

lemma set_bt_from: "set (bt_from kvs) \<subseteq> set kvs"
proof -
  have "set (fold (\<lambda>(k, v). bt_insert k v) kvs m) \<subseteq> set m \<union> set kvs" for m :: "('a \<times> 'b) list"
  proof (induction kvs arbitrary: m)
    case Nil
    then show ?case by simp
  next
    case (Cons p kvs)
    then show ?case using set_bt_insert by (cases p) fastforce
  qed
  then show ?thesis by (fastforce simp: bt_from_def)
qed

lemma json_ok_obj: "(\<And>k v. (k, v) \<in> set kvs \<Longrightarrow> json_ok v) \<Longrightarrow> json_ok (json_obj kvs)"
  using set_bt_from by (fastforce simp: json_obj_def btree_ok_from list_all_iff)

end
