(* ===== verification/Rust_Num.thy ===== *)
theory Rust_Num
  imports Rust_Text
begin

text \<open>
  Integers in texts: the unsigned \<open>from_str_radix\<close> of the standard library with its checked
  accumulation (so that an out-of-range number is an error, never a wrapped value), \<open>parse\<close>,
  and the decimal printing of \<open>Display\<close>.
\<close>

definition digit_value :: "nat \<Rightarrow> rchar \<Rightarrow> nat option" where
  "digit_value radix c =
     (let v = (if is_ascii_digit c then c - 48
               else if is_ascii_lower c then c - 87
               else if is_ascii_upper c then c - 55 else 36)
      in if v < radix then Some v else None)"

text \<open>The loop: \<open>result.checked_mul(radix)?.checked_add(digit)?\<close> for each digit.\<close>

fun checked_digits :: "nat \<Rightarrow> nat \<Rightarrow> nat \<Rightarrow> rstr \<Rightarrow> nat option" where
  "checked_digits maxv radix acc [] = Some acc"
| "checked_digits maxv radix acc (c # cs) =
     (case digit_value radix c of
        None \<Rightarrow> None
      | Some d \<Rightarrow>
          if acc * radix > maxv then None
          else if acc * radix + d > maxv then None
          else checked_digits maxv radix (acc * radix + d) cs)"

text \<open>The empty text and a sign with no digits are errors; one leading plus sign is accepted.\<close>

definition from_str_radix :: "nat \<Rightarrow> nat \<Rightarrow> rstr \<Rightarrow> nat option" where
  "from_str_radix maxv radix s =
     (case s of
        [] \<Rightarrow> None
      | c # cs \<Rightarrow>
          if c = 43 then (if cs = [] then None else checked_digits maxv radix 0 cs)
          else checked_digits maxv radix 0 (c # cs))"

definition parse_usize :: "rstr \<Rightarrow> nat option" where
  "parse_usize s = from_str_radix usize_max 10 s"

definition parse_u16 :: "rstr \<Rightarrow> nat option" where
  "parse_u16 s = from_str_radix 65535 10 s"

fun show_dec :: "nat \<Rightarrow> rstr" where
  "show_dec n = (if n < 10 then [48 + n] else show_dec (n div 10) @ [48 + n mod 10])"

declare show_dec.simps [simp del]

text \<open>The value of a digit string, with no bound: the reference the checked loop is compared to.\<close>

fun digits_value :: "nat \<Rightarrow> nat \<Rightarrow> rstr \<Rightarrow> nat option" where
  "digits_value radix acc [] = Some acc"
| "digits_value radix acc (c # cs) =
     (case digit_value radix c of None \<Rightarrow> None | Some d \<Rightarrow> digits_value radix (acc * radix + d) cs)"

lemma digits_value_ge: "digits_value radix acc s = Some v \<Longrightarrow> 0 < radix \<Longrightarrow> acc \<le> v"
proof (induction s arbitrary: acc)
  case Nil
  then show ?case by simp
next
  case (Cons c s)
  then obtain d where "digits_value radix (acc * radix + d) s = Some v"
    by (auto split: option.splits)
  then have "acc * radix + d \<le> v" using Cons.IH Cons.prems(2) by blast
  moreover have "acc \<le> acc * radix" using Cons.prems(2) by (cases radix) simp_all
  ultimately show ?case by linarith
qed

lemma checked_digits_eq:
  assumes "0 < radix" "acc \<le> maxv"
  shows "checked_digits maxv radix acc s =
    opt_filter (\<lambda>v. v \<le> maxv) (digits_value radix acc s)"
  using assms(2)
proof (induction s arbitrary: acc)
  case Nil
  then show ?case by simp
next
  case (Cons c s)
  show ?case
  proof (cases "digit_value radix c")
    case None
    then show ?thesis by simp
  next
    case (Some d)
    show ?thesis
    proof (cases "acc * radix + d \<le> maxv")
      case True
      with Some Cons.IH show ?thesis by simp
    next
      case False
      then have "\<And>v. digits_value radix (acc * radix + d) s = Some v \<Longrightarrow> \<not> v \<le> maxv"
        using digits_value_ge [OF _ assms(1)] by (meson order_trans)
      then have "opt_filter (\<lambda>v. v \<le> maxv) (digits_value radix (acc * radix + d) s) = None"
        by (auto simp: opt_filter_eq_None)
      with Some False show ?thesis by simp
    qed
  qed
qed

lemma checked_digits_bound:
  "checked_digits maxv radix acc s = Some v \<Longrightarrow> acc \<le> maxv \<Longrightarrow> v \<le> maxv"
  by (induction s arbitrary: acc) (auto split: option.splits if_splits)

lemma from_str_radix_bound: "from_str_radix maxv radix s = Some v \<Longrightarrow> v \<le> maxv"
  by (auto simp: from_str_radix_def simp del: checked_digits.simps
      dest!: checked_digits_bound split: list.splits if_splits)

lemmas parse_bounds = from_str_radix_bound [of usize_max 10, folded parse_usize_def]
  from_str_radix_bound [of 65535 10, folded parse_u16_def]

lemma checked_digits_alnum:
  "checked_digits maxv radix acc s = Some v \<Longrightarrow> radix \<le> 36 \<Longrightarrow> c \<in> set s \<Longrightarrow> is_ascii_alphanumeric c"
  by (induction s arbitrary: acc)
     (auto simp: digit_value_def is_ascii_alphanumeric_def Let_def split: option.splits if_splits)

lemma digit_value_show: "d < 10 \<Longrightarrow> digit_value 10 (48 + d) = Some d"
  by (simp add: digit_value_def is_ascii_digit_def)

lemma digits_value_append:
  "digits_value radix acc (s @ t) =
     (case digits_value radix acc s of None \<Rightarrow> None | Some v \<Rightarrow> digits_value radix v t)"
  by (induction s arbitrary: acc) (auto split: option.splits)

lemma digits_value_show_dec: "digits_value 10 0 (show_dec n) = Some n"
proof (induction n rule: show_dec.induct)
  case (1 n)
  show ?case
  proof (cases "n < 10")
    case True
    then show ?thesis by (subst show_dec.simps) (simp add: digit_value_show)
  next
    case False
    with 1 have "digits_value 10 0 (show_dec (n div 10)) = Some (n div 10)" by simp
    with False show ?thesis
      by (subst show_dec.simps) (simp add: digits_value_append digit_value_show)
  qed
qed

lemma show_dec_digits: "c \<in> set (show_dec n) \<Longrightarrow> is_ascii_digit c"
proof (induction n rule: show_dec.induct)
  case (1 n)
  show ?case
  proof (cases "n < 10")
    case True
    with "1.prems" show ?thesis by (subst (asm) show_dec.simps) (simp add: is_ascii_digit_def)
  next
    case False
    with "1.prems" have "c \<in> set (show_dec (n div 10)) \<or> c = 48 + n mod 10"
      by (subst (asm) show_dec.simps) auto
    with False "1.IH" show ?thesis by (auto simp: is_ascii_digit_def)
  qed
qed

lemma show_dec_ne [simp]: "show_dec n \<noteq> []"
  by (subst show_dec.simps) simp

lemma length_show_dec: "0 < k \<Longrightarrow> n < 10 ^ k \<Longrightarrow> length (show_dec n) \<le> k"
proof (induction n arbitrary: k rule: show_dec.induct)
  case (1 n)
  show ?case
  proof (cases "n < 10")
    case True
    with "1.prems" show ?thesis by (subst show_dec.simps) simp
  next
    case False
    then obtain j where j: "k = Suc j" "0 < j"
      using "1.prems" by (cases k; cases "k - 1") auto
    then have "n div 10 < 10 ^ j" using "1.prems"(2) by (simp add: less_mult_imp_div_less mult.commute)
    with "1.IH" [OF False j(2)] False j(1) show ?thesis by (subst show_dec.simps) simp
  qed
qed

lemma from_str_radix_show: "n \<le> maxv \<Longrightarrow> from_str_radix maxv 10 (show_dec n) = Some n"
proof -
  assume n: "n \<le> maxv"
  obtain c cs where cs: "show_dec n = c # cs" by (cases "show_dec n") auto
  then have "c \<noteq> 43" using show_dec_digits [of c n] by (auto simp: is_ascii_digit_def)
  then show ?thesis
    using n digits_value_show_dec [of n] cs
    by (simp add: from_str_radix_def checked_digits_eq del: checked_digits.simps digits_value.simps)
qed

lemma parse_usize_show: "n \<le> usize_max \<Longrightarrow> parse_usize (show_dec n) = Some n"
  by (simp add: parse_usize_def from_str_radix_show)

lemma parse_u16_show: "n \<le> 65535 \<Longrightarrow> parse_u16 (show_dec n) = Some n"
  by (simp add: parse_u16_def from_str_radix_show)

lemma trimmed_show_dec [simp]: "trimmed (show_dec n)"
proof (rule trimmed_no_whitespace)
  show "\<forall>c \<in> set (show_dec n). \<not> is_whitespace c"
    by (auto dest!: show_dec_digits simp: char_class_defs)
qed

lemma hd_show_dec: "0 < n \<Longrightarrow> hd (show_dec n) \<noteq> 48"
proof (induction n rule: show_dec.induct)
  case (1 n)
  show ?case
  proof (cases "n < 10")
    case True
    with "1.prems" show ?thesis by (subst show_dec.simps) simp
  next
    case False
    then have "hd (show_dec (n div 10)) \<noteq> 48" using "1.IH" by simp
    with False show ?thesis by (subst show_dec.simps) simp
  qed
qed

lemma last_show_dec: "is_ascii_digit (last (show_dec n))"
  by (rule show_dec_digits [of _ n]) simp

end
