(* ===== verification/Dispatch.thy ===== *)
theory Dispatch
  imports Json Rust_Num
begin

text \<open>
  The provider-neutral core of the serverless crate (\<^verbatim>\<open>src/lambdas/src/lib.rs\<close>): the
  route specification, the normalized request and response, the dispatcher with its accept log,
  the correlation identifiers, and the interface every runtime adapter satisfies.
\<close>

subsection \<open>Data\<close>

definition DEFAULT_MAX_EVENT_BYTES :: nat where
  "DEFAULT_MAX_EVENT_BYTES = 1048576"

definition DEFAULT_HTTP_PORT :: nat where
  "DEFAULT_HTTP_PORT = 8080"

record RouteSpec =
  handler :: rstr
  spec_method :: rstr
  spec_path :: rstr
  required_field :: rstr
  max_event_bytes :: nat

definition route_spec_new :: "rstr \<Rightarrow> rstr \<Rightarrow> rstr \<Rightarrow> rstr \<Rightarrow> RouteSpec" where
  "route_spec_new h m p f =
     \<lparr>handler = h, spec_method = m, spec_path = p, required_field = f,
      max_event_bytes = DEFAULT_MAX_EVENT_BYTES\<rparr>"

record FunctionRequest =
  req_method :: rstr
  req_path :: rstr
  req_body :: json
  request_id :: rstr
  event_bytes :: nat

record FunctionResponse =
  status_code :: nat
  headers :: "(rstr, rstr) btree"
  resp_body :: json

text \<open>
  The observable effects besides the response: a structured trace event (feature \<open>aws\<close>), a line
  on standard output (feature \<open>http\<close> alone) and a line on standard error.
\<close>

datatype log_event =
    AcceptTrace rstr rstr rstr rstr nat
  | ListeningTrace nat rstr
  | Stdout rstr
  | Stderr rstr

record build =
  feature_aws :: bool
  feature_http :: bool

subsection \<open>Correlation identifiers\<close>

definition request_id_char :: "rchar \<Rightarrow> bool" where
  "request_id_char c \<longleftrightarrow> is_ascii_alphanumeric c \<or> c \<in> set (lit ''-_.:/'')"

definition sanitize_request_id :: "rstr \<Rightarrow> rstr option" where
  "sanitize_request_id value =
     (let sanitized = take 128 (filter request_id_char (trim value))
      in if sanitized \<noteq> [] then Some sanitized else None)"

text \<open>The clock may stand before the epoch (\<open>None\<close>): then the code uses zero.\<close>

definition generated_request_id :: "nat \<Rightarrow> nat option \<Rightarrow> rstr" where
  "generated_request_id pid clock =
     lit ''scintilla-'' @ show_dec pid @ lit ''-'' @ show_dec (unwrap_or clock 0)"

subsection \<open>Responses\<close>

definition function_response :: "nat \<Rightarrow> json \<Rightarrow> rstr option \<Rightarrow> FunctionResponse" where
  "function_response status body allow =
     (let hs = bt_from [(lit ''cache-control'', lit ''no-store''),
                        (lit ''content-type'', lit ''application/json'')];
          hs = (case allow of Some m \<Rightarrow> bt_insert (lit ''allow'') m hs | None \<Rightarrow> hs)
      in \<lparr>status_code = status, headers = hs, resp_body = body\<rparr>)"

definition with_request_id :: "FunctionResponse \<Rightarrow> rstr \<Rightarrow> FunctionResponse" where
  "with_request_id response rid =
     response\<lparr>headers := bt_insert (lit ''x-request-id'') rid (headers response)\<rparr>"

definition has_required_value :: "json \<Rightarrow> rstr \<Rightarrow> bool" where
  "has_required_value body field =
     is_some_and
       (\<lambda>v. case v of
              Null \<Rightarrow> False
            | String text \<Rightarrow> trim text \<noteq> []
            | Array items \<Rightarrow> items \<noteq> []
            | Object members \<Rightarrow> members \<noteq> []
            | Bool _ \<Rightarrow> True
            | Number _ \<Rightarrow> True)
       (Option.bind (as_object body) (\<lambda>obj. bt_get obj field))"

definition error_body :: "string \<Rightarrow> json" where
  "error_body code = json_obj [(lit ''error'', String (lit code))]"

definition too_large_body :: "RouteSpec \<Rightarrow> json" where
  "too_large_body spec =
     json_obj [(lit ''error'', String (lit ''event_too_large'')),
               (lit ''max_bytes'', json_uint (max_event_bytes spec))]"

subsection \<open>The dispatcher\<close>

definition accept_log_line :: "FunctionRequest \<Rightarrow> RouteSpec \<Rightarrow> rstr" where
  \<open>accept_log_line request spec =
     lit ''{"level":"info","event":"accepted_heavy_route","handler":"'' @ handler spec
     @ lit ''","route":"'' @ spec_path spec @ lit ''","method":"'' @ spec_method spec
     @ lit ''","request_id":"'' @ request_id request
     @ lit ''","event_bytes":'' @ show_dec (event_bytes request) @ lit ''}''\<close>

definition emit_accept_log ::
  "build \<Rightarrow> FunctionRequest \<Rightarrow> RouteSpec \<Rightarrow> log_event list \<Rightarrow> log_event list" where
  "emit_accept_log b request spec log =
     (if feature_aws b then
        log @ [AcceptTrace (handler spec) (spec_path spec) (spec_method spec)
                 (request_id request) (event_bytes request)]
      else if feature_http b then log @ [Stdout (accept_log_line request spec)]
      else log)"

definition dispatch_request ::
  "build \<Rightarrow> FunctionRequest \<Rightarrow> RouteSpec \<Rightarrow> log_event list \<Rightarrow>
   FunctionResponse \<times> log_event list" where
  "dispatch_request b request spec log =
     (let (response, log') =
        (if event_bytes request > max_event_bytes spec then
           (function_response 413 (too_large_body spec) None, log)
         else if req_path request \<noteq> spec_path spec then
           (function_response 404 (error_body ''route_not_found'') None, log)
         else if \<not> eq_ignore_ascii_case (req_method request) (spec_method spec) then
           (function_response 405 (error_body ''method_not_allowed'') (Some (spec_method spec)), log)
         else if \<not> has_required_value (req_body request) (required_field spec) then
           (function_response 422
              (json_obj [(lit ''error'', String (lit ''missing_required_field'')),
                         (lit ''field'', String (required_field spec))]) None, log)
         else
           (function_response 202
              (json_obj [(lit ''accepted'', Bool True), (lit ''handler'', String (handler spec)),
                         (lit ''request_id'', String (request_id request)),
                         (lit ''route'', String (spec_path spec))]) None,
            emit_accept_log b request spec log))
      in (with_request_id response (request_id request), log'))"

subsection \<open>Facts on correlation identifiers\<close>

definition safe_id :: "rstr \<Rightarrow> bool" where
  "safe_id s \<longleftrightarrow> s \<noteq> [] \<and> length s \<le> 128 \<and> (\<forall>c \<in> set s. request_id_char c)"

lemma request_id_char_ascii [token_facts]:
  "request_id_char c \<Longrightarrow> 32 < c \<and> c < 127 \<and> \<not> is_whitespace c \<and> \<not> is_control c"
  by (auto simp: request_id_char_def char_class_defs lit_Cons)

lemma request_id_char_excluded [token_facts]:
  "request_id_char c \<Longrightarrow> c \<noteq> 34 \<and> c \<noteq> 92 \<and> c \<noteq> 44 \<and> c \<noteq> 13 \<and> c \<noteq> 10"
  by (auto simp: request_id_char_def char_class_defs lit_Cons)

lemma filter_trim:
  assumes "\<And>c. P c \<Longrightarrow> \<not> is_whitespace c"
  shows "filter P (trim s) = filter P s"
proof -
  have drop: "filter P (dropWhile is_whitespace t) = filter P t" for t
    using assms by (induction t) auto
  show ?thesis
    by (simp add: trim_def trim_start_def trim_end_def rev_filter [symmetric] drop)
qed

lemma sanitize_eq:
  "sanitize_request_id s =
     (let t = take 128 (filter request_id_char s) in if t = [] then None else Some t)"
  using filter_trim [of request_id_char s] token_facts
  by (simp add: sanitize_request_id_def Let_def)

lemma sanitize_safe: "sanitize_request_id s = Some t \<Longrightarrow> safe_id t"
  by (auto simp: sanitize_eq Let_def safe_id_def dest: set_take_filter split: if_splits)

lemma sanitize_fixes_safe: "safe_id t \<Longrightarrow> sanitize_request_id t = Some t"
  by (simp add: sanitize_eq safe_id_def filter_id_conv_all Let_def)

lemma show_dec_request_id: "c \<in> set (show_dec n) \<Longrightarrow> request_id_char c"
  using show_dec_digits by (simp add: request_id_char_def is_ascii_alphanumeric_def)

lemma generated_safe:
  assumes "pid < 2 ^ 32" "unwrap_or clock 0 < 2 ^ 128"
  shows "safe_id (generated_request_id pid clock)"
proof -
  have "pid < 10 ^ 10" "unwrap_or clock 0 < 10 ^ 39" using assms by simp_all
  then have "length (show_dec pid) \<le> 10" "length (show_dec (unwrap_or clock 0)) \<le> 39"
    by (simp_all add: length_show_dec del: power_numeral)
  then show ?thesis
    by (auto simp: generated_request_id_def safe_id_def dest: show_dec_request_id)
       (auto simp: request_id_char_def char_class_defs lit_Cons)
qed

lemma sanitized_or_generated_safe:
  "pid < 2 ^ 32 \<Longrightarrow> unwrap_or clock 0 < 2 ^ 128 \<Longrightarrow>
   safe_id (unwrap_or (sanitize_request_id s) (generated_request_id pid clock))"
  using generated_safe sanitize_safe by (cases "sanitize_request_id s") auto

text \<open>
  \<open>sanitize_request_id\<close> keeps, in order, the first 128 permitted characters of its input: it
  fails exactly when there is none, what it returns is non-empty, at most 128 characters long and
  free of anything but \<open>[A-Za-z0-9-_.:/]\<close>, and sanitizing again changes nothing.
\<close>

theorem sanitize_request_id_spec:
  "(sanitize_request_id s = None \<longleftrightarrow> (\<forall>c \<in> set s. \<not> request_id_char c))
   \<and> (\<forall>t. sanitize_request_id s = Some t \<longrightarrow>
        safe_id t \<and> t = take 128 (filter request_id_char s) \<and> sanitize_request_id t = Some t)"
  using sanitize_safe sanitize_fixes_safe
  by (auto simp: sanitize_eq Let_def filter_empty_conv split: if_splits)

theorem sanitize_request_id_spec_witness:
  "sanitize_request_id (lit ''  ab c'' @ [10]) = Some (lit ''abc'')
   \<and> safe_id (lit ''abc'') \<and> sanitize_request_id (lit ''abc'') = Some (lit ''abc'')"
proof -
  have "sanitize_request_id (lit ''  ab c'' @ [10]) = Some (lit ''abc'')"
    by (simp add: sanitize_eq request_id_char_def char_class_defs lit_Cons)
  with sanitize_request_id_spec [of "lit ''  ab c'' @ [10]"] show ?thesis by blast
qed

subsection \<open>The response contract\<close>

text \<open>
  What every producer of a \<open>FunctionResponse\<close> promises its writers: an ordered header map that
  forbids caching, declares JSON and carries the correlation identifier.
\<close>

locale responder =
  fixes respond :: "'q \<Rightarrow> FunctionResponse"
    and correlation :: "'q \<Rightarrow> rstr"
  assumes headers_ok: "btree_ok (headers (respond q))"
    and no_store: "bt_get (headers (respond q)) (lit ''cache-control'') = Some (lit ''no-store'')"
    and json_type: "bt_get (headers (respond q)) (lit ''content-type'') = Some (lit ''application/json'')"
    and correlated: "bt_get (headers (respond q)) (lit ''x-request-id'') = Some (correlation q)"
begin

lemmas contract = headers_ok no_store json_type correlated

lemma header_survives:
  assumes "k \<noteq> j"
  shows "bt_get (bt_remove k (headers (respond q))) j = bt_get (headers (respond q)) j"
  using assms by (simp add: bt_get_remove)

end

lemma function_response_headers:
  "btree_ok (headers (function_response st body allow))"
  "bt_get (headers (function_response st body allow)) k =
     (if k = lit ''allow'' then allow
      else if k = lit ''cache-control'' then Some (lit ''no-store'')
      else if k = lit ''content-type'' then Some (lit ''application/json'')
      else None)"
  by (cases allow; auto simp: function_response_def Let_def bt_ok bt_get_laws)+

lemma function_response_sel [simp]:
  "status_code (function_response st body allow) = st"
  "resp_body (function_response st body allow) = body"
  by (simp_all add: function_response_def Let_def)

lemma with_request_id_sel [simp]:
  "status_code (with_request_id r rid) = status_code r"
  "resp_body (with_request_id r rid) = resp_body r"
  by (simp_all add: with_request_id_def)

lemma with_request_id_headers:
  "btree_ok (headers r) \<Longrightarrow> btree_ok (headers (with_request_id r rid))"
  "bt_get (headers (with_request_id r rid)) k =
     (if k = lit ''x-request-id'' then Some rid else bt_get (headers r) k)"
  by (simp_all add: with_request_id_def btree_ok_insert bt_get_insert)

lemmas response_headers = function_response_headers with_request_id_headers

lemma dispatch_request_response:
  "\<exists>st body allow. fst (dispatch_request b request spec log)
     = with_request_id (function_response st body allow) (request_id request)"
  unfolding dispatch_request_def by (simp add: Let_def) blast

lemma dispatch_request_contract:
  "btree_ok (headers (fst (dispatch_request b request spec log)))"
  "bt_get (headers (fst (dispatch_request b request spec log))) (lit ''cache-control'')
     = Some (lit ''no-store'')"
  "bt_get (headers (fst (dispatch_request b request spec log))) (lit ''content-type'')
     = Some (lit ''application/json'')"
  "bt_get (headers (fst (dispatch_request b request spec log))) (lit ''x-request-id'')
     = Some (request_id request)"
  using dispatch_request_response [of b request spec log]
  by (auto simp: response_headers)

interpretation disp: responder "\<lambda>request. fst (dispatch_request b request spec log)" request_id
  for b spec log
  by unfold_locales (rule dispatch_request_contract)+

text \<open>The header names and values a dispatched response can have.\<close>

definition response_names :: "rstr set" where
  "response_names = {lit ''allow'', lit ''cache-control'', lit ''content-type'', lit ''x-request-id''}"

lemma dispatch_request_header:
  assumes "bt_get (headers (fst (dispatch_request b request spec log))) k = Some v"
  shows "k \<in> response_names"
    and "v \<in> {spec_method spec, lit ''no-store'', lit ''application/json'', request_id request}"
  using assms
  by (auto simp: response_names_def dispatch_request_def Let_def response_headers split: if_splits)

definition header_token :: "rstr \<Rightarrow> bool" where
  "header_token s \<longleftrightarrow> s \<noteq> [] \<and> (\<forall>c \<in> set s. is_ascii_digit c \<or> is_ascii_lower c \<or> c = 45)"

definition visible_text :: "rstr \<Rightarrow> bool" where
  "visible_text s \<longleftrightarrow> (\<forall>c \<in> set s. 32 \<le> c \<and> c < 127)"

lemma response_names_token: "k \<in> response_names \<Longrightarrow> header_token k"
  by (auto simp: response_names_def header_token_def lit_Cons char_class_defs)

lemma safe_id_visible: "safe_id s \<Longrightarrow> visible_text s"
  using request_id_char_ascii by (fastforce simp: safe_id_def visible_text_def)

lemma response_constants_visible: "visible_text (lit ''no-store'')" "visible_text (lit ''application/json'')"
  by (auto simp: visible_text_def lit_Cons)

lemma dispatch_header_visible:
  assumes "visible_text (spec_method spec)" "safe_id (request_id request)"
    and "(k, v) \<in> set (headers (fst (dispatch_request b request spec log)))"
  shows "header_token k" "visible_text v"
proof -
  have "bt_get (headers (fst (dispatch_request b request spec log))) k = Some v"
    using assms(3) by (rule in_set_bt_get [OF dispatch_request_contract(1)])
  from dispatch_request_header [OF this] assms(1,2)
  show "header_token k" "visible_text v"
    using response_names_token safe_id_visible response_constants_visible by auto
qed

subsection \<open>What the dispatcher decides\<close>

text \<open>
  The abstract acceptance condition: a bounded event on the exact route, with the route's method
  in any letter case, whose body is an object that gives the required field a non-blank value.
\<close>

definition non_blank :: "json \<Rightarrow> bool" where
  "non_blank v \<longleftrightarrow>
     v \<noteq> Null \<and> v \<noteq> Array [] \<and> v \<noteq> Object [] \<and> (\<forall>t. v = String t \<longrightarrow> (\<exists>c \<in> set t. \<not> is_whitespace c))"

definition acceptable :: "RouteSpec \<Rightarrow> FunctionRequest \<Rightarrow> bool" where
  "acceptable spec request \<longleftrightarrow>
     event_bytes request \<le> max_event_bytes spec \<and> req_path request = spec_path spec
     \<and> eq_ignore_ascii_case (req_method request) (spec_method spec)
     \<and> (\<exists>obj v. req_body request = Object obj \<and> bt_get obj (required_field spec) = Some v \<and> non_blank v)"

lemma has_required_value_iff:
  "has_required_value body field \<longleftrightarrow>
     (\<exists>obj v. body = Object obj \<and> bt_get obj field = Some v \<and> non_blank v)"
proof -
  have "(case v of Null \<Rightarrow> False | String text \<Rightarrow> trim text \<noteq> [] | Array items \<Rightarrow> items \<noteq> []
      | Object members \<Rightarrow> members \<noteq> [] | Bool _ \<Rightarrow> True | Number _ \<Rightarrow> True) \<longleftrightarrow> non_blank v" for v
    by (cases v) (auto simp: non_blank_def trim_eq_Nil)
  then show ?thesis
    by (cases body) (auto simp: has_required_value_def as_object_def is_some_and_iff)
qed

lemma dispatch_request_status:
  "status_code (fst (dispatch_request b request spec log)) =
     (if event_bytes request > max_event_bytes spec then 413
      else if req_path request \<noteq> spec_path spec then 404
      else if \<not> eq_ignore_ascii_case (req_method request) (spec_method spec) then 405
      else if \<not> has_required_value (req_body request) (required_field spec) then 422
      else 202)"
  by (simp add: dispatch_request_def Let_def)

lemma acceptable_iff:
  "acceptable spec request \<longleftrightarrow>
     event_bytes request \<le> max_event_bytes spec \<and> req_path request = spec_path spec
     \<and> eq_ignore_ascii_case (req_method request) (spec_method spec)
     \<and> has_required_value (req_body request) (required_field spec)"
  by (simp add: acceptable_def has_required_value_iff)

lemma dispatch_request_202:
  "status_code (fst (dispatch_request b request spec log)) = 202 \<longleftrightarrow> acceptable spec request"
  by (auto simp: dispatch_request_status acceptable_iff)

lemma dispatch_request_log:
  "snd (dispatch_request b request spec log) =
     (if acceptable spec request then emit_accept_log b request spec log else log)"
  by (auto simp: dispatch_request_def acceptable_iff Let_def)

text \<open>
  C7. The dispatcher answers 202 exactly for the acceptable requests, and only those are logged:
  with a logging build, one event is appended for an accepted request and none for a rejected one.
\<close>

theorem dispatch_accepts_iff:
  "(status_code (fst (dispatch_request b request spec log)) = 202 \<longleftrightarrow> acceptable spec request)
   \<and> length (snd (dispatch_request b request spec log)) =
       length log + (if acceptable spec request \<and> (feature_aws b \<or> feature_http b) then 1 else 0)
   \<and> take (length log) (snd (dispatch_request b request spec log)) = log"
  by (auto simp: dispatch_request_202 dispatch_request_log emit_accept_log_def)

text \<open>
  Rejections are decided in a fixed order: an oversized event is 413 whatever else is wrong
  with it, then an unknown path is 404, a wrong method is 405 and names the allowed method, and a
  missing or blank required field is 422 and names the field.
\<close>

theorem dispatch_rejects_in_order:
  fixes b :: build and log :: "log_event list"
  assumes "\<not> acceptable spec request"
  defines "r \<equiv> fst (dispatch_request b request spec log)"
  shows "(status_code r = 413 \<longleftrightarrow> event_bytes request > max_event_bytes spec)
    \<and> (status_code r = 404 \<longleftrightarrow>
         event_bytes request \<le> max_event_bytes spec \<and> req_path request \<noteq> spec_path spec)
    \<and> (status_code r \<in> {413, 404, 405, 422})
    \<and> (status_code r = 405 \<longleftrightarrow> bt_get (headers r) (lit ''allow'') = Some (spec_method spec))
    \<and> (status_code r = 422 \<longrightarrow>
         value_get (lit ''field'') (resp_body r) = Some (String (required_field spec)))"
  using assms(1) unfolding r_def acceptable_iff
  by (auto simp: dispatch_request_def Let_def response_headers value_get_obj)

definition sample_spec :: RouteSpec where
  "sample_spec = route_spec_new (lit ''heavy_document_render'') (lit ''POST'')
     (lit ''/api/heavy/document-render'') (lit ''document_id'')"

theorem dispatch_rejects_in_order_witness:
  "status_code (fst (dispatch_request \<lparr>feature_aws = False, feature_http = True\<rparr>
     \<lparr>req_method = lit ''GET'', req_path = lit ''/wrong'', req_body = Null, request_id = lit ''r'',
      event_bytes = 10\<rparr> sample_spec [])) = 404"
proof -
  let ?q = "\<lparr>req_method = lit ''GET'', req_path = lit ''/wrong'', req_body = Null,
    request_id = lit ''r'', event_bytes = 10\<rparr>"
  have "\<not> acceptable sample_spec ?q"
    by (simp add: acceptable_def sample_spec_def route_spec_new_def)
  from dispatch_rejects_in_order [OF this]
  show ?thesis
    by (simp add: sample_spec_def route_spec_new_def DEFAULT_MAX_EVENT_BYTES_def)
qed

subsection \<open>The accept log cannot be forged\<close>

definition json_structural :: "rchar \<Rightarrow> bool" where
  "json_structural c \<longleftrightarrow> c = 34 \<or> c = 92 \<or> is_control c"

lemma safe_id_no_structure: "safe_id t \<Longrightarrow> filter json_structural t = []"
  using token_facts by (auto simp: safe_id_def json_structural_def filter_empty_conv)

lemma show_dec_no_structure: "filter json_structural (show_dec n) = []"
  by (force simp: json_structural_def filter_empty_conv char_class_defs dest!: show_dec_digits)

text \<open>
  The printed accept line interpolates the correlation identifier without escaping. With a
  sanitized identifier this is safe: the quotes, backslashes and control characters of the line
  are those of the fixed template, whatever the request, so a request can neither end the JSON
  string early nor start a second log line.
\<close>

theorem accept_log_line_unforgeable:
  assumes "safe_id (request_id request)"
  shows "filter json_structural (accept_log_line request spec) =
    filter json_structural (accept_log_line (request\<lparr>request_id := [], event_bytes := 0\<rparr>) spec)"
  using assms by (simp add: accept_log_line_def safe_id_no_structure show_dec_no_structure)

theorem accept_log_line_unforgeable_witness:
  "filter json_structural (accept_log_line
     \<lparr>req_method = [], req_path = [], req_body = Null, request_id = lit ''req-1'', event_bytes = 7\<rparr>
     sample_spec) =
   filter json_structural (accept_log_line
     \<lparr>req_method = [], req_path = [], req_body = Null, request_id = [], event_bytes = 0\<rparr> sample_spec)"
proof -
  have "safe_id (lit ''req-1'')"
    by (simp add: safe_id_def request_id_char_def char_class_defs lit_Cons)
  from accept_log_line_unforgeable [of "\<lparr>req_method = [], req_path = [], req_body = Null,
      request_id = lit ''req-1'', event_bytes = 7\<rparr>"] this
  show ?thesis by simp
qed

lemma dispatch_request_log_append:
  "dispatch_request b q spec log =
     (fst (dispatch_request b q spec []), log @ snd (dispatch_request b q spec []))"
  by (auto simp: dispatch_request_def emit_accept_log_def Let_def)

subsection \<open>The interface of the runtime adapters\<close>

text \<open>A runtime answers what it is given one after the other; the log goes through.\<close>

fun serve_all :: "('e \<Rightarrow> 'l \<Rightarrow> 'o \<times> 'l) \<Rightarrow> 'e list \<Rightarrow> 'l \<Rightarrow> 'o list \<times> 'l" where
  "serve_all answer [] log = ([], log)"
| "serve_all answer (e # es) log =
     (let (out, log) = answer e log; (outs, log) = serve_all answer es log in (out # outs, log))"

lemma serve_all_alone:
  assumes "\<And>e log. answer e log = (fst (answer e []), log @ snd (answer e []))"
  shows "serve_all answer es log =
    (map (\<lambda>e. fst (answer e [])) es, log @ concat (map (\<lambda>e. snd (answer e [])) es))"
proof (induction es arbitrary: log)
  case Nil
  then show ?case by simp
next
  case (Cons e es)
  then show ?case using assms [of e log] by (simp add: split_beta)
qed

text \<open>
  An adapter turns the envelope of its runtime into a normalized request, or rejects the envelope
  itself; it hands the normalized request to the dispatcher and wraps the response for its
  runtime. Everything else about the answer is the dispatcher's.
\<close>

locale adapter =
  fixes b :: build and spec :: RouteSpec
    and normalise :: "'e \<Rightarrow> FunctionRequest option"
    and reject :: "'e \<Rightarrow> FunctionResponse"
    and wrap :: "FunctionResponse \<Rightarrow> 'o"
    and answer :: "'e \<Rightarrow> log_event list \<Rightarrow> 'o \<times> log_event list"
  assumes dispatches: "normalise e = Some r \<Longrightarrow>
      answer e log = map_prod wrap id (dispatch_request b r spec log)"
    and rejects: "normalise e = None \<Longrightarrow> answer e log = (wrap (reject e), log)"
    and reject_not_202: "normalise e = None \<Longrightarrow> status_code (reject e) \<noteq> 202"
begin

definition admits :: "'e \<Rightarrow> bool" where
  "admits e \<longleftrightarrow> (\<exists>r. normalise e = Some r \<and> acceptable spec r)"

lemma answer_status:
  "\<exists>resp. fst (answer e log) = wrap resp \<and> (status_code resp = 202 \<longleftrightarrow> admits e)"
proof (cases "normalise e")
  case None
  then show ?thesis by (auto simp: rejects reject_not_202 admits_def)
next
  case (Some r)
  then show ?thesis
    using dispatch_request_202 [of b r spec log] by (auto simp: dispatches admits_def)
qed

lemma answer_log:
  "snd (answer e log) =
     (case normalise e of
        Some r \<Rightarrow> if acceptable spec r then emit_accept_log b r spec log else log
      | None \<Rightarrow> log)"
  by (cases "normalise e") (simp_all add: rejects dispatches dispatch_request_log)

lemma answer_log_length:
  "length (snd (answer e log)) =
     length log + (if admits e \<and> (feature_aws b \<or> feature_http b) then 1 else 0)"
  by (cases "normalise e") (auto simp: answer_log emit_accept_log_def admits_def)

lemma answer_log_append: "answer e log = (fst (answer e []), log @ snd (answer e []))"
proof (cases "normalise e")
  case None
  then show ?thesis by (simp add: rejects)
next
  case (Some r)
  then show ?thesis using dispatch_request_log_append [of b r spec log] by (simp add: dispatches)
qed

end

text \<open>Two adapters of one route answer with the same response wherever they normalize alike.\<close>

locale adapter_pair = l: adapter b spec n1 r1 w1 a1 + r: adapter b spec n2 r2 w2 a2
  for b spec n1 r1 w1 a1 n2 r2 w2 a2
begin

lemma agree:
  assumes "n1 e = Some q" "n2 f = Some q"
  shows "\<exists>resp log'. a1 e log = (w1 resp, log') \<and> a2 f log = (w2 resp, log')"
  using assms by (simp add: l.dispatches r.dispatches map_prod_def split: prod.splits) auto

end

end
