(* ===== verification/Aws_Adapter.thy ===== *)
theory Aws_Adapter
  imports Dispatch
begin

text \<open>
  The AWS Lambda adapter (\<^verbatim>\<open>dispatch\<close>, \<^verbatim>\<open>aws_response\<close>, \<^verbatim>\<open>decode_json_value\<close> of
  \<^verbatim>\<open>src/lambdas/src/lib.rs\<close>): API Gateway v1 and v2 envelopes are normalized, dispatched and
  answered as an envelope value. The JSON codec is the parameter \<open>S\<close>; the process id and the
  clock, read only when an identifier has to be made up, are parameters too.
\<close>

definition decode_json_value :: "serde \<Rightarrow> json option \<Rightarrow> json" where
  "decode_json_value S body =
     (case body of
        Some (String text) \<Rightarrow> unwrap_or (from_str S text) (String text)
      | Some v \<Rightarrow> v
      | None \<Rightarrow> empty_obj)"

subsection \<open>The AWS envelope\<close>

definition aws_response :: "serde \<Rightarrow> FunctionResponse \<Rightarrow> json" where
  \<open>aws_response S response =
     json_obj [(lit ''statusCode'', json_uint (status_code response)),
               (lit ''headers'', Object (map (\<lambda>(k, v). (k, String v)) (headers response))),
               (lit ''isBase64Encoded'', Bool False),
               (lit ''body'', String (unwrap_or (to_string S (resp_body response))
                  (lit ''{"error":"serialization_failed"}'')))]\<close>

definition aws_request :: "serde \<Rightarrow> json \<Rightarrow> rstr \<Rightarrow> FunctionRequest" where
  "aws_request S payload rid =
     \<lparr>req_method = unwrap_or (Option.bind
          (or_else (value_pointer [lit ''requestContext'', lit ''http'', lit ''method''] payload)
                   (value_get (lit ''httpMethod'') payload)) as_str) [],
      req_path = unwrap_or (Option.bind
          (or_else (value_get (lit ''rawPath'') payload) (value_get (lit ''path'') payload)) as_str) [],
      req_body = decode_json_value S (value_get (lit ''body'') payload),
      request_id = rid,
      event_bytes = (case to_vec S payload of Some bs \<Rightarrow> length bs | None \<Rightarrow> usize_max)\<rparr>"

definition aws_base64 :: "json \<Rightarrow> bool" where
  "aws_base64 payload =
     unwrap_or (Option.bind (value_get (lit ''isBase64Encoded'') payload) as_bool) False"

definition dispatch ::
  "serde \<Rightarrow> build \<Rightarrow> nat \<Rightarrow> nat option \<Rightarrow> json \<Rightarrow> rstr \<Rightarrow> RouteSpec \<Rightarrow> log_event list \<Rightarrow>
   json \<times> log_event list" where
  "dispatch S b pid clock payload given_id spec log =
     (let rid = unwrap_or (sanitize_request_id given_id) (generated_request_id pid clock) in
      if aws_base64 payload then
        (aws_response S (with_request_id
           (function_response 415 (error_body ''base64_body_not_supported'') None) rid), log)
      else
        (let (response, log') = dispatch_request b (aws_request S payload rid) spec log
         in (aws_response S response, log')))"

subsection \<open>The adapter as an instance of the interface\<close>

text \<open>An invocation: process id, clock, payload and the runtime's request identifier.\<close>

type_synonym invocation = "nat \<times> nat option \<times> json \<times> rstr"

fun aws_id :: "invocation \<Rightarrow> rstr" where
  "aws_id (pid, clock, payload, given_id) =
     unwrap_or (sanitize_request_id given_id) (generated_request_id pid clock)"

fun aws_normalise :: "serde \<Rightarrow> invocation \<Rightarrow> FunctionRequest option" where
  "aws_normalise S (pid, clock, payload, given_id) =
     (if aws_base64 payload then None
      else Some (aws_request S payload (aws_id (pid, clock, payload, given_id))))"

definition aws_reject :: "invocation \<Rightarrow> FunctionResponse" where
  "aws_reject e =
     with_request_id (function_response 415 (error_body ''base64_body_not_supported'') None) (aws_id e)"

fun aws_answer :: "serde \<Rightarrow> build \<Rightarrow> RouteSpec \<Rightarrow> invocation \<Rightarrow> log_event list \<Rightarrow>
    json \<times> log_event list" where
  "aws_answer S b spec (pid, clock, payload, given_id) log =
     dispatch S b pid clock payload given_id spec log"

lemma aws_answer_eq:
  "aws_answer S b spec e log =
     (case aws_normalise S e of
        Some r \<Rightarrow> map_prod (aws_response S) id (dispatch_request b r spec log)
      | None \<Rightarrow> (aws_response S (aws_reject e), log))"
  by (cases e) (auto simp: dispatch_def aws_reject_def Let_def split: prod.splits)

interpretation aws: adapter b spec "aws_normalise S" aws_reject "aws_response S" "aws_answer S b spec"
  for S :: serde and b :: build and spec :: RouteSpec
proof unfold_locales
  show "\<And>e. aws_normalise S e = None \<Longrightarrow> status_code (aws_reject e) \<noteq> 202"
    by (simp add: aws_reject_def)
qed (simp_all add: aws_answer_eq)

subsection \<open>What the envelope says\<close>

lemma aws_response_status [simp]:
  "value_get (lit ''statusCode'') (aws_response S r) = Some (json_uint (status_code r))"
  by (simp add: aws_response_def value_get_obj)

lemma bt_get_map: "bt_get (map (\<lambda>(k, v). (k, f v)) m) k = map_option f (bt_get m k)"
  by (induction m) (auto simp: bt_get_def)

lemma aws_response_header:
  "Option.bind (value_get (lit ''headers'') (aws_response S r)) (value_get k)
     = map_option String (bt_get (headers r) k)"
  by (simp add: aws_response_def value_get_obj bt_get_map)

lemma json_uint_inject:
  "n < 2 ^ 64 \<Longrightarrow> m < 2 ^ 64 \<Longrightarrow> json_uint n = json_uint m \<longleftrightarrow> n = m"
  by (auto simp: json_uint_def of_nat_inverse dest!: arg_cong [of _ _ unat])

lemma dispatch_status_small:
  "status_code (fst (dispatch_request b request spec log)) < 2 ^ 64"
  by (simp add: dispatch_request_status)

text \<open>
  The envelope the AWS adapter returns carries status code 202 exactly when the payload is not
  base64-encoded and the request read from it is acceptable to the route; a base64 payload is
  refused with 415 whatever else it says.
\<close>

theorem aws_dispatch_status:
  "value_get (lit ''statusCode'') (fst (dispatch S b pid clock payload given_id spec log))
     = Some (json_uint 202)
   \<longleftrightarrow> \<not> aws_base64 payload
     \<and> acceptable spec (aws_request S payload (aws_id (pid, clock, payload, given_id)))"
proof (cases "aws_base64 payload")
  case True
  then show ?thesis
    by (simp add: dispatch_def Let_def json_uint_inject)
next
  case False
  let ?q = "aws_request S payload (aws_id (pid, clock, payload, given_id))"
  have "json_uint (status_code (fst (dispatch_request b ?q spec log))) = json_uint 202
      \<longleftrightarrow> acceptable spec ?q"
    using dispatch_status_small [of b ?q spec log]
    by (simp add: json_uint_inject dispatch_request_202)
  with False show ?thesis
    by (simp add: dispatch_def Let_def split_beta)
qed

text \<open>
  Whatever identifier the runtime supplies, every AWS response, 415 included, carries an
  \<open>x-request-id\<close> header that is a safe identifier.
\<close>

theorem aws_response_correlated:
  assumes "pid < 2 ^ 32" "unwrap_or clock 0 < 2 ^ 128"
  shows "\<exists>rid. safe_id rid
    \<and> Option.bind (value_get (lit ''headers'')
          (fst (dispatch S b pid clock payload given_id spec log))) (value_get (lit ''x-request-id''))
        = Some (String rid)"
proof -
  let ?rid = "aws_id (pid, clock, payload, given_id)"
  have "safe_id ?rid" using assms by (simp add: sanitized_or_generated_safe)
  moreover have "Option.bind (value_get (lit ''headers'')
      (fst (dispatch S b pid clock payload given_id spec log))) (value_get (lit ''x-request-id''))
      = Some (String ?rid)"
    using disp.correlated [of b "aws_request S payload ?rid" spec log]
    by (auto simp: dispatch_def Let_def split_beta aws_response_header response_headers
        aws_request_def)
  ultimately show ?thesis by blast
qed

theorem aws_response_correlated_witness:
  "\<exists>rid. safe_id rid
    \<and> Option.bind (value_get (lit ''headers'') (fst (dispatch null_serde
          \<lparr>feature_aws = True, feature_http = False\<rparr> 4242 (Some 1700000000000000000) Null []
          sample_spec []))) (value_get (lit ''x-request-id'')) = Some (String rid)"
  by (rule aws_response_correlated) simp_all

subsection \<open>API Gateway v1 and v2 envelopes\<close>

definition aws_v2_event :: "rstr \<Rightarrow> rstr \<Rightarrow> json \<Rightarrow> json" where
  "aws_v2_event method path body =
     json_obj [(lit ''rawPath'', String path),
               (lit ''requestContext'',
                json_obj [(lit ''http'', json_obj [(lit ''method'', String method)])]),
               (lit ''body'', body), (lit ''isBase64Encoded'', Bool False)]"

definition aws_v1_event :: "rstr \<Rightarrow> rstr \<Rightarrow> json \<Rightarrow> json" where
  "aws_v1_event method path body =
     json_obj [(lit ''path'', String path), (lit ''httpMethod'', String method), (lit ''body'', body)]"

text \<open>
  Round trip through the envelopes: encoding a method, a path and a body text as an API Gateway
  v1 or v2 event and reading the event back gives that method, that path and the parsed body (the
  text itself where it is not JSON), so both envelope versions normalize alike.
\<close>

theorem aws_event_roundtrip:
  "ev \<in> {aws_v1_event m p (String text), aws_v2_event m p (String text)} \<Longrightarrow>
   \<not> aws_base64 ev
   \<and> req_method (aws_request S ev rid) = m \<and> req_path (aws_request S ev rid) = p
   \<and> req_body (aws_request S ev rid) = unwrap_or (from_str S text) (String text)
   \<and> request_id (aws_request S ev rid) = rid"
  by (auto simp: aws_v1_event_def aws_v2_event_def aws_base64_def aws_request_def value_get_obj
      decode_json_value_def)

theorem aws_event_roundtrip_witness:
  "req_path (aws_request null_serde (aws_v2_event (lit ''POST'') (lit ''/x'') (String (lit ''b'')))
     (lit ''r'')) = lit ''/x''"
  using aws_event_roundtrip [of "aws_v2_event (lit ''POST'') (lit ''/x'') (String (lit ''b''))"
      "lit ''POST''" "lit ''/x''" "lit ''b''" null_serde "lit ''r''"]
  by simp

end
