(* ===== verification/Http_Adapter.thy ===== *)
theory Http_Adapter
  imports Dispatch
begin

text \<open>
  The portable HTTP adapter of \<^verbatim>\<open>src/lambdas/src/lib.rs\<close>: port resolution, CloudEvents
  decoding, the request handler and the response it builds. Parameters: the JSON codec \<open>S\<close>, the
  header and status checks \<open>C\<close> of the \<^verbatim>\<open>http\<close> crate, the header lookup of a request
  (\<open>headers.get(name)\<close> followed by \<open>to_str().ok()\<close>) and its size-limited body reader.
\<close>

subsection \<open>Configuration\<close>

datatype env_var = NotPresent | NotUnicode | Present rstr

definition read_optional_env :: "rstr \<Rightarrow> env_var \<Rightarrow> rstr + rstr option" where
  "read_optional_env key var =
     (case var of
        Present value \<Rightarrow> Inr (Some value)
      | NotPresent \<Rightarrow> Inr None
      | NotUnicode \<Rightarrow> Inl (key @ lit '' is not valid Unicode''))"

definition port_error :: "rstr \<Rightarrow> rstr" where
  "port_error key = key @ lit '' must be an integer TCP port from 1 through 65535''"

fun resolve_candidates :: "(rstr \<times> rstr option) list \<Rightarrow> rstr + nat" where
  "resolve_candidates [] = Inr DEFAULT_HTTP_PORT"
| "resolve_candidates ((key, candidate) # rest) =
     (case opt_filter (\<lambda>v. v \<noteq> []) (map_option trim candidate) of
        None \<Rightarrow> resolve_candidates rest
      | Some value \<Rightarrow>
          (case parse_u16 value of
             None \<Rightarrow> Inl (port_error key)
           | Some port \<Rightarrow> if port = 0 then Inl (port_error key) else Inr port))"

definition resolve_port :: "rstr option \<Rightarrow> rstr option \<Rightarrow> rstr + nat" where
  "resolve_port azure generic =
     resolve_candidates [(lit ''FUNCTIONS_CUSTOMHANDLER_PORT'', azure), (lit ''PORT'', generic)]"

definition configured_port :: "env_var \<Rightarrow> env_var \<Rightarrow> rstr + nat" where
  "configured_port azure_var port_var =
     and_then (read_optional_env (lit ''FUNCTIONS_CUSTOMHANDLER_PORT'') azure_var) (\<lambda>azure.
     and_then (read_optional_env (lit ''PORT'') port_var) (\<lambda>generic.
     resolve_port azure generic))"

subsection \<open>Headers and CloudEvents\<close>

type_synonym header_view = "rstr \<Rightarrow> rstr option"

definition first_header :: "header_view \<Rightarrow> rstr list \<Rightarrow> rstr option" where
  "first_header hs names =
     find_map (\<lambda>name. opt_filter (\<lambda>v. v \<noteq> []) (map_option trim (hs name))) names"

definition request_id_from_headers :: "header_view \<Rightarrow> rstr option" where
  "request_id_from_headers hs =
     Option.bind
       (first_header hs
          [lit ''x-request-id'', lit ''x-correlation-id'', lit ''x-ms-request-id'',
           lit ''x-cloud-trace-context'', lit ''traceparent'', lit ''x-openfaas-request-id''])
       sanitize_request_id"

text \<open>The loop over \<open>["id", "source", "type"]\<close> of a structured event.\<close>

fun check_event_fields :: "json \<Rightarrow> rstr list \<Rightarrow> rstr + unit" where
  "check_event_fields envelope [] = Inr ()"
| "check_event_fields envelope (field # rest) =
     (if opt_filter (\<lambda>v. v \<noteq> [])
           (map_option trim (Option.bind (value_get field envelope) as_str)) = None
      then Inl (lit ''missing_cloud_event_'' @ field)
      else check_event_fields envelope rest)"

text \<open>The loop over \<open>["ce-id", "ce-source", "ce-type"]\<close> of a binary event.\<close>

fun check_event_headers :: "header_view \<Rightarrow> rstr list \<Rightarrow> rstr + unit" where
  "check_event_headers hs [] = Inr ()"
| "check_event_headers hs (name # rest) =
     (if first_header hs [name] = None
      then Inl (lit ''missing_cloud_event_'' @ trim_start_matches (lit ''ce-'') name)
      else check_event_headers hs rest)"

definition decode_http_payload ::
  "serde \<Rightarrow> header_view \<Rightarrow> bytes \<Rightarrow> rstr + json \<times> rstr option" where
  "decode_http_payload S hs body =
     (let content_type = to_ascii_lowercase (unwrap_or (hs (lit ''content-type'')) []) in
      if starts_with content_type (lit ''application/cloudevents+json'') then
        and_then (ok_or (lit ''invalid_cloud_event_json'') (from_slice S body)) (\<lambda>envelope.
          if Option.bind (value_get (lit ''specversion'') envelope) as_str \<noteq> Some (lit ''1.0'')
          then Inl (lit ''unsupported_cloud_event_version'')
          else
            and_then (check_event_fields envelope [lit ''id'', lit ''source'', lit ''type'']) (\<lambda>_.
              Inr (unwrap_or (value_get (lit ''data'') envelope) empty_obj,
                   Option.bind (value_get (lit ''id'') envelope) as_str)))
      else
        and_then
          (case first_header hs [lit ''ce-specversion''] of
             None \<Rightarrow> Inr ()
           | Some version \<Rightarrow>
               if version \<noteq> lit ''1.0'' then Inl (lit ''unsupported_cloud_event_version'')
               else check_event_headers hs [lit ''ce-id'', lit ''ce-source'', lit ''ce-type''])
          (\<lambda>_.
            let id = first_header hs [lit ''ce-id''] in
            if body = [] then Inr (empty_obj, id)
            else (case from_slice S body of
                    Some value \<Rightarrow> Inr (value, id)
                  | None \<Rightarrow> Inl (lit ''invalid_json''))))"

subsection \<open>The handler\<close>

record http_request =
  http_method :: rstr
  uri_path :: rstr
  http_headers :: header_view
  read_body :: "nat \<Rightarrow> bytes option"

definition http_handler ::
  "serde \<Rightarrow> build \<Rightarrow> nat \<Rightarrow> nat option \<Rightarrow> RouteSpec \<Rightarrow> http_request \<Rightarrow> log_event list \<Rightarrow>
   FunctionResponse \<times> log_event list" where
  "http_handler S b pid clock spec request log =
     (case read_body request (saturating_add (max_event_bytes spec) 1) of
        None \<Rightarrow> (function_response 413 (too_large_body spec) None, log)
      | Some body \<Rightarrow>
          if length body > max_event_bytes spec then
            (function_response 413 (too_large_body spec) None, log)
          else
            (case decode_http_payload S (http_headers request) body of
               Inl error \<Rightarrow>
                 (function_response 400 (json_obj [(lit ''error'', String error)]) None, log)
             | Inr (payload, cloud_event_id) \<Rightarrow>
                 (let rid = unwrap_or
                        (or_else (Option.bind cloud_event_id sanitize_request_id)
                                 (request_id_from_headers (http_headers request)))
                        (generated_request_id pid clock);
                      path = (if uri_path request = lit ''/'' then spec_path spec
                              else uri_path request);
                      normalized = \<lparr>req_method = http_method request, req_path = path,
                        req_body = payload, request_id = rid, event_bytes = length body\<rparr>
                  in dispatch_request b normalized spec log)))"

definition health :: FunctionResponse where
  "health = function_response 200 (json_obj [(lit ''ok'', Bool True)]) None"

datatype http_target = HealthRoute | FallbackRoute

definition http_route :: "rstr \<Rightarrow> http_target" where
  "http_route path =
     (if path = lit ''/healthz'' \<or> path = lit ''/readyz'' then HealthRoute else FallbackRoute)"

subsection \<open>The response\<close>

record http_crate =
  status_ok :: "nat \<Rightarrow> bool"
  name_ok :: "rstr \<Rightarrow> bool"
  value_ok :: "rstr \<Rightarrow> bool"
  build_ok :: "nat \<Rightarrow> (rstr \<times> rstr) list \<Rightarrow> bool"

record http_out =
  out_status :: nat
  out_headers :: "(rstr \<times> rstr) list"
  out_body :: bytes

definition http_response :: "http_crate \<Rightarrow> serde \<Rightarrow> FunctionResponse \<Rightarrow> http_out" where
  \<open>http_response C S response =
     (let status = (if status_ok C (status_code response) then status_code response else 500);
          hs = filter (\<lambda>(name, value). name_ok C name \<and> value_ok C value) (headers response);
          body = unwrap_or (to_vec S (resp_body response)) ''{"error":"serialization_failed"}''
      in if build_ok C status hs
         then \<lparr>out_status = status, out_headers = hs, out_body = body\<rparr>
         else \<lparr>out_status = 200, out_headers = [], out_body = ''{"error":"response_build_failed"}''\<rparr>)\<close>

subsection \<open>The adapter as an instance of the interface\<close>

type_synonym http_call = "nat \<times> nat option \<times> http_request"

text \<open>The body the handler goes on with, if it does.\<close>

definition admitted_body :: "RouteSpec \<Rightarrow> http_request \<Rightarrow> bytes option" where
  "admitted_body spec request =
     opt_filter (\<lambda>body. length body \<le> max_event_bytes spec)
       (read_body request (saturating_add (max_event_bytes spec) 1))"

definition http_correlation :: "nat \<Rightarrow> nat option \<Rightarrow> header_view \<Rightarrow> rstr option \<Rightarrow> rstr" where
  "http_correlation pid clock hs cloud_event_id =
     unwrap_or (or_else (Option.bind cloud_event_id sanitize_request_id) (request_id_from_headers hs))
       (generated_request_id pid clock)"

fun http_normalise :: "serde \<Rightarrow> RouteSpec \<Rightarrow> http_call \<Rightarrow> FunctionRequest option" where
  "http_normalise S spec (pid, clock, request) =
     Option.bind (admitted_body spec request) (\<lambda>body.
       case decode_http_payload S (http_headers request) body of
         Inl _ \<Rightarrow> None
       | Inr (payload, ce_id) \<Rightarrow>
           Some \<lparr>req_method = http_method request,
             req_path = (if uri_path request = lit ''/'' then spec_path spec else uri_path request),
             req_body = payload,
             request_id = http_correlation pid clock (http_headers request) ce_id,
             event_bytes = length body\<rparr>)"

fun http_reject :: "serde \<Rightarrow> RouteSpec \<Rightarrow> http_call \<Rightarrow> FunctionResponse" where
  "http_reject S spec (pid, clock, request) =
     (case Option.bind (admitted_body spec request)
             (\<lambda>body. case decode_http_payload S (http_headers request) body of
                        Inl e \<Rightarrow> Some e | Inr _ \<Rightarrow> None) of
        None \<Rightarrow> function_response 413 (too_large_body spec) None
      | Some e \<Rightarrow> function_response 400 (json_obj [(lit ''error'', String e)]) None)"

fun http_answer :: "http_crate \<Rightarrow> serde \<Rightarrow> build \<Rightarrow> RouteSpec \<Rightarrow> http_call \<Rightarrow> log_event list \<Rightarrow>
    http_out \<times> log_event list" where
  "http_answer C S b spec (pid, clock, request) log =
     map_prod (http_response C S) id (http_handler S b pid clock spec request log)"

lemma http_handler_eq:
  "http_handler S b pid clock spec request log =
     (case http_normalise S spec (pid, clock, request) of
        Some r \<Rightarrow> dispatch_request b r spec log
      | None \<Rightarrow> (http_reject S spec (pid, clock, request), log))"
  by (auto simp: http_handler_def admitted_body_def http_correlation_def Let_def
      split: option.splits sum.splits)

interpretation http: adapter b spec "http_normalise S spec" "http_reject S spec"
    "http_response C S" "http_answer C S b spec"
  for C :: http_crate and S :: serde and b :: build and spec :: RouteSpec
proof unfold_locales
  show "\<And>e. http_normalise S spec e = None \<Longrightarrow> status_code (http_reject S spec e) \<noteq> 202"
    by (auto split: option.splits)
qed (auto simp: http_handler_eq)

lemma http_normalise_None:
  "admitted_body spec request = None \<Longrightarrow> http_normalise S spec (pid, clock, request) = None"
  by simp

subsection \<open>Port resolution\<close>

lemma resolve_port_simps:
  "trim a = [] \<Longrightarrow> resolve_port (Some a) g = resolve_port None g"
  "resolve_port None None = Inr DEFAULT_HTTP_PORT"
  by (simp_all add: resolve_port_def)

text \<open>
  A resolved port is a usable TCP port: \<open>resolve_port\<close> never returns 0 nor anything above
  65535, and it fails only with the error that names the variable it took the value from.
\<close>

theorem resolve_port_bounds:
  "(\<forall>p. resolve_port azure generic = Inr p \<longrightarrow> 1 \<le> p \<and> p \<le> 65535)
   \<and> (\<forall>e. resolve_port azure generic = Inl e \<longrightarrow>
        e \<in> {port_error (lit ''FUNCTIONS_CUSTOMHANDLER_PORT''), port_error (lit ''PORT'')})"
  by (auto simp: resolve_port_def DEFAULT_HTTP_PORT_def dest: parse_bounds
      split: option.splits if_splits)

theorem resolve_port_bounds_witness:
  "resolve_port (Some (lit ''65535'')) None = Inr 65535 \<and> (65535::nat) \<le> 65535
   \<and> 1 \<le> (65535::nat)"
proof -
  have "lit ''65535'' = show_dec 65535" by (simp add: lit_def show_dec.simps)
  then have "resolve_port (Some (lit ''65535'')) None = Inr 65535"
    by (simp add: resolve_port_def trimmed_trim parse_u16_show)
  with resolve_port_bounds [of "Some (lit ''65535'')" None] show ?thesis by blast
qed

text \<open>
  The Azure variable wins over \<open>PORT\<close>, a blank or missing Azure variable falls back to
  \<open>PORT\<close>, and every port from 1 to 65535, printed in decimal with white space around it, is read
  back as itself.
\<close>

theorem resolve_port_roundtrip:
  assumes "1 \<le> p" "p \<le> 65535"
    and "\<forall>c \<in> set u. is_whitespace c" "\<forall>c \<in> set v. is_whitespace c"
  shows "resolve_port (Some (u @ show_dec p @ v)) generic = Inr p
    \<and> (is_none_or (\<lambda>a. trim a = []) blank \<longrightarrow> resolve_port blank (Some (u @ show_dec p @ v)) = Inr p)"
  using assms
  by (cases blank) (auto simp: resolve_port_def trim_padded parse_u16_show)

theorem resolve_port_roundtrip_witness:
  "resolve_port (Some (lit ''  '')) (Some (lit '' '' @ show_dec 8081 @ [10])) = Inr 8081"
  using resolve_port_roundtrip [of 8081 "lit '' ''" "[10]" None "Some (lit ''  '')"]
  by (simp add: lit_Cons is_whitespace_def trim_eq_Nil)

subsection \<open>CloudEvents\<close>

definition blank_text :: "rstr \<Rightarrow> bool" where
  "blank_text s \<longleftrightarrow> (\<forall>c \<in> set s. is_whitespace c)"

definition event_attribute :: "json \<Rightarrow> rstr \<Rightarrow> bool" where
  "event_attribute envelope k \<longleftrightarrow>
     (\<exists>t. value_get k envelope = Some (String t) \<and> \<not> blank_text t)"

definition structured_event :: "json \<Rightarrow> bool" where
  "structured_event envelope \<longleftrightarrow>
     value_get (lit ''specversion'') envelope = Some (String (lit ''1.0''))
     \<and> event_attribute envelope (lit ''id'') \<and> event_attribute envelope (lit ''source'')
     \<and> event_attribute envelope (lit ''type'')"

lemma bind_as_str: "Option.bind o' as_str = Some t \<longleftrightarrow> o' = Some (String t)"
  by (cases o') auto

lemma missing_attribute_iff:
  "opt_filter (\<lambda>v. v \<noteq> []) (map_option trim (Option.bind (value_get k v) as_str)) = None
   \<longleftrightarrow> \<not> event_attribute v k"
  by (cases "Option.bind (value_get k v) as_str")
     (auto simp: event_attribute_def blank_text_def trim_eq_Nil bind_as_str
       simp flip: bind_as_str)

lemma check_event_fields_ok:
  "check_event_fields v ks = Inr u \<longleftrightarrow> (\<forall>k \<in> set ks. event_attribute v k)"
  by (induction ks) (simp_all add: missing_attribute_iff)

lemma check_event_headers_ok:
  "check_event_headers hs ks = Inr u \<longleftrightarrow> (\<forall>k \<in> set ks. first_header hs [k] \<noteq> None)"
  by (induction ks) auto

lemma first_header_one: "first_header hs [k] = opt_filter (\<lambda>v. v \<noteq> []) (map_option trim (hs k))"
  unfolding first_header_def by (rule find_map_single)

lemma first_header_props:
  assumes "first_header hs ks = Some v"
  shows "v \<noteq> [] \<and> trimmed v \<and> (\<exists>k \<in> set ks. \<exists>w. hs k = Some w \<and> v = trim w)"
proof -
  obtain k where k: "k \<in> set ks" "opt_filter (\<lambda>v. v \<noteq> []) (map_option trim (hs k)) = Some v"
    using assms find_map_SomeD unfolding first_header_def by fastforce
  then obtain w where "hs k = Some w" "v = trim w" "v \<noteq> []" by auto
  with k(1) show ?thesis using trim_trimmed by blast
qed

definition structured_mode :: "header_view \<Rightarrow> bool" where
  "structured_mode hs \<longleftrightarrow>
     starts_with (to_ascii_lowercase (unwrap_or (hs (lit ''content-type'')) []))
       (lit ''application/cloudevents+json'')"

lemma decode_structured:
  assumes "structured_mode hs"
  shows "decode_http_payload S hs body =
    and_then (ok_or (lit ''invalid_cloud_event_json'') (from_slice S body)) (\<lambda>envelope.
      if Option.bind (value_get (lit ''specversion'') envelope) as_str \<noteq> Some (lit ''1.0'')
      then Inl (lit ''unsupported_cloud_event_version'')
      else
        and_then (check_event_fields envelope [lit ''id'', lit ''source'', lit ''type'']) (\<lambda>_.
          Inr (unwrap_or (value_get (lit ''data'') envelope) empty_obj,
               Option.bind (value_get (lit ''id'') envelope) as_str)))"
  using assms unfolding decode_http_payload_def structured_mode_def Let_def by (rule if_P)

lemma structured_envelope_ok:
  "(if Option.bind (value_get (lit ''specversion'') envelope) as_str \<noteq> Some (lit ''1.0'')
    then Inl e1 else and_then (check_event_fields envelope [lit ''id'', lit ''source'', lit ''type''])
      (\<lambda>_. Inr x)) = Inr y \<longleftrightarrow> structured_event envelope \<and> x = y"
proof -
  have fields: "check_event_fields envelope [lit ''id'', lit ''source'', lit ''type''] = Inr u \<longleftrightarrow>
      event_attribute envelope (lit ''id'') \<and> event_attribute envelope (lit ''source'')
      \<and> event_attribute envelope (lit ''type'')" for u
    by (simp only: check_event_fields_ok) simp
  show ?thesis
    by (simp add: and_then_eq_Inr fields structured_event_def bind_as_str
        del: check_event_fields.simps bind_eq_Some_conv)
qed

lemma structured_payload_decoded:
  assumes "structured_mode hs"
  shows "decode_http_payload S hs body = Inr (payload, ce_id) \<longleftrightarrow>
    (\<exists>envelope id. from_slice S body = Some envelope \<and> structured_event envelope
       \<and> payload = unwrap_or (value_get (lit ''data'') envelope) empty_obj
       \<and> value_get (lit ''id'') envelope = Some (String id) \<and> ce_id = Some id)"
proof -
  have "structured_event envelope \<Longrightarrow>
      (\<exists>id. value_get (lit ''id'') envelope = Some (String id))" for envelope
    by (auto simp: structured_event_def event_attribute_def)
  then show ?thesis
    unfolding decode_structured [OF assms] and_then_eq_Inr structured_envelope_ok ok_or_eq_Inr
    by fastforce
qed

text \<open>
  In structured mode (content type \<open>application/cloudevents+json\<close>, any letter case, any
  parameters) a body is decoded exactly when it parses as a CloudEvents 1.0 envelope with
  non-blank \<open>id\<close>, \<open>source\<close> and \<open>type\<close>; the payload is its \<open>data\<close>, an empty object when
  there is none, and the event id is passed on.
\<close>

theorem structured_event_decoded_iff:
  assumes "structured_mode hs"
  shows "decode_http_payload S hs body = Inr (payload, ce_id) \<longleftrightarrow>
    (\<exists>envelope id. from_slice S body = Some envelope \<and> structured_event envelope
       \<and> payload = unwrap_or (value_get (lit ''data'') envelope) empty_obj
       \<and> value_get (lit ''id'') envelope = Some (String id) \<and> ce_id = Some id)"
  using assms by (rule structured_payload_decoded)

definition sample_event :: json where
  "sample_event = json_obj
     [(lit ''specversion'', String (lit ''1.0'')), (lit ''id'', String (lit ''ce-1'')),
      (lit ''source'', String (lit ''urn:test'')), (lit ''type'', String (lit ''test'')),
      (lit ''data'', Bool True)]"

lemma sample_event_structured: "structured_event sample_event"
  by (simp add: structured_event_def event_attribute_def sample_event_def value_get_obj
      blank_text_def lit_Cons is_whitespace_def)

definition sample_serde :: serde where
  "sample_serde = null_serde\<lparr>from_slice := (\<lambda>_. Some sample_event)\<rparr>"

theorem structured_event_decoded_iff_witness:
  "decode_http_payload sample_serde
     (\<lambda>k. if k = lit ''content-type'' then Some (lit ''Application/CloudEvents+JSON; charset=utf-8'')
          else None) ''...'' = Inr (Bool True, Some (lit ''ce-1''))"
proof -
  let ?hs = "\<lambda>k. if k = lit ''content-type''
    then Some (lit ''Application/CloudEvents+JSON; charset=utf-8'') else None"
  have "structured_mode ?hs"
    by (simp add: structured_mode_def starts_with_def to_ascii_lowercase_def lit_def char_class_defs)
  from structured_event_decoded_iff [OF this] sample_event_structured show ?thesis
    by (simp add: sample_serde_def) (simp add: sample_event_def value_get_obj)
qed

text \<open>Binary mode and plain JSON: the event attributes travel in headers.\<close>

definition binary_attributes_ok :: "header_view \<Rightarrow> bool" where
  "binary_attributes_ok hs \<longleftrightarrow>
     (case first_header hs [lit ''ce-specversion''] of
        None \<Rightarrow> True
      | Some v \<Rightarrow> v = lit ''1.0'' \<and>
          (\<forall>k \<in> {lit ''ce-id'', lit ''ce-source'', lit ''ce-type''}. first_header hs [k] \<noteq> None))"

lemma binary_check_ok:
  "(case first_header hs [lit ''ce-specversion''] of
      None \<Rightarrow> Inr ()
    | Some version \<Rightarrow>
        if version \<noteq> lit ''1.0'' then Inl e
        else check_event_headers hs [lit ''ce-id'', lit ''ce-source'', lit ''ce-type'']) = Inr u
   \<longleftrightarrow> binary_attributes_ok hs"
proof -
  have "check_event_headers hs [lit ''ce-id'', lit ''ce-source'', lit ''ce-type''] = Inr u \<longleftrightarrow>
      (\<forall>k \<in> {lit ''ce-id'', lit ''ce-source'', lit ''ce-type''}. first_header hs [k] \<noteq> None)" for u
    by (simp only: check_event_headers_ok) simp
  then show ?thesis
    by (simp add: binary_attributes_ok_def del: check_event_headers.simps split: option.splits)
qed

lemma direct_payload_decoded:
  assumes "\<not> structured_mode hs"
  shows "decode_http_payload S hs body = Inr (payload, ce_id) \<longleftrightarrow>
    binary_attributes_ok hs \<and> ce_id = first_header hs [lit ''ce-id'']
    \<and> (if body = [] then payload = empty_obj else from_slice S body = Some payload)"
proof -
  have "decode_http_payload S hs body =
      and_then
        (case first_header hs [lit ''ce-specversion''] of
           None \<Rightarrow> Inr ()
         | Some version \<Rightarrow>
             if version \<noteq> lit ''1.0'' then Inl (lit ''unsupported_cloud_event_version'')
             else check_event_headers hs [lit ''ce-id'', lit ''ce-source'', lit ''ce-type''])
        (\<lambda>_.
          let id = first_header hs [lit ''ce-id''] in
          if body = [] then Inr (empty_obj, id)
          else (case from_slice S body of
                  Some value \<Rightarrow> Inr (value, id)
                | None \<Rightarrow> Inl (lit ''invalid_json'')))"
    using assms unfolding decode_http_payload_def structured_mode_def Let_def by (rule if_not_P)
  then show ?thesis
    by (auto simp: and_then_eq_Inr binary_check_ok Let_def simp del: check_event_headers.simps
        split: option.splits)
qed

text \<open>
  Outside structured mode a body is decoded exactly when the binary CloudEvents headers are
  consistent (no \<open>ce-specversion\<close>, or version 1.0 with \<open>ce-id\<close>, \<open>ce-source\<close> and
  \<open>ce-type\<close> all non-blank) and the body is empty or JSON; an empty body is the empty object, and
  the identifier is the trimmed \<open>ce-id\<close> header.
\<close>

theorem direct_payload_decoded_iff:
  assumes "\<not> structured_mode hs"
  shows "decode_http_payload S hs body = Inr (payload, ce_id) \<longleftrightarrow>
    binary_attributes_ok hs \<and> ce_id = first_header hs [lit ''ce-id'']
    \<and> (if body = [] then payload = empty_obj else from_slice S body = Some payload)"
  using assms by (rule direct_payload_decoded)

theorem direct_payload_decoded_iff_witness:
  "decode_http_payload null_serde (\<lambda>k. if k = lit ''ce-id'' then Some (lit '' e1 '') else None) []
     = Inr (empty_obj, Some (lit ''e1''))"
proof -
  let ?hs = "\<lambda>k. if k = lit ''ce-id'' then Some (lit '' e1 '') else None"
  have t: "trim (lit '' e1 '') = lit ''e1''"
    by (simp add: lit_Cons trim_def trim_start_def trim_end_def is_whitespace_def)
  have "\<not> structured_mode ?hs"
    by (simp add: structured_mode_def starts_with_def lit_Cons to_ascii_lowercase_def)
  from direct_payload_decoded_iff [OF this] t show ?thesis
    by (simp add: binary_attributes_ok_def first_header_one)
qed

subsection \<open>The handler's answers\<close>

text \<open>
  The documented behaviour of the size-limited reader of a body: all of it when it fits the limit,
  an error otherwise.
\<close>

definition reads_body :: "http_request \<Rightarrow> bytes \<Rightarrow> bool" where
  "reads_body request full \<longleftrightarrow>
     (\<forall>limit. read_body request limit = (if length full \<le> limit then Some full else None))"

lemma admitted_body_eq:
  assumes "reads_body request full" "max_event_bytes spec < usize_max"
  shows "admitted_body spec request =
    (if length full \<le> max_event_bytes spec then Some full else None)"
proof -
  have "saturating_add (max_event_bytes spec) 1 = Suc (max_event_bytes spec)"
    using assms(2) by (simp add: saturating_add_def)
  then show ?thesis
    using assms(1) by (simp add: admitted_body_def reads_body_def opt_filter_def)
qed

lemma http_normalise_SomeE:
  assumes "http_normalise S spec (pid, clock, request) = Some r"
  obtains body payload ce_id where "admitted_body spec request = Some body"
    and "decode_http_payload S (http_headers request) body = Inr (payload, ce_id)"
    and "r = \<lparr>req_method = http_method request,
      req_path = (if uri_path request = lit ''/'' then spec_path spec else uri_path request),
      req_body = payload, request_id = http_correlation pid clock (http_headers request) ce_id,
      event_bytes = length body\<rparr>"
proof -
  obtain body where body: "admitted_body spec request = Some body"
    using assms by (cases "admitted_body spec request") auto
  obtain p where "decode_http_payload S (http_headers request) body = Inr p"
    using assms body by (cases "decode_http_payload S (http_headers request) body") auto
  with assms body that show thesis by (cases p) auto
qed

lemma http_normalise_bytes:
  "http_normalise S spec (pid, clock, request) = Some r \<Longrightarrow> event_bytes r \<le> max_event_bytes spec"
  by (erule http_normalise_SomeE) (simp add: admitted_body_def)

lemma http_normalise_path:
  "http_normalise S spec (pid, clock, request) = Some r \<Longrightarrow>
   req_path r = (if uri_path request = lit ''/'' then spec_path spec else uri_path request)"
  by (erule http_normalise_SomeE) simp

lemma http_handler_status:
  "status_code (fst (http_handler S b pid clock spec request log)) =
     (case http_normalise S spec (pid, clock, request) of
        Some r \<Rightarrow> status_code (fst (dispatch_request b r spec log))
      | None \<Rightarrow> if admitted_body spec request = None then 413 else 400)"
  by (cases "admitted_body spec request")
     (auto simp: http_handler_eq split: option.splits sum.splits)

text \<open>
  The body cap is exact: the handler answers 413 if and only if the body is longer than the
  route allows, and an oversized body leaves no log entry.
\<close>

theorem http_body_cap:
  assumes "reads_body request full" "max_event_bytes spec < usize_max"
  shows "(status_code (fst (http_handler S b pid clock spec request log)) = 413 \<longleftrightarrow>
      length full > max_event_bytes spec)
    \<and> (length full > max_event_bytes spec \<longrightarrow>
      snd (http_handler S b pid clock spec request log) = log)"
proof (cases "length full > max_event_bytes spec")
  case True
  then have "admitted_body spec request = None" using admitted_body_eq [OF assms] by simp
  then show ?thesis using True by (simp add: http_handler_eq)
next
  case False
  then have "admitted_body spec request = Some full" using admitted_body_eq [OF assms] by simp
  moreover have "status_code (fst (dispatch_request b r spec log)) \<noteq> 413"
    if "http_normalise S spec (pid, clock, request) = Some r" for r
    using http_normalise_bytes [OF that] by (simp add: dispatch_request_status)
  ultimately show ?thesis
    using False by (auto simp: http_handler_status split: option.split)
qed

theorem http_body_cap_witness:
  "status_code (fst (http_handler null_serde \<lparr>feature_aws = False, feature_http = True\<rparr> 1 None
     (sample_spec\<lparr>max_event_bytes := 2\<rparr>)
     \<lparr>http_method = lit ''POST'', uri_path = lit ''/'', http_headers = (\<lambda>_. None),
      read_body = (\<lambda>limit. if 3 \<le> limit then Some ''abc'' else None)\<rparr> [])) = 413"
proof -
  let ?q = "\<lparr>http_method = lit ''POST'', uri_path = lit ''/'', http_headers = (\<lambda>_. None),
      read_body = (\<lambda>limit. if 3 \<le> limit then Some ''abc'' else None)\<rparr>"
  have "reads_body ?q ''abc''" by (simp add: reads_body_def)
  from http_body_cap [OF this, of "sample_spec\<lparr>max_event_bytes := 2\<rparr>"]
  show ?thesis by (simp add: usize_max_def)
qed

text \<open>
  At the adapter boundary \<open>/\<close> stands for the route: a request for \<open>/\<close> or for the exact
  route is never answered 404, and no other path is ever accepted.
\<close>

theorem http_root_is_route:
  "(uri_path request \<in> {lit ''/'', spec_path spec} \<longrightarrow>
      status_code (fst (http_handler S b pid clock spec request log)) \<noteq> 404)
   \<and> (uri_path request \<notin> {lit ''/'', spec_path spec} \<longrightarrow>
      status_code (fst (http_handler S b pid clock spec request log)) \<in> {400, 404, 413})"
proof (cases "http_normalise S spec (pid, clock, request)")
  case None
  then show ?thesis by (simp add: http_handler_status)
next
  case (Some r)
  then show ?thesis
    using http_normalise_bytes [OF Some] http_normalise_path [OF Some]
    by (simp add: http_handler_status dispatch_request_status del: http_normalise.simps)
qed

theorem http_root_is_route_witness:
  "status_code (fst (http_handler null_serde \<lparr>feature_aws = False, feature_http = True\<rparr> 1 None
     sample_spec \<lparr>http_method = lit ''POST'', uri_path = lit ''/'', http_headers = (\<lambda>_. None),
      read_body = (\<lambda>_. Some [])\<rparr> [])) \<noteq> 404"
  using http_root_is_route [of "\<lparr>http_method = lit ''POST'', uri_path = lit ''/'',
      http_headers = (\<lambda>_. None), read_body = (\<lambda>_. Some [])\<rparr>"]
  by simp

lemma http_correlation_safe:
  assumes "pid < 2 ^ 32" "unwrap_or clock 0 < 2 ^ 128"
  shows "safe_id (http_correlation pid clock hs ce_id)"
proof -
  have "safe_id t" if "or_else (Option.bind ce_id sanitize_request_id) (request_id_from_headers hs)
      = Some t" for t
    using that sanitize_safe
    by (cases "Option.bind ce_id sanitize_request_id")
       (auto simp: request_id_from_headers_def bind_eq_Some_conv)
  then show ?thesis
    using generated_safe [OF assms]
    by (cases "or_else (Option.bind ce_id sanitize_request_id) (request_id_from_headers hs)")
       (simp_all add: http_correlation_def)
qed

text \<open>
  Every answer of the HTTP handler that reached the dispatcher carries a safe \<open>x-request-id\<close>,
  whatever the client sent in its headers or its event; the handler's own 400 and 413 answers
  carry none.
\<close>

theorem http_response_correlated:
  fixes S :: serde and b :: build and spec :: RouteSpec and request :: http_request
    and log :: "log_event list"
  assumes "pid < 2 ^ 32" "unwrap_or clock 0 < 2 ^ 128"
  defines "resp \<equiv> fst (http_handler S b pid clock spec request log)"
  shows "if status_code resp \<in> {400, 413}
    then bt_get (headers resp) (lit ''x-request-id'') = None
    else \<exists>rid. safe_id rid \<and> bt_get (headers resp) (lit ''x-request-id'') = Some rid"
proof (cases "http_normalise S spec (pid, clock, request)")
  case None
  then show ?thesis
    by (auto simp: resp_def http_handler_eq response_headers split: option.splits)
next
  case (Some r)
  then have "\<exists>ce_id. request_id r = http_correlation pid clock (http_headers request) ce_id"
    by (elim http_normalise_SomeE) auto
  then have "safe_id (request_id r)" using http_correlation_safe [OF assms(1,2)] by metis
  moreover have "status_code resp \<notin> {400, 413}"
    using Some http_normalise_bytes [OF Some]
    by (simp add: resp_def http_handler_eq dispatch_request_status)
  ultimately show ?thesis
    using Some by (simp add: resp_def http_handler_eq dispatch_request_contract)
qed

theorem http_response_correlated_witness:
  "\<exists>rid. safe_id rid \<and> bt_get (headers (fst (http_handler null_serde
     \<lparr>feature_aws = False, feature_http = True\<rparr> 1 (Some 7) sample_spec
     \<lparr>http_method = lit ''POST'', uri_path = lit ''/'', http_headers = (\<lambda>_. None),
      read_body = (\<lambda>_. Some [])\<rparr> []))) (lit ''x-request-id'') = Some rid"
proof -
  let ?q = "\<lparr>http_method = lit ''POST'', uri_path = lit ''/'', http_headers = (\<lambda>_. None),
      read_body = (\<lambda>_. Some [])\<rparr>"
  have "\<not> structured_mode (\<lambda>_. None)"
    by (simp add: structured_mode_def starts_with_def to_ascii_lowercase_def)
  from direct_payload_decoded_iff [OF this, of null_serde "[]" empty_obj None]
  have "decode_http_payload null_serde (\<lambda>_. None) [] = Inr (empty_obj, None)"
    by (simp add: binary_attributes_ok_def first_header_one)
  then have "status_code (fst (http_handler null_serde
      \<lparr>feature_aws = False, feature_http = True\<rparr> 1 (Some 7) sample_spec ?q [])) = 422"
    by (simp add: http_handler_status dispatch_request_status admitted_body_def sample_spec_def
        route_spec_new_def eq_ignore_ascii_case_equiv has_required_value_def empty_obj_def
        as_object_def)
  then show ?thesis
    using http_response_correlated [of 1 "Some 7" null_serde
        "\<lparr>feature_aws = False, feature_http = True\<rparr>" sample_spec ?q "[]"]
    by simp
qed

subsection \<open>The response on the wire\<close>

text \<open>
  What the code relies on of the \<^verbatim>\<open>http\<close> crate: three-digit statuses, lower-case token names and
  visible ASCII values are accepted, and a response with a handful of headers can be built.
\<close>

definition http_crate_ok :: "http_crate \<Rightarrow> bool" where
  "http_crate_ok C \<longleftrightarrow>
     (\<forall>n. 100 \<le> n \<and> n < 1000 \<longrightarrow> status_ok C n) \<and> (\<forall>s. header_token s \<longrightarrow> name_ok C s)
     \<and> (\<forall>s. visible_text s \<longrightarrow> value_ok C s) \<and> (\<forall>n hs. length hs \<le> 100 \<longrightarrow> build_ok C n hs)"

lemma length_response_headers:
  "length (headers (fst (dispatch_request b request spec log))) \<le> 100"
proof -
  let ?m = "headers (fst (dispatch_request b request spec log))"
  have keys: "fst ` set ?m \<subseteq> response_names"
    using in_set_bt_get [OF dispatch_request_contract(1)] dispatch_request_header(1) by fastforce
  have "length ?m = card (fst ` set ?m)"
    using btree_ok_distinct [OF dispatch_request_contract(1)]
    by (metis distinct_card length_map set_map)
  also have "\<dots> \<le> card response_names"
    by (rule card_mono [OF _ keys]) (simp add: response_names_def)
  finally show ?thesis by (simp add: response_names_def)
qed

lemma http_response_carries:
  assumes "http_crate_ok C" "visible_text (spec_method spec)" "safe_id (request_id request)"
  shows "out_status (http_response C S (fst (dispatch_request b request spec log)))
      = status_code (fst (dispatch_request b request spec log))
    \<and> out_headers (http_response C S (fst (dispatch_request b request spec log)))
      = headers (fst (dispatch_request b request spec log))"
proof -
  let ?r = "fst (dispatch_request b request spec log)"
  have "name_ok C n \<and> value_ok C v" if "(n, v) \<in> set (headers ?r)" for n v
    using dispatch_header_visible [OF assms(2,3) that] assms(1) by (simp add: http_crate_ok_def)
  then have hs: "filter (\<lambda>(n, v). name_ok C n \<and> value_ok C v) (headers ?r) = headers ?r"
    by (auto simp: filter_id_conv)
  have "status_ok C (status_code ?r)"
    using assms(1) by (simp add: http_crate_ok_def dispatch_request_status)
  moreover have "build_ok C (status_code ?r) (headers ?r)"
    using assms(1) length_response_headers by (simp add: http_crate_ok_def)
  ultimately show ?thesis
    by (simp add: http_response_def hs Let_def)
qed

text \<open>
  Nothing is lost on the wire: for a route with a visible method, the HTTP response built from
  a dispatched answer has the dispatcher's status and all of its headers in order, whatever the
  client sent.
\<close>

theorem http_response_faithful:
  assumes "http_crate_ok C" "visible_text (spec_method spec)" "safe_id (request_id request)"
  shows "out_status (http_response C S (fst (dispatch_request b request spec log)))
      = status_code (fst (dispatch_request b request spec log))
    \<and> out_headers (http_response C S (fst (dispatch_request b request spec log)))
      = headers (fst (dispatch_request b request spec log))"
  using assms by (rule http_response_carries)

definition strict_crate :: http_crate where
  "strict_crate = \<lparr>status_ok = (\<lambda>n. 100 \<le> n \<and> n < 1000), name_ok = header_token,
     value_ok = visible_text, build_ok = (\<lambda>_ hs. length hs \<le> 100)\<rparr>"

theorem http_response_faithful_witness:
  "out_status (http_response strict_crate null_serde (fst (dispatch_request
     \<lparr>feature_aws = False, feature_http = True\<rparr>
     \<lparr>req_method = lit ''post'', req_path = lit ''/x'', req_body = Null, request_id = lit ''r-1'',
      event_bytes = 0\<rparr> sample_spec []))) = 404"
proof -
  let ?q = "\<lparr>req_method = lit ''post'', req_path = lit ''/x'', req_body = Null,
    request_id = lit ''r-1'', event_bytes = 0\<rparr>"
  have "http_crate_ok strict_crate" by (simp add: http_crate_ok_def strict_crate_def)
  moreover have "visible_text (spec_method sample_spec)"
    by (simp add: sample_spec_def route_spec_new_def visible_text_def lit_Cons)
  moreover have "safe_id (request_id ?q)"
    by (simp add: safe_id_def request_id_char_def char_class_defs lit_Cons)
  ultimately show ?thesis
    using http_response_faithful [of strict_crate sample_spec ?q null_serde
        "\<lparr>feature_aws = False, feature_http = True\<rparr>" "[]"]
    by (simp add: dispatch_request_status sample_spec_def route_spec_new_def
        DEFAULT_MAX_EVENT_BYTES_def)
qed

end
