(* ===== verification/Runtimes.thy ===== *)
theory Runtimes
  imports Aws_Adapter Http_Adapter
begin

text \<open>
  The runtimes around the adapters of \<^verbatim>\<open>src/lambdas/src/lib.rs\<close>: the AWS one (\<open>run\<close>, \<open>run_aws\<close>,
  \<open>handle_aws\<close>) on the invocations the Lambda runtime delivers, and the portable HTTP one
  (\<open>run_http\<close>) on the requests the server takes in, in the order they are answered, each with the
  reading of the clock at its time. The service loops of both are library code that never ends by
  itself, so a finite list is a prefix of a run. What the router of the HTTP server answers to a
  method other than \<open>GET\<close> on a route that has only \<open>GET\<close> is a parameter.
\<close>

subsection \<open>AWS Lambda\<close>

record lambda_event =
  event_payload :: json
  context_request_id :: rstr

definition handle_aws ::
  "serde \<Rightarrow> build \<Rightarrow> nat \<Rightarrow> nat option \<Rightarrow> lambda_event \<Rightarrow> RouteSpec \<Rightarrow> log_event list \<Rightarrow>
   (unit + json) \<times> log_event list" where
  "handle_aws S b pid clock event spec log =
     (let (value, log) = dispatch S b pid clock (event_payload event) (context_request_id event) spec log
      in (Inr value, log))"

definition run_aws ::
  "serde \<Rightarrow> build \<Rightarrow> nat \<Rightarrow> RouteSpec \<Rightarrow> (nat option \<times> lambda_event) list \<Rightarrow> log_event list \<Rightarrow>
   (unit + json) list \<times> log_event list" where
  "run_aws S b pid spec deliveries log =
     serve_all (\<lambda>(clock, event) log. handle_aws S b pid clock event spec log) deliveries log"

text \<open>
  What API Gateway asks of the answer of an integration: an object with a numeric status, text
  headers, an encoding flag and a text body, and nothing else.
\<close>

definition gateway_response :: "json \<Rightarrow> bool" where
  "gateway_response v \<longleftrightarrow>
     json_ok v
     \<and> (\<exists>m. v = Object m
         \<and> fst ` set m = {lit ''statusCode'', lit ''headers'', lit ''isBase64Encoded'', lit ''body''})
     \<and> (\<exists>n \<in> {202, 404, 405, 413, 415, 422}. value_get (lit ''statusCode'') v = Some (json_uint n))
     \<and> (\<exists>hs. value_get (lit ''headers'') v = Some (Object hs) \<and> (\<forall>(k, h) \<in> set hs. \<exists>s. h = String s))
     \<and> value_get (lit ''isBase64Encoded'') v = Some (Bool False)
     \<and> (\<exists>s. value_get (lit ''body'') v = Some (String s))"

lemma aws_response_gateway:
  assumes "btree_ok (headers r)" "status_code r \<in> {202, 404, 405, 413, 415, 422}"
  shows "gateway_response (aws_response S r)"
proof -
  let ?hs = "map (\<lambda>(k, v). (k, String v)) (headers r)"
  have "json_ok (Object ?hs)"
    using btree_ok_map [OF assms(1)] by (auto simp: list_all_iff)
  then have "json_ok (aws_response S r)"
    unfolding aws_response_def by (intro json_ok_obj) (auto simp: json_uint_def)
  moreover have "\<exists>m. aws_response S r = Object m
      \<and> fst ` set m = {lit ''statusCode'', lit ''headers'', lit ''isBase64Encoded'', lit ''body''}"
    by (simp add: aws_response_def json_obj_def keys_bt_from)
  ultimately show ?thesis
    using assms(2) by (auto simp: gateway_response_def aws_response_def value_get_obj)
qed

lemma dispatch_gateway: "gateway_response (fst (dispatch S b pid clock payload given_id spec log))"
proof (cases "aws_base64 payload")
  case True
  then show ?thesis
    by (simp add: dispatch_def Let_def aws_response_gateway with_request_id_def function_response_def bt_ok)
next
  case False
  let ?q = "aws_request S payload (aws_id (pid, clock, payload, given_id))"
  have "gateway_response (aws_response S (fst (dispatch_request b ?q spec log)))"
    by (rule aws_response_gateway [OF dispatch_request_contract(1)]) (simp add: dispatch_request_status)
  with False show ?thesis by (simp add: dispatch_def Let_def split_beta)
qed

text \<open>
  C39. Every invocation gets an answer that API Gateway can pass on: whatever the event is, the value
  handed back is a well-formed object of exactly the four members an integration response has, with
  one of the six statuses of the dispatcher and the adapter, text headers and a text body that is
  not base64-encoded; the invocation itself never fails.
\<close>

theorem handle_aws_gateway_response:
  "\<exists>v log'. handle_aws S b pid clock event spec log = (Inr v, log') \<and> gateway_response v"
  using dispatch_gateway by (simp add: handle_aws_def split_beta)

text \<open>Invocations do not influence each other: each gets the answer it gets alone.\<close>

lemma handle_aws_alone:
  "handle_aws S b pid clock event spec log =
     (fst (handle_aws S b pid clock event spec []), log @ snd (handle_aws S b pid clock event spec []))"
  using aws.answer_log_append [of S b spec "(pid, clock, event_payload event, context_request_id event)" log]
  by (simp add: handle_aws_def split_beta)

theorem run_aws_each_alone:
  "run_aws S b pid spec deliveries log =
     (map (\<lambda>d. fst (handle_aws S b pid (fst d) (snd d) spec [])) deliveries,
      log @ concat (map (\<lambda>d. snd (handle_aws S b pid (fst d) (snd d) spec [])) deliveries))"
proof -
  let ?f = "\<lambda>(clock, event) log. handle_aws S b pid clock event spec log"
  have "?f e log = (fst (?f e []), log @ snd (?f e []))" for e and log :: "log_event list"
    by (cases e) (simp only: prod.case, rule handle_aws_alone)
  from serve_all_alone [of ?f, OF this] show ?thesis
    by (simp add: run_aws_def split_beta)
qed

subsection \<open>The portable HTTP server\<close>

datatype host_error = InvalidInput rstr | BindError

record http_host =
  azure_var :: env_var
  generic_var :: env_var
  can_bind :: "nat \<Rightarrow> bool"

definition http_listening :: "build \<Rightarrow> RouteSpec \<Rightarrow> nat \<Rightarrow> log_event" where
  \<open>http_listening b spec port =
     (if feature_aws b then ListeningTrace port (handler spec)
      else Stdout (lit ''{"level":"info","event":"portable_http_listening","handler":"'' @ handler spec
             @ lit ''","port":'' @ show_dec port @ lit ''}''))\<close>

text \<open>The two probes by \<open>GET\<close>, the fallback for everything else.\<close>

fun http_service ::
  "http_crate \<Rightarrow> serde \<Rightarrow> build \<Rightarrow> (http_request \<Rightarrow> http_out) \<Rightarrow> RouteSpec \<Rightarrow> http_call \<Rightarrow>
   log_event list \<Rightarrow> http_out \<times> log_event list" where
  "http_service C S b only_get spec (pid, clock, request) log =
     (case http_route (uri_path request) of
        HealthRoute \<Rightarrow>
          (if http_method request = lit ''GET'' then http_response C S health else only_get request, log)
      | FallbackRoute \<Rightarrow>
          (let (response, log) = http_handler S b pid clock spec request log
           in (http_response C S response, log)))"

definition run_http ::
  "http_crate \<Rightarrow> serde \<Rightarrow> build \<Rightarrow> (http_request \<Rightarrow> http_out) \<Rightarrow> RouteSpec \<Rightarrow> http_host \<Rightarrow> http_call list \<Rightarrow>
   log_event list \<Rightarrow> (host_error + http_out list) \<times> log_event list" where
  "run_http C S b only_get spec H calls log =
     (case map_err InvalidInput (configured_port (azure_var H) (generic_var H)) of
        Inl e \<Rightarrow> (Inl e, log)
      | Inr port \<Rightarrow>
          if \<not> can_bind H port then (Inl BindError, log)
          else
            (let (outs, log) = serve_all (http_service C S b only_get spec) calls
                   (log @ [http_listening b spec port])
             in (Inr outs, log)))"

lemma http_service_answer:
  "http_route (uri_path request) = FallbackRoute \<Longrightarrow>
   http_service C S b only_get spec (pid, clock, request) log = http_answer C S b spec (pid, clock, request) log"
  by (simp add: split_beta map_prod_def)

lemma http_service_alone:
  "http_service C S b only_get spec e log =
     (fst (http_service C S b only_get spec e []), log @ snd (http_service C S b only_get spec e []))"
proof -
  obtain pid clock request where e: "e = (pid, clock, request)" by (cases e) auto
  show ?thesis
  proof (cases "http_route (uri_path request)")
    case HealthRoute
    then show ?thesis by (simp add: e)
  next
    case FallbackRoute
    from http.answer_log_append show ?thesis
      unfolding e http_service_answer [OF FallbackRoute] .
  qed
qed

text \<open>A response on the wire that says 202 is an accepted call, and the other way round.\<close>

lemma out_status_202: "out_status (http_response C S r) = 202 \<Longrightarrow> status_code r = 202"
  by (auto simp: http_response_def Let_def split: if_splits)

lemma http_normalise_id_safe:
  assumes "pid < 2 ^ 32" "unwrap_or clock 0 < 2 ^ 128" "http_normalise S spec (pid, clock, request) = Some r"
  shows "safe_id (request_id r)"
  using assms(3) by (rule http_normalise_SomeE) (simp add: http_correlation_safe [OF assms(1,2)])

lemma http_answer_202:
  assumes "http_crate_ok C" "visible_text (spec_method spec)" "pid < 2 ^ 32" "unwrap_or clock 0 < 2 ^ 128"
  shows "out_status (fst (http_answer C S b spec (pid, clock, request) log)) = 202 \<longleftrightarrow>
    (\<exists>r. http_normalise S spec (pid, clock, request) = Some r \<and> acceptable spec r)"
proof (cases "http_normalise S spec (pid, clock, request)")
  case None
  then have "http_answer C S b spec (pid, clock, request) log
      = (http_response C S (http_reject S spec (pid, clock, request)), log)"
    by (rule http.rejects)
  with None show ?thesis
    using http.reject_not_202 [OF None] out_status_202 by (simp del: http_normalise.simps) blast
next
  case (Some r)
  note out = http.dispatches [OF Some, of C b log]
  have "out_status (http_response C S (fst (dispatch_request b r spec log)))
      = status_code (fst (dispatch_request b r spec log))"
    using http_response_carries [OF assms(1,2) http_normalise_id_safe [OF assms(3,4) Some]] by simp
  with Some out show ?thesis by (simp add: dispatch_request_202 fst_map_prod del: http_normalise.simps)
qed

definition well_timed :: "http_call \<Rightarrow> bool" where
  "well_timed call \<longleftrightarrow> fst call < 2 ^ 32 \<and> unwrap_or (fst (snd call)) 0 < 2 ^ 128"

lemma http_service_log_length:
  assumes "http_crate_ok C" "visible_text (spec_method spec)" "well_timed e"
    and "feature_aws b \<or> feature_http b" "\<And>q. out_status (only_get q) \<noteq> 202"
  shows "length (snd (http_service C S b only_get spec e [])) =
    (if out_status (fst (http_service C S b only_get spec e [])) = 202 then 1 else 0)"
proof -
  obtain pid clock request where e: "e = (pid, clock, request)" by (cases e) auto
  show ?thesis
  proof (cases "http_route (uri_path request)")
    case HealthRoute
    have "out_status (http_response C S health) \<noteq> 202"
      using out_status_202 [of C S health] by (auto simp: health_def)
    with HealthRoute assms(5) show ?thesis by (simp add: e)
  next
    case FallbackRoute
    have "out_status (fst (http_answer C S b spec (pid, clock, request) [])) = 202 \<longleftrightarrow>
        (\<exists>r. http_normalise S spec (pid, clock, request) = Some r \<and> acceptable spec r)"
      by (rule http_answer_202) (use assms(1-3) e in \<open>simp_all add: well_timed_def\<close>)
    with http.answer_log_length [of C S b spec "(pid, clock, request)" "[]"] assms(4) show ?thesis
      unfolding e http_service_answer [OF FallbackRoute] http.admits_def by simp
  qed
qed

lemma configured_port_bounds: "configured_port azure generic = Inr p \<Longrightarrow> 1 \<le> p \<and> p \<le> 65535"
  using resolve_port_bounds by (auto simp: configured_port_def and_then_eq_Inr)

text \<open>
  C28. The portable server starts or changes nothing, and it accounts for what it accepts: it serves
  exactly when the port the environment names is valid and can be bound, and then announces itself
  before anything else, answers every request as if it were the only one, and has logged one event
  for each request whose response on the wire says 202 and none for any other, probes included.
\<close>

theorem run_http_serves:
  assumes "http_crate_ok C" "visible_text (spec_method spec)" "list_all well_timed calls"
    and "feature_aws b \<or> feature_http b" "\<And>q. out_status (only_get q) \<noteq> 202"
  shows "case configured_port (azure_var H) (generic_var H) of
      Inl m \<Rightarrow> run_http C S b only_get spec H calls log = (Inl (InvalidInput m), log)
    | Inr port \<Rightarrow> 1 \<le> port \<and> port \<le> 65535
        \<and> (if \<not> can_bind H port then run_http C S b only_get spec H calls log = (Inl BindError, log)
           else \<exists>outs events. run_http C S b only_get spec H calls log
               = (Inr outs, log @ http_listening b spec port # events)
             \<and> outs = map (\<lambda>e. fst (http_service C S b only_get spec e [])) calls
             \<and> length events = length (filter (\<lambda>r. out_status r = 202) outs))"
proof (cases "configured_port (azure_var H) (generic_var H)")
  case (Inl m)
  then show ?thesis by (simp add: run_http_def)
next
  case (Inr port)
  let ?s = "\<lambda>e. http_service C S b only_get spec e []"
  have "length (concat (map (\<lambda>e. snd (?s e)) calls))
      = length (filter (\<lambda>r. out_status r = 202) (map (\<lambda>e. fst (?s e)) calls))"
    using assms(3)
  proof (induction calls)
    case Nil
    then show ?case by simp
  next
    case (Cons e calls)
    then show ?case
      using http_service_log_length [OF assms(1,2) _ assms(4,5), of e S] by simp
  qed
  moreover have "serve_all (http_service C S b only_get spec) calls log'
      = (map (\<lambda>e. fst (?s e)) calls, log' @ concat (map (\<lambda>e. snd (?s e)) calls))" for log'
    by (rule serve_all_alone) (rule http_service_alone)
  ultimately show ?thesis
    using configured_port_bounds [OF Inr] by (simp add: run_http_def Inr)
qed

theorem run_http_serves_witness:
  "\<exists>r. run_http strict_crate null_serde \<lparr>feature_aws = False, feature_http = True\<rparr>
       (\<lambda>_. \<lparr>out_status = 405, out_headers = [], out_body = []\<rparr>) sample_spec
       \<lparr>azure_var = NotPresent, generic_var = NotPresent, can_bind = (\<lambda>_. True)\<rparr>
       [(1, Some 7, \<lparr>http_method = lit ''GET'', uri_path = lit ''/healthz'', http_headers = (\<lambda>_. None),
          read_body = (\<lambda>_. None)\<rparr>)] []
     = (Inr [r], [http_listening \<lparr>feature_aws = False, feature_http = True\<rparr> sample_spec 8080])"
proof -
  let ?q = "\<lparr>http_method = lit ''GET'', uri_path = lit ''/healthz'', http_headers = (\<lambda>_. None),
    read_body = (\<lambda>_. None)\<rparr>"
  let ?H = "\<lparr>azure_var = NotPresent, generic_var = NotPresent, can_bind = (\<lambda>_. True)\<rparr>"
  have "http_crate_ok strict_crate" by (simp add: http_crate_ok_def strict_crate_def)
  moreover have "visible_text (spec_method sample_spec)"
    by (simp add: sample_spec_def route_spec_new_def visible_text_def lit_Cons)
  moreover have "configured_port (azure_var ?H) (generic_var ?H) = Inr 8080"
    by (simp add: configured_port_def read_optional_env_def resolve_port_def DEFAULT_HTTP_PORT_def)
  moreover have "out_status (http_response strict_crate null_serde health) \<noteq> 202"
    using out_status_202 [of strict_crate null_serde health] by (auto simp: health_def)
  moreover have "http_route (lit ''/healthz'') = HealthRoute" by (simp add: http_route_def)
  ultimately show ?thesis
    using run_http_serves [of strict_crate sample_spec "[(1, Some 7, ?q)]"
        "\<lparr>feature_aws = False, feature_http = True\<rparr>" "\<lambda>_. \<lparr>out_status = 405, out_headers = [], out_body = []\<rparr>"
        null_serde ?H "[]"]
    by (simp add: well_timed_def)
qed

end
