(* ===== verification/Fn_Reader.thy ===== *)
theory Fn_Reader
  imports Dispatch
begin

text \<open>
  The request reader of the Oracle Functions adapter (\<^verbatim>\<open>oracle_fn/http_stream.rs\<close>, first half):
  an HTTP/1.x reader over a byte stream, with bounded headers, content-length and chunked bodies.
  A stream is the bytes still to come and whether it ends in a failure rather than in an end of
  file. Every error is final: the code never reads a stream again after one, so only the
  successful results carry the stream on.
\<close>

definition MAX_HEADER_LINES :: nat where
  "MAX_HEADER_LINES = 128"

definition MAX_HEADER_BYTES :: nat where
  "MAX_HEADER_BYTES = 65536"

record reader =
  pending :: bytes
  broken :: bool

datatype io_error = StreamBroken | InvalidUtf8 | UnexpectedEof | WriteFailed

datatype ReadRequestError = Io io_error | BadRequest rstr | TooLarge

record ParsedRequest =
  parsed_headers :: "(rstr, rstr) btree"
  parsed_body :: bytes

subsection \<open>Reading from the stream\<close>

text \<open>Everything up to and including the first line feed, and the rest.\<close>

fun split_line :: "bytes \<Rightarrow> bytes \<times> bytes" where
  "split_line [] = ([], [])"
| "split_line (c # cs) =
     (if c = CHR 0x0A then ([c], cs) else (case split_line cs of (l, r) \<Rightarrow> (c # l, r)))"

text \<open>\<open>BufRead::read_line\<close>: the byte count and the text.\<close>

definition read_line :: "reader \<Rightarrow> io_error + nat \<times> rstr \<times> reader" where
  "read_line r =
     (let (line, rest) = split_line (pending r) in
      if CHR 0x0A \<notin> set line \<and> broken r then Inl StreamBroken
      else (case utf8_decode line of
              None \<Rightarrow> Inl InvalidUtf8
            | Some text \<Rightarrow> Inr (length line, text, r\<lparr>pending := rest\<rparr>)))"

definition read_exact :: "nat \<Rightarrow> reader \<Rightarrow> io_error + bytes \<times> reader" where
  "read_exact n r =
     (if n \<le> length (pending r)
      then Inr (take n (pending r), r\<lparr>pending := drop n (pending r)\<rparr>)
      else if broken r then Inl StreamBroken else Inl UnexpectedEof)"

definition strip_eol :: "rstr \<Rightarrow> rstr" where
  "strip_eol line =
     (if ends_with line [10]
      then (let line = butlast line in if ends_with line [13] then butlast line else line)
      else line)"

definition read_http_line :: "reader \<Rightarrow> ReadRequestError + rstr option \<times> reader" where
  "read_http_line r =
     and_then (map_err Io (read_line r)) (\<lambda>(count, line, r').
       if count = 0 then Inr (None, r') else Inr (Some (strip_eol line), r'))"

lemma split_line_append: "fst (split_line bs) @ snd (split_line bs) = bs"
  by (induction bs) (auto split: prod.splits)

lemma split_line_length: "length (snd (split_line bs)) + length (fst (split_line bs)) = length bs"
  using split_line_append [of bs] by (metis add.commute length_append)

lemma read_line_consumes:
  assumes "read_line r = Inr (n, text, r')"
  shows "length (pending r') + n = length (pending r) \<and> broken r' = broken r
    \<and> (\<exists>l. pending r = l @ pending r' \<and> length l = n \<and> utf8_decode l = Some text)"
proof -
  obtain l rest where l: "split_line (pending r) = (l, rest)" by fastforce
  then have "pending r = l @ rest" using split_line_append [of "pending r"] by simp
  moreover have "n = length l" "utf8_decode l = Some text" "r' = r\<lparr>pending := rest\<rparr>"
    using assms l by (auto simp: read_line_def split: if_splits option.splits)
  ultimately show ?thesis by auto
qed

lemma read_http_line_Some:
  "read_http_line r = Inr (Some line, r') \<Longrightarrow>
     length (pending r') < length (pending r) \<and> (\<exists>l. pending r = l @ pending r')"
  by (auto simp: read_http_line_def and_then_eq_Inr dest!: read_line_consumes split: if_splits)

subsection \<open>Chunked bodies\<close>

function read_trailers :: "reader \<Rightarrow> ReadRequestError + reader" where
  "read_trailers r =
     (case read_http_line r of
        Inl e \<Rightarrow> Inl e
      | Inr (None, _) \<Rightarrow> Inl (BadRequest (lit ''unexpected_eof_in_trailers''))
      | Inr (Some trailer, r') \<Rightarrow> if trailer = [] then Inr r' else read_trailers r')"
  by pat_completeness auto
termination
  by (relation "measure (\<lambda>r. length (pending r))") (auto dest: read_http_line_Some)

declare read_trailers.simps [simp del]

definition chunk_size :: "rstr \<Rightarrow> nat option" where
  "chunk_size size_line = from_str_radix usize_max 16 (trim (first_segment (\<lambda>c. c = 59) size_line))"

text \<open>One chunk: its data and the two bytes that must end it.\<close>

definition read_chunk :: "nat \<Rightarrow> reader \<Rightarrow> ReadRequestError + bytes \<times> reader" where
  "read_chunk sz r =
     and_then (map_err Io (read_exact sz r)) (\<lambda>(data, r1).
     and_then (map_err Io (read_exact 2 r1)) (\<lambda>(terminator, r2).
       if terminator \<noteq> [CHR 0x0D, CHR 0x0A]
       then Inl (BadRequest (lit ''invalid_chunk_terminator''))
       else Inr (data, r2)))"

lemma read_exact_consumes:
  "read_exact n r = Inr (data, r') \<Longrightarrow>
     pending r = data @ pending r' \<and> length data = n \<and> broken r' = broken r"
  by (auto simp: read_exact_def split: if_splits)

lemma read_chunk_consumes:
  "read_chunk n r = Inr (data, r') \<Longrightarrow>
     pending r = data @ [CHR 0x0D, CHR 0x0A] @ pending r' \<and> length data = n"
  by (auto simp: read_chunk_def and_then_eq_Inr dest!: read_exact_consumes split: if_splits)

function read_chunked_body ::
  "nat \<Rightarrow> bytes \<Rightarrow> reader \<Rightarrow> ReadRequestError + bytes \<times> reader" where
  "read_chunked_body max_body_bytes body r =
     (case read_http_line r of
        Inl e \<Rightarrow> Inl e
      | Inr (None, _) \<Rightarrow> Inl (BadRequest (lit ''unexpected_eof_in_chunk_size''))
      | Inr (Some size_line, r1) \<Rightarrow>
          (case chunk_size size_line of
             None \<Rightarrow> Inl (BadRequest (lit ''invalid_chunk_size''))
           | Some sz \<Rightarrow>
               if sz = 0 then
                 (case read_trailers r1 of Inl e \<Rightarrow> Inl e | Inr r2 \<Rightarrow> Inr (body, r2))
               else if saturating_add (length body) sz > max_body_bytes then Inl TooLarge
               else
                 (case read_chunk sz r1 of
                    Inl e \<Rightarrow> Inl e
                  | Inr (data, r2) \<Rightarrow> read_chunked_body max_body_bytes (body @ data) r2)))"
  by pat_completeness auto
termination
  by (relation "measure (\<lambda>(m, body, r). length (pending r))")
     (auto dest!: read_http_line_Some read_chunk_consumes)

declare read_chunked_body.simps [simp del]

subsection \<open>Requests\<close>

definition request_line_ok :: "rstr \<Rightarrow> bool" where
  "request_line_ok line \<longleftrightarrow>
     length (split_whitespace line) = 3 \<and> starts_with (split_whitespace line ! 2) (lit ''HTTP/1.'')"

definition header_name_char :: "rchar \<Rightarrow> bool" where
  "header_name_char c \<longleftrightarrow> is_ascii_alphanumeric c \<or> c = 45"

definition parse_header_line :: "rstr \<Rightarrow> ReadRequestError + rstr \<times> rstr" where
  "parse_header_line line =
     and_then (ok_or (BadRequest (lit ''invalid_http_header'')) (split_once 58 line))
       (\<lambda>(name, value).
         let name = to_ascii_lowercase (trim name) in
         if name = [] \<or> \<not> list_all header_name_char name
         then Inl (BadRequest (lit ''invalid_http_header_name''))
         else
           let value = trim value in
           if list_ex is_control value then Inl (BadRequest (lit ''invalid_http_header_value''))
           else Inr (name, value))"

definition add_header :: "rstr \<Rightarrow> rstr \<Rightarrow> (rstr, rstr) btree \<Rightarrow> (rstr, rstr) btree" where
  "add_header name value hs = bt_modify_or_insert name (\<lambda>existing. existing @ [44] @ value) value hs"

text \<open>The bounded loop over the header lines; the flag says whether the blank line was seen.\<close>

fun read_headers ::
  "nat \<Rightarrow> nat \<Rightarrow> (rstr, rstr) btree \<Rightarrow> reader \<Rightarrow>
   ReadRequestError + bool \<times> (rstr, rstr) btree \<times> reader" where
  "read_headers 0 header_bytes hs r = Inr (False, hs, r)"
| "read_headers (Suc n) header_bytes hs r =
     and_then (read_http_line r) (\<lambda>(maybe_line, r').
     and_then (ok_or (BadRequest (lit ''unexpected_eof_in_headers'')) maybe_line) (\<lambda>line.
       let header_bytes = saturating_add header_bytes (str_len line) in
       if header_bytes > MAX_HEADER_BYTES then Inl (BadRequest (lit ''headers_too_large''))
       else if line = [] then Inr (True, hs, r')
       else and_then (parse_header_line line) (\<lambda>(name, value).
              read_headers n header_bytes (add_header name value hs) r')))"

definition read_body_of ::
  "nat \<Rightarrow> (rstr, rstr) btree \<Rightarrow> reader \<Rightarrow> ReadRequestError + bytes \<times> reader" where
  "read_body_of max_body_bytes hs r =
     (if is_some_and (\<lambda>v. contains_sub (lit ''chunked'') (to_ascii_lowercase v))
           (bt_get hs (lit ''transfer-encoding''))
      then read_chunked_body max_body_bytes [] r
      else
        (case bt_get hs (lit ''content-length'') of
           Some value \<Rightarrow>
             and_then (ok_or (BadRequest (lit ''invalid_content_length'')) (parse_usize (trim value)))
               (\<lambda>len.
                 if len > max_body_bytes then Inl TooLarge
                 else map_err Io (read_exact len r))
         | None \<Rightarrow> Inr ([], r)))"

definition read_request ::
  "reader \<Rightarrow> nat \<Rightarrow> ReadRequestError + (ParsedRequest \<times> reader) option" where
  "read_request r max_body_bytes =
     and_then (read_http_line r) (\<lambda>(maybe_line, r0).
       case maybe_line of
         None \<Rightarrow> Inr None
       | Some request_line \<Rightarrow>
           if \<not> request_line_ok request_line
           then Inl (BadRequest (lit ''invalid_http_request_line''))
           else if str_len request_line > MAX_HEADER_BYTES
           then Inl (BadRequest (lit ''headers_too_large''))
           else
             and_then (read_headers MAX_HEADER_LINES (str_len request_line) [] r0)
               (\<lambda>(complete, hs, r1).
                 if \<not> complete then Inl (BadRequest (lit ''too_many_headers''))
                 else
                   and_then (read_body_of max_body_bytes hs r1) (\<lambda>(body, r2).
                     Inr (Some (\<lparr>parsed_headers = hs, parsed_body = body\<rparr>, r2)))))"

subsection \<open>What is read is what was there\<close>

lemma read_trailers_suffix: "read_trailers r = Inr r' \<Longrightarrow> \<exists>l. pending r = l @ pending r'"
proof (induction r rule: read_trailers.induct)
  case (1 r)
  then obtain t r1 where t: "read_http_line r = Inr (Some t, r1)"
    by (subst (asm) (2) read_trailers.simps) (auto split: sum.splits prod.splits option.splits)
  then obtain l where l: "pending r = l @ pending r1" using read_http_line_Some by blast
  show ?case
  proof (cases "t = []")
    case True
    with "1.prems" t l show ?thesis by (subst (asm) read_trailers.simps) auto
  next
    case False
    then have "read_trailers r1 = Inr r'" using "1.prems" t by (subst (asm) read_trailers.simps) simp
    with "1.IH" [OF t refl refl False] l show ?thesis by auto
  qed
qed

text \<open>The cases of a successful chunked read, as an elimination rule.\<close>

lemma read_chunked_body_cases:
  assumes "read_chunked_body m body r = Inr (out, r')"
  obtains (last) sl r1 where "read_http_line r = Inr (Some sl, r1)" "chunk_size sl = Some 0"
      "read_trailers r1 = Inr r'" "out = body"
  | (chunk) sl r1 k data r2 where "read_http_line r = Inr (Some sl, r1)" "chunk_size sl = Some k"
      "k \<noteq> 0" "saturating_add (length body) k \<le> m" "read_chunk k r1 = Inr (data, r2)"
      "read_chunked_body m (body @ data) r2 = Inr (out, r')"
proof -
  obtain sl r1 where sl: "read_http_line r = Inr (Some sl, r1)"
    using assms by (subst (asm) read_chunked_body.simps) (auto split: sum.splits prod.splits option.splits)
  obtain k where k: "chunk_size sl = Some k"
    using assms sl by (subst (asm) read_chunked_body.simps) (auto split: option.splits)
  show thesis
  proof (cases "k = 0")
    case True
    with assms sl k show thesis
      by (subst (asm) read_chunked_body.simps) (auto split: sum.splits intro: last)
  next
    case False
    then have cap: "saturating_add (length body) k \<le> m"
      using assms sl k by (subst (asm) read_chunked_body.simps) (auto split: if_splits)
    with assms sl k False obtain data r2 where "read_chunk k r1 = Inr (data, r2)"
      "read_chunked_body m (body @ data) r2 = Inr (out, r')"
      by (subst (asm) read_chunked_body.simps) (auto split: sum.splits)
    with sl k False cap show thesis by (rule chunk)
  qed
qed

lemma read_chunked_body_bound:
  "read_chunked_body m body r = Inr (out, r') \<Longrightarrow> m < usize_max \<Longrightarrow> length body \<le> m \<Longrightarrow> length out \<le> m"
proof (induction m body r arbitrary: out r' rule: read_chunked_body.induct)
  case (1 m body r)
  from "1.prems"(1) show ?case
  proof (cases rule: read_chunked_body_cases)
    case last
    with "1.prems" show ?thesis by simp
  next
    case (chunk sl r1 k data r2)
    then have "length (body @ data) \<le> m"
      using saturating_add_le "1.prems"(2) read_chunk_consumes by fastforce
    with "1.IH" [OF chunk(1) refl refl chunk(2,3) _ chunk(5) refl chunk(6)] chunk(4) "1.prems"(2)
    show ?thesis by simp
  qed
qed

lemma read_chunked_body_suffix:
  "read_chunked_body m body r = Inr (out, r') \<Longrightarrow> \<exists>l. pending r = l @ pending r'"
proof (induction m body r arbitrary: out r' rule: read_chunked_body.induct)
  case (1 m body r)
  from "1.prems" show ?case
  proof (cases rule: read_chunked_body_cases)
    case (last sl r1)
    then obtain a b where "pending r = a @ pending r1" "pending r1 = b @ pending r'"
      using read_http_line_Some read_trailers_suffix by blast
    then show ?thesis by simp
  next
    case (chunk sl r1 k data r2)
    then obtain a b where "pending r = a @ pending r1" "pending r1 = b @ pending r2"
      using read_http_line_Some read_chunk_consumes by (metis append.assoc)
    moreover obtain c where "pending r2 = c @ pending r'"
      using "1.IH" [OF chunk(1) refl refl chunk(2,3) _ chunk(5) refl chunk(6)] chunk(4) by auto
    ultimately show ?thesis by simp
  qed
qed

subsection \<open>Headers\<close>

definition clean_headers :: "(rstr, rstr) btree \<Rightarrow> bool" where
  "clean_headers hs \<longleftrightarrow>
     btree_ok hs
     \<and> (\<forall>k v. bt_get hs k = Some v \<longrightarrow>
          k \<noteq> [] \<and> (\<forall>c \<in> set k. header_name_char c \<and> \<not> is_ascii_upper c)
          \<and> (\<forall>c \<in> set v. \<not> is_control c))"

lemma clean_headers_Nil: "clean_headers []"
  by (simp add: clean_headers_def)

lemma parse_header_line_props:
  "parse_header_line line = Inr (name, value) \<Longrightarrow>
     name \<noteq> [] \<and> (\<forall>c \<in> set name. header_name_char c \<and> \<not> is_ascii_upper c)
     \<and> (\<forall>c \<in> set value. \<not> is_control c) \<and> trimmed value"
  by (auto simp: parse_header_line_def and_then_eq_Inr Let_def list_all_iff list_ex_iff trim_trimmed
      to_ascii_lowercase_def split: if_splits)

lemma clean_headers_add:
  assumes "clean_headers hs" "parse_header_line line = Inr (name, value)"
  shows "clean_headers (add_header name value hs)"
  using assms(1) parse_header_line_props [OF assms(2)]
  by (fastforce simp: clean_headers_def add_header_def btree_ok_modify bt_get_modify is_control_def
      split: option.splits if_splits)

lemma length_bt_insert: "length (bt_insert k v m) \<le> Suc (length m)"
  by (induction m) auto

lemma length_add_header: "length (add_header name value hs) \<le> Suc (length hs)"
  by (simp add: add_header_def bt_modify_or_insert_def length_bt_insert)

lemma read_headers_SucE:
  assumes "read_headers (Suc n) hb hs r = Inr (fin, out, r')"
  obtains (blank) "read_http_line r = Inr (Some [], r')" "fin" "out = hs"
  | (entry) line r1 name v hb' where "read_http_line r = Inr (Some line, r1)" "line \<noteq> []"
      "parse_header_line line = Inr (name, v)" "hb' = saturating_add hb (str_len line)"
      "hb' \<le> MAX_HEADER_BYTES" "read_headers n hb' (add_header name v hs) r1 = Inr (fin, out, r')"
proof -
  obtain line r1 where l: "read_http_line r = Inr (Some line, r1)"
    using assms by (auto simp: and_then_eq_Inr)
  show thesis
  proof (cases "line = []")
    case True
    with assms l blank show thesis by (auto simp: Let_def split: if_splits)
  next
    case False
    with assms l obtain name v where "parse_header_line line = Inr (name, v)"
      "saturating_add hb (str_len line) \<le> MAX_HEADER_BYTES"
      "read_headers n (saturating_add hb (str_len line)) (add_header name v hs) r1
        = Inr (fin, out, r')"
      by (auto simp: Let_def and_then_eq_Inr split: if_splits)
    with l False entry show thesis by blast
  qed
qed

lemma read_headers_clean:
  "read_headers n hb hs r = Inr (fin, out, r') \<Longrightarrow> clean_headers hs \<Longrightarrow> clean_headers out"
proof (induction n arbitrary: hb hs r)
  case 0
  then show ?case by simp
next
  case (Suc n)
  from Suc.prems(1) show ?case
    by (cases rule: read_headers_SucE) (use Suc clean_headers_add in auto)
qed

lemma read_headers_length:
  "read_headers n hb hs r = Inr (fin, out, r') \<Longrightarrow> length out + (if fin then 1 else 0) \<le> length hs + n"
proof (induction n arbitrary: hb hs r)
  case 0
  then show ?case by simp
next
  case (Suc n)
  from Suc.prems show ?case
  proof (cases rule: read_headers_SucE)
    case (entry line r1 name v hb')
    with Suc.IH length_add_header [of name v hs] show ?thesis by fastforce
  qed simp
qed

lemma read_headers_suffix:
  "read_headers n hb hs r = Inr (fin, out, r') \<Longrightarrow> \<exists>l. pending r = l @ pending r'"
proof (induction n arbitrary: hb hs r)
  case 0
  then show ?case by auto
next
  case (Suc n)
  from Suc.prems show ?case
  proof (cases rule: read_headers_SucE)
    case blank
    then show ?thesis using read_http_line_Some by blast
  next
    case (entry line r1 name v hb')
    with Suc.IH obtain l where "pending r1 = l @ pending r'" by blast
    with entry(1) read_http_line_Some show ?thesis by (metis append.assoc)
  qed
qed

end
