(* ===== verification/Fn_Framing.thy ===== *)
theory Fn_Framing
  imports Fn_Reader
begin

text \<open>
  What the request reader of \<^verbatim>\<open>oracle_fn/http_stream.rs\<close> does with well-formed and with
  ill-formed streams: a printer of request heads, of bodies and of chunked bodies, and the reader
  run on what it prints. The printer is the specification side; nothing in it is code.
\<close>

definition CRLF :: bytes where
  "CRLF = [CHR 0x0D, CHR 0x0A]"

definition http_line :: "rstr \<Rightarrow> bytes" where
  "http_line line = utf8_encode line @ CRLF"

definition line_ok :: "rstr \<Rightarrow> bool" where
  "line_ok line \<longleftrightarrow> valid_text line \<and> 10 \<notin> set line"

definition header_line :: "rstr \<times> rstr \<Rightarrow> rstr" where
  "header_line h = fst h @ 58 # 32 # snd h"

definition header_ok :: "rstr \<times> rstr \<Rightarrow> bool" where
  "header_ok h \<longleftrightarrow>
     fst h \<noteq> [] \<and> (\<forall>c \<in> set (fst h). header_name_char c)
     \<and> valid_text (snd h) \<and> trimmed (snd h) \<and> (\<forall>c \<in> set (snd h). \<not> is_control c)"

definition print_headers :: "(rstr \<times> rstr) list \<Rightarrow> bytes" where
  "print_headers hs = concat (map (\<lambda>h. http_line (header_line h)) hs)"

definition header_size :: "(rstr \<times> rstr) list \<Rightarrow> nat" where
  "header_size hs = sum_list (map (\<lambda>h. str_len (header_line h)) hs)"

definition collect_headers :: "(rstr \<times> rstr) list \<Rightarrow> (rstr, rstr) btree \<Rightarrow> (rstr, rstr) btree" where
  "collect_headers hs acc = fold (\<lambda>(n, v). add_header (to_ascii_lowercase n) v) hs acc"

definition print_head :: "rstr \<Rightarrow> (rstr \<times> rstr) list \<Rightarrow> bytes" where
  "print_head line hs = http_line line @ print_headers hs @ CRLF"

definition head_ok :: "rstr \<Rightarrow> (rstr \<times> rstr) list \<Rightarrow> bool" where
  "head_ok line hs \<longleftrightarrow>
     line_ok line \<and> request_line_ok line \<and> list_all header_ok hs \<and> length hs < MAX_HEADER_LINES
     \<and> str_len line + header_size hs \<le> MAX_HEADER_BYTES"

subsection \<open>Lines\<close>

lemma split_line_at: "CHR 0x0A \<notin> set a \<Longrightarrow> split_line (a @ CHR 0x0A # b) = (a @ [CHR 0x0A], b)"
  by (induction a) auto

lemma utf8_char_small: "utf8_char 13 = [CHR 0x0D]" "utf8_char 10 = [CHR 0x0A]"
  by (simp_all add: utf8_char_ascii char_of_eq_iff take_bit_eq_mod)

lemma valid_small: "c < 0x80 \<Longrightarrow> valid_scalar c"
  by (simp add: valid_scalar_def)

lemma read_http_line_print:
  assumes "line_ok line" "pending r = http_line line @ rest"
  shows "read_http_line r = Inr (Some line, r\<lparr>pending := rest\<rparr>)"
proof -
  let ?l = "utf8_encode line @ [CHR 0x0D]"
  have split: "split_line (pending r) = (?l @ [CHR 0x0A], rest)"
    using assms split_line_at [of ?l rest] newline_utf8_encode [of line]
    by (simp add: line_ok_def http_line_def CRLF_def)
  have "?l @ [CHR 0x0A] = utf8_encode (line @ [13, 10])" by (simp add: utf8_char_small)
  moreover have "valid_text (line @ [13, 10])"
    using assms(1) by (simp add: line_ok_def valid_small)
  ultimately have dec: "utf8_decode (?l @ [CHR 0x0A]) = Some (line @ [13, 10])"
    using utf8_decode_encode by metis
  have "strip_eol (line @ [13, 10]) = line"
    by (simp add: strip_eol_def ends_with_def starts_with_def butlast_append)
  then show ?thesis
    using split dec by (simp add: read_http_line_def read_line_def Let_def)
qed

lemma line_ok_Nil: "line_ok []"
  by (simp add: line_ok_def)

lemma http_line_Nil: "http_line [] = CRLF"
  by (simp add: http_line_def)

lemmas read_blank_line = read_http_line_print [OF line_ok_Nil, unfolded http_line_Nil]

subsection \<open>Heads\<close>

lemma header_name_char_class:
  "header_name_char c \<Longrightarrow> c < 0x80 \<and> c \<noteq> 10 \<and> c \<noteq> 58 \<and> \<not> is_whitespace c \<and> header_name_char (ascii_lower c)"
  by (auto simp: header_name_char_def char_class_defs)

lemma header_line_ok:
  assumes "header_ok h"
  shows "line_ok (header_line h)" "header_line h \<noteq> []"
    and "parse_header_line (header_line h) = Inr (to_ascii_lowercase (fst h), snd h)"
proof -
  have n: "\<And>c. c \<in> set (fst h) \<Longrightarrow> c < 0x80 \<and> c \<noteq> 10 \<and> c \<noteq> 58 \<and> \<not> is_whitespace c
      \<and> header_name_char (ascii_lower c)"
    using assms header_name_char_class by (auto simp: header_ok_def)
  then have "valid_text (fst h)" by (auto simp: valid_text_def intro: valid_small)
  moreover have "10 \<notin> set (snd h)" using assms by (auto simp: header_ok_def is_control_def)
  ultimately show "line_ok (header_line h)"
    using assms n by (auto simp: header_line_def line_ok_def header_ok_def valid_small)
  show "header_line h \<noteq> []" by (simp add: header_line_def)
  have "split_once 58 (header_line h) = Some (fst h, 32 # snd h)"
    unfolding header_line_def by (rule split_once_append) (use n in auto)
  moreover have "trim (fst h) = fst h"
    using n by (intro trimmed_trim trimmed_no_whitespace) auto
  moreover have "trim (32 # snd h) = snd h"
    using trim_padded [of "[32]" "[]" "snd h"] assms by (simp add: header_ok_def is_whitespace_def)
  ultimately show "parse_header_line (header_line h) = Inr (to_ascii_lowercase (fst h), snd h)"
    using assms n
    by (auto simp: parse_header_line_def header_ok_def list_all_iff list_ex_iff to_ascii_lowercase_def)
qed

lemma saturating_add_small: "a + b \<le> MAX_HEADER_BYTES \<Longrightarrow> saturating_add a b = a + b"
  by (rule saturating_add_exact) (simp add: MAX_HEADER_BYTES_def usize_max_def)

lemma read_headers_print:
  assumes "list_all header_ok hs" "length hs < k" "hb + header_size hs \<le> MAX_HEADER_BYTES"
    and "pending r = print_headers hs @ CRLF @ rest"
  shows "read_headers k hb acc r = Inr (True, collect_headers hs acc, r\<lparr>pending := rest\<rparr>)"
  using assms
proof (induction hs arbitrary: k hb acc r)
  case Nil
  then obtain k' where "k = Suc k'" by (cases k) auto
  with Nil show ?case
    by (simp add: print_headers_def header_size_def read_blank_line saturating_add_small
        collect_headers_def str_len_def)
next
  case (Cons h hs)
  then obtain k' where k: "k = Suc k'" by (cases k) auto
  have h: "header_ok h" using Cons.prems(1) by simp
  have sz: "hb + str_len (header_line h) + header_size hs \<le> MAX_HEADER_BYTES"
    using Cons.prems(3) by (simp add: header_size_def)
  let ?r = "r\<lparr>pending := print_headers hs @ CRLF @ rest\<rparr>"
  have "read_http_line r = Inr (Some (header_line h), ?r)"
    using Cons.prems(4) by (intro read_http_line_print header_line_ok h) (simp add: print_headers_def)
  moreover have "read_headers k' (hb + str_len (header_line h))
      (add_header (to_ascii_lowercase (fst h)) (snd h) acc) ?r
      = Inr (True, collect_headers (h # hs) acc, r\<lparr>pending := rest\<rparr>)"
    using Cons.IH [of k' "hb + str_len (header_line h)" ?r] Cons.prems sz k
    by (simp add: collect_headers_def split_beta)
  ultimately show ?case
    using k sz header_line_ok [OF h] by (simp add: saturating_add_small)
qed

lemma read_headers_print_many:
  assumes "list_all header_ok hs" "length hs = k" "hb + header_size hs \<le> MAX_HEADER_BYTES"
    and "pending r = print_headers hs @ rest"
  shows "read_headers k hb acc r = Inr (False, collect_headers hs acc, r\<lparr>pending := rest\<rparr>)"
  using assms
proof (induction hs arbitrary: k hb acc r)
  case Nil
  then show ?case by (simp add: print_headers_def collect_headers_def)
next
  case (Cons h hs)
  then obtain k' where k: "k = Suc k'" by (cases k) auto
  have h: "header_ok h" using Cons.prems(1) by simp
  have sz: "hb + str_len (header_line h) + header_size hs \<le> MAX_HEADER_BYTES"
    using Cons.prems(3) by (simp add: header_size_def)
  let ?r = "r\<lparr>pending := print_headers hs @ rest\<rparr>"
  have "read_http_line r = Inr (Some (header_line h), ?r)"
    using Cons.prems(4) by (intro read_http_line_print header_line_ok h) (simp add: print_headers_def)
  moreover have "read_headers k' (hb + str_len (header_line h))
      (add_header (to_ascii_lowercase (fst h)) (snd h) acc) ?r
      = Inr (False, collect_headers (h # hs) acc, r\<lparr>pending := rest\<rparr>)"
    using Cons.IH [of k' "hb + str_len (header_line h)" ?r] Cons.prems sz k
    by (simp add: collect_headers_def split_beta)
  ultimately show ?case
    using k sz header_line_ok [OF h] by (simp add: saturating_add_small)
qed

text \<open>A well-formed head is read off exactly; what follows is the body reader's.\<close>

lemma read_request_print_head:
  assumes "head_ok line hs"
  shows "read_request \<lparr>pending = print_head line hs @ rest, broken = e\<rparr> m =
    and_then (read_body_of m (collect_headers hs []) \<lparr>pending = rest, broken = e\<rparr>)
      (\<lambda>(body, r). Inr (Some (\<lparr>parsed_headers = collect_headers hs [], parsed_body = body\<rparr>, r)))"
proof -
  let ?r = "\<lparr>pending = print_head line hs @ rest, broken = e\<rparr>"
  let ?rh = "\<lparr>pending = print_headers hs @ CRLF @ rest, broken = e\<rparr>"
  have ok: "line_ok line" "request_line_ok line" "list_all header_ok hs" "length hs < MAX_HEADER_LINES"
    "str_len line + header_size hs \<le> MAX_HEADER_BYTES"
    using assms by (simp_all add: head_ok_def)
  have p: "pending ?r = http_line line @ print_headers hs @ CRLF @ rest"
    by (simp add: print_head_def)
  have "read_http_line ?r = Inr (Some line, ?rh)"
    using read_http_line_print [OF ok(1) p] by simp
  moreover have "read_headers MAX_HEADER_LINES (str_len line) [] ?rh
      = Inr (True, collect_headers hs [], \<lparr>pending = rest, broken = e\<rparr>)"
    using read_headers_print [OF ok(3,4,5), of ?rh rest "[]"] by simp
  ultimately show ?thesis using ok(2,5) by (simp add: read_request_def)
qed

subsection \<open>Bodies\<close>

definition chunked_coding :: "(rstr, rstr) btree \<Rightarrow> bool" where
  "chunked_coding hs \<longleftrightarrow>
     (\<exists>v. bt_get hs (lit ''transfer-encoding'') = Some v
        \<and> (\<exists>x y. to_ascii_lowercase v = x @ lit ''chunked'' @ y))"

lemma read_body_of_cases:
  "chunked_coding hs \<Longrightarrow> read_body_of m hs r = read_chunked_body m [] r"
  "\<not> chunked_coding hs \<Longrightarrow> bt_get hs (lit ''content-length'') = None \<Longrightarrow> read_body_of m hs r = Inr ([], r)"
  "\<not> chunked_coding hs \<Longrightarrow> bt_get hs (lit ''content-length'') = Some v \<Longrightarrow>
     read_body_of m hs r =
       (case parse_usize (trim v) of
          None \<Rightarrow> Inl (BadRequest (lit ''invalid_content_length''))
        | Some len \<Rightarrow> if len > m then Inl TooLarge else map_err Io (read_exact len r))"
  by (auto simp: read_body_of_def chunked_coding_def is_some_and_iff contains_sub_iff split: option.splits)

text \<open>A chunk is its size line, its data, and a line end.\<close>

definition print_chunk :: "rstr \<times> bytes \<Rightarrow> bytes" where
  "print_chunk c = http_line (fst c) @ snd c @ CRLF"

definition chunk_ok :: "rstr \<times> bytes \<Rightarrow> bool" where
  "chunk_ok c \<longleftrightarrow> line_ok (fst c) \<and> snd c \<noteq> [] \<and> chunk_size (fst c) = Some (length (snd c))"

definition print_chunked :: "(rstr \<times> bytes) list \<Rightarrow> rstr \<Rightarrow> rstr list \<Rightarrow> bytes" where
  "print_chunked cs zero trailers =
     concat (map print_chunk cs) @ http_line zero @ concat (map http_line trailers) @ CRLF"

definition chunked_data :: "(rstr \<times> bytes) list \<Rightarrow> bytes" where
  "chunked_data cs = concat (map snd cs)"

lemma read_trailers_print:
  assumes "\<forall>t \<in> set trailers. line_ok t \<and> t \<noteq> []"
    and "pending r = concat (map http_line trailers) @ CRLF @ rest"
  shows "read_trailers r = Inr (r\<lparr>pending := rest\<rparr>)"
  using assms
proof (induction trailers arbitrary: r)
  case Nil
  then show ?case by (subst read_trailers.simps) (simp add: read_blank_line)
next
  case (Cons t ts)
  let ?r = "r\<lparr>pending := concat (map http_line ts) @ CRLF @ rest\<rparr>"
  have "read_http_line r = Inr (Some t, ?r)"
    using Cons.prems by (intro read_http_line_print) auto
  moreover have "read_trailers ?r = Inr (r\<lparr>pending := rest\<rparr>)"
    using Cons.IH [of ?r] Cons.prems by simp
  ultimately show ?case using Cons.prems by (subst read_trailers.simps) simp
qed

lemma read_chunk_print:
  "pending r = data @ CRLF @ rest \<Longrightarrow> read_chunk (length data) r = Inr (data, r\<lparr>pending := rest\<rparr>)"
  by (simp add: read_chunk_def read_exact_def CRLF_def)

lemma read_chunked_body_print:
  assumes "list_all chunk_ok cs" "line_ok zero" "chunk_size zero = Some 0"
    and "\<forall>t \<in> set trailers. line_ok t \<and> t \<noteq> []" "m < usize_max" "length acc \<le> m"
    and "pending r = print_chunked cs zero trailers @ rest"
  shows "read_chunked_body m acc r =
    (if length acc + length (chunked_data cs) \<le> m
     then Inr (acc @ chunked_data cs, r\<lparr>pending := rest\<rparr>) else Inl TooLarge)"
  using assms
proof (induction cs arbitrary: acc r)
  case Nil
  let ?r = "r\<lparr>pending := concat (map http_line trailers) @ CRLF @ rest\<rparr>"
  have p: "pending r = http_line zero @ concat (map http_line trailers) @ CRLF @ rest"
    using Nil.prems(7) by (simp add: print_chunked_def)
  have "read_http_line r = Inr (Some zero, ?r)" by (rule read_http_line_print [OF Nil.prems(2) p])
  moreover have "read_trailers ?r = Inr (r\<lparr>pending := rest\<rparr>)"
    using read_trailers_print [OF Nil.prems(4), of ?r rest] by simp
  ultimately show ?case
    using Nil.prems by (subst read_chunked_body.simps) (simp add: chunked_data_def)
next
  case (Cons c cs)
  obtain sl data where c: "c = (sl, data)" by (cases c)
  have ok: "line_ok sl" "data \<noteq> []" "chunk_size sl = Some (length data)"
    using Cons.prems(1) c by (simp_all add: chunk_ok_def)
  let ?tail = "print_chunked cs zero trailers @ rest"
  let ?ra = "r\<lparr>pending := data @ CRLF @ ?tail\<rparr>"
  let ?rb = "r\<lparr>pending := ?tail\<rparr>"
  have p: "pending r = http_line sl @ data @ CRLF @ ?tail"
    using Cons.prems(7) c by (simp add: print_chunked_def print_chunk_def)
  have line: "read_http_line r = Inr (Some sl, ?ra)" by (rule read_http_line_print [OF ok(1) p])
  have chunk: "read_chunk (length data) ?ra = Inr (data, ?rb)"
    using read_chunk_print [of ?ra data ?tail] by simp
  have data: "chunked_data (c # cs) = data @ chunked_data cs" using c by (simp add: chunked_data_def)
  have cap: "saturating_add (length acc) (length data) > m \<longleftrightarrow> length acc + length data > m"
    using Cons.prems(5) by (auto simp: saturating_add_def)
  show ?case
  proof (cases "length acc + length data > m")
    case True
    with line ok cap data show ?thesis by (subst read_chunked_body.simps) simp
  next
    case False
    then have "read_chunked_body m (acc @ data) ?rb =
        (if length acc + length (chunked_data (c # cs)) \<le> m
         then Inr (acc @ chunked_data (c # cs), r\<lparr>pending := rest\<rparr>) else Inl TooLarge)"
      using Cons.IH [of "acc @ data" ?rb] Cons.prems data by simp
    with False line chunk ok cap show ?thesis by (subst read_chunked_body.simps) simp
  qed
qed

subsection \<open>The reader's contract\<close>

lemma read_body_of_bound:
  "read_body_of m hs r = Inr (body, r') \<Longrightarrow> m < usize_max \<Longrightarrow>
     length body \<le> m \<and> (\<exists>l. pending r = l @ pending r')"
  using read_chunked_body_bound [of m "[]" r body r'] read_chunked_body_suffix [of m "[]" r body r']
  by (fastforce simp: read_body_of_def and_then_eq_Inr dest: read_exact_consumes
      split: if_splits option.splits)

lemma read_request_SomeE:
  assumes "read_request r m = Inr (Some (q, r'))"
  obtains line r0 r1 where "read_http_line r = Inr (Some line, r0)" "request_line_ok line"
    "read_headers MAX_HEADER_LINES (str_len line) [] r0 = Inr (True, parsed_headers q, r1)"
    "read_body_of m (parsed_headers q) r1 = Inr (parsed_body q, r')"
  using assms by (auto simp: read_request_def and_then_eq_Inr split: option.splits if_splits)


text \<open>A sample head, for the witnesses.\<close>

definition sample_line :: rstr where
  "sample_line = lit ''POST /call HTTP/1.1''"

lemma sample_line_ok: "line_ok sample_line" "request_line_ok sample_line" "str_len sample_line = 19"
proof -
  have line: "sample_line = lit ''POST'' @ 32 # lit ''/call'' @ 32 # lit ''HTTP/1.1''"
    by (simp add: sample_line_def lit_Cons)
  have w: "word_text (lit ''POST'')" "word_text (lit ''/call'')" "word_text (lit ''HTTP/1.1'')"
    by (simp_all add: word_text_def lit_Cons is_whitespace_def)
  have "split_whitespace sample_line = [lit ''POST'', lit ''/call'', lit ''HTTP/1.1'']"
    unfolding line split_whitespace_word(1) [OF w(1)] split_whitespace_word(1) [OF w(2)]
      split_whitespace_word(2) [OF w(3)] ..
  then show "request_line_ok sample_line"
    by (simp add: request_line_ok_def starts_with_def lit_Cons)
  have a: "ascii_text sample_line" by (simp add: sample_line_def lit_Cons)
  then show "line_ok sample_line" "str_len sample_line = 19"
    by (simp_all add: line_ok_def ascii_text_valid str_len_ascii) (simp_all add: sample_line_def lit_Cons)
qed

lemma ascii_header_ok:
  assumes "ascii_text n" "ascii_text v" "n \<noteq> []" "\<forall>c \<in> set n. header_name_char c"
    and "trimmed v" "\<forall>c \<in> set v. \<not> is_control c"
  shows "header_ok (n, v)" "str_len (header_line (n, v)) = length n + length v + 2"
  using assms by (simp_all add: header_ok_def header_line_def ascii_text_valid str_len_ascii)

lemma sample_head_ok:
  assumes "n \<in> {lit ''Content-Length'', lit ''Transfer-Encoding''}" "v \<in> {lit ''2'', lit ''chunked''}"
  shows "head_ok sample_line [(n, v)]"
proof -
  have "ascii_text n" "ascii_text v" "n \<noteq> []" "\<forall>c \<in> set n. header_name_char c" "trimmed v"
    "\<forall>c \<in> set v. \<not> is_control c" "length n \<le> 17" "length v \<le> 7"
    using assms by (auto simp: lit_Cons header_name_char_def char_class_defs trimmed_def)
  then show ?thesis
    using ascii_header_ok [of n v] sample_line_ok
    by (simp add: head_ok_def header_size_def MAX_HEADER_LINES_def MAX_HEADER_BYTES_def)
qed

lemma sample_headers:
  "collect_headers [(lit ''Content-Length'', lit ''2'')] [] = [(lit ''content-length'', lit ''2'')]"
  "collect_headers [(lit ''Transfer-Encoding'', lit ''chunked'')] []
     = [(lit ''transfer-encoding'', lit ''chunked'')]"
  by (simp_all add: collect_headers_def add_header_def bt_modify_or_insert_def to_ascii_lowercase_def
      lit_Cons char_class_defs)

lemma lit_two: "lit ''2'' = show_dec 2"
  by (simp add: lit_Cons show_dec.simps)

lemma sample_coding:
  "\<not> chunked_coding [(lit ''content-length'', v)]"
  "chunked_coding [(lit ''transfer-encoding'', lit ''chunked'')]"
  by (auto simp: chunked_coding_def bt_get_def to_ascii_lowercase_def lit_Cons char_class_defs
      intro: exI [of _ "[]"])

text \<open>
  A content-length body is read back exactly: for every well-formed head whose folded headers
  declare the length of the body and no chunked coding, the reader returns those headers and that
  body and leaves the stream at the first byte after it, or answers \<open>TooLarge\<close> when the body
  exceeds the limit, without reading it.
\<close>

theorem read_request_content_length:
  assumes "head_ok line hs" "\<not> chunked_coding (collect_headers hs [])"
    and "bt_get (collect_headers hs []) (lit ''content-length'') = Some (show_dec (length body))"
    and "length body \<le> usize_max"
  shows "read_request \<lparr>pending = print_head line hs @ body @ rest, broken = e\<rparr> m =
    (if length body \<le> m
     then Inr (Some (\<lparr>parsed_headers = collect_headers hs [], parsed_body = body\<rparr>,
                     \<lparr>pending = rest, broken = e\<rparr>))
     else Inl TooLarge)"
  using assms
  by (simp add: read_request_print_head read_body_of_cases parse_usize_show read_exact_def trimmed_trim)

theorem read_request_content_length_witness:
  "read_request \<lparr>pending = print_head sample_line [(lit ''Content-Length'', lit ''2'')] @ ''hi'' @ ''x'',
     broken = False\<rparr> 10 =
   Inr (Some (\<lparr>parsed_headers = [(lit ''content-length'', lit ''2'')], parsed_body = ''hi''\<rparr>,
              \<lparr>pending = ''x'', broken = False\<rparr>))
   \<and> read_request \<lparr>pending = print_head sample_line [(lit ''Content-Length'', lit ''2'')] @ ''hi'' @ ''x'',
     broken = False\<rparr> 1 = Inl TooLarge"
proof -
  have two: "show_dec (length ''hi'') = lit ''2''" by (simp add: lit_two numeral_2_eq_2)
  have len: "bt_get (collect_headers [(lit ''Content-Length'', lit ''2'')] []) (lit ''content-length'')
      = Some (show_dec (length ''hi''))"
    unfolding two sample_headers by (simp add: bt_get_def)
  have "\<not> chunked_coding (collect_headers [(lit ''Content-Length'', lit ''2'')] [])"
    by (simp add: sample_headers sample_coding)
  moreover have "length ''hi'' \<le> usize_max" by (simp add: usize_max_def)
  ultimately show ?thesis
    using read_request_content_length [OF sample_head_ok [of "lit ''Content-Length''" "lit ''2''"] _ len]
    by (simp add: sample_headers)
qed

lemma sample_read:
  "read_request \<lparr>pending = print_head sample_line [(lit ''Content-Length'', lit ''2'')] @ ''hi'',
      broken = False\<rparr> 10 =
   Inr (Some (\<lparr>parsed_headers = [(lit ''content-length'', lit ''2'')], parsed_body = ''hi''\<rparr>,
              \<lparr>pending = [], broken = False\<rparr>))"
  using sample_head_ok [of "lit ''Content-Length''" "lit ''2''"]
  by (simp add: read_request_print_head sample_headers read_body_of_cases sample_coding bt_get_def)
     (simp add: lit_two parse_usize_show usize_max_def trimmed_trim read_exact_def)


text \<open>
  A truncated body is an error, never a shorter body: when the stream ends or breaks before the
  declared length, a request within the limit fails with an I/O error.
\<close>

theorem read_request_truncated:
  assumes "head_ok line hs" "\<not> chunked_coding (collect_headers hs [])"
    and "bt_get (collect_headers hs []) (lit ''content-length'') = Some (show_dec n)"
    and "n \<le> usize_max" "n \<le> m" "length part < n"
  shows "read_request \<lparr>pending = print_head line hs @ part, broken = e\<rparr> m =
    Inl (Io (if e then StreamBroken else UnexpectedEof))"
  using assms
  by (simp add: read_request_print_head read_body_of_cases parse_usize_show read_exact_def trimmed_trim)

theorem read_request_truncated_witness:
  "read_request \<lparr>pending = print_head sample_line [(lit ''Content-Length'', lit ''2'')] @ ''h'',
     broken = False\<rparr> 10 = Inl (Io UnexpectedEof)"
  using read_request_truncated [of sample_line "[(lit ''Content-Length'', lit ''2'')]" 2 10 "''h''" False]
    sample_head_ok [of "lit ''Content-Length''" "lit ''2''"]
  by (simp add: sample_headers sample_coding bt_get_def usize_max_def lit_two [symmetric])

text \<open>
  C0. A chunked body is read back as the concatenation of its chunks, whatever the spelling of the
  sizes, the chunk extensions and the trailers: the reader returns it and leaves the stream right
  after the closing blank line when the total is within the limit, and answers \<open>TooLarge\<close>
  otherwise.
\<close>

theorem read_request_chunked:
  assumes "head_ok line hs" "chunked_coding (collect_headers hs [])"
    and "list_all chunk_ok cs" "line_ok zero" "chunk_size zero = Some 0"
    and "\<forall>t \<in> set trailers. line_ok t \<and> t \<noteq> []" "m < usize_max"
  shows "read_request \<lparr>pending = print_head line hs @ print_chunked cs zero trailers @ rest, broken = e\<rparr> m =
    (if length (chunked_data cs) \<le> m
     then Inr (Some (\<lparr>parsed_headers = collect_headers hs [], parsed_body = chunked_data cs\<rparr>,
                     \<lparr>pending = rest, broken = e\<rparr>))
     else Inl TooLarge)"
  using assms read_chunked_body_print [OF assms(3-7), of "[]"
      "\<lparr>pending = print_chunked cs zero trailers @ rest, broken = e\<rparr>" rest]
  by (simp add: read_request_print_head read_body_of_cases)

theorem read_request_chunked_witness:
  "read_request \<lparr>pending = print_head sample_line [(lit ''Transfer-Encoding'', lit ''chunked'')]
       @ print_chunked [(lit ''A;q=1'', ''0123456789''), (lit '' 01'', ''z'')] (lit ''00'')
           [lit ''x: 1''] @ ''GET'', broken = False\<rparr> 11 =
   Inr (Some (\<lparr>parsed_headers = [(lit ''transfer-encoding'', lit ''chunked'')],
               parsed_body = ''0123456789z''\<rparr>, \<lparr>pending = ''GET'', broken = False\<rparr>))"
proof -
  have sizes: "chunk_size (lit ''A;q=1'') = Some 10" "chunk_size (lit '' 01'') = Some 1"
    "chunk_size (lit ''00'') = Some 0"
    by (simp_all add: chunk_size_def first_segment_def lit_Cons trim_def trim_start_def trim_end_def
        is_whitespace_def from_str_radix_def digit_value_def char_class_defs usize_max_def)
  have "line_ok (lit ''A;q=1'')" "line_ok (lit '' 01'')" "line_ok (lit ''00'')" "line_ok (lit ''x: 1'')"
    by (simp_all add: line_ok_def ascii_text_valid lit_Cons valid_small)
  then show ?thesis
    using read_request_chunked [of sample_line "[(lit ''Transfer-Encoding'', lit ''chunked'')]"
        "[(lit ''A;q=1'', ''0123456789''), (lit '' 01'', ''z'')]" "lit ''00''" "[lit ''x: 1'']" 11
        "''GET''" False] sample_head_ok [of "lit ''Transfer-Encoding''" "lit ''chunked''"]
    by (simp add: sample_headers sample_coding sizes chunk_ok_def chunked_data_def usize_max_def)
qed

text \<open>
  The header block is bounded: a head with 128 or more well-formed header lines is refused with
  \<open>too_many_headers\<close> before anything of the body is looked at.
\<close>

theorem read_request_too_many_headers:
  assumes "line_ok line" "request_line_ok line" "list_all header_ok hs"
    and "length hs = MAX_HEADER_LINES" "str_len line + header_size hs \<le> MAX_HEADER_BYTES"
  shows "read_request \<lparr>pending = http_line line @ print_headers hs @ rest, broken = e\<rparr> m =
    Inl (BadRequest (lit ''too_many_headers''))"
proof -
  let ?rs = "\<lparr>pending = http_line line @ print_headers hs @ rest, broken = e\<rparr>"
  let ?rh = "\<lparr>pending = print_headers hs @ rest, broken = e\<rparr>"
  have "read_http_line ?rs = Inr (Some line, ?rh)"
    using read_http_line_print [OF assms(1), of ?rs "print_headers hs @ rest"] by simp
  then show ?thesis
    using assms read_headers_print_many [OF assms(3,4,5), of ?rh rest "[]"]
    by (simp add: read_request_def)
qed

theorem read_request_too_many_headers_witness:
  "read_request \<lparr>pending = http_line sample_line
       @ print_headers (replicate 128 (lit ''X'', lit ''v'')) @ CRLF, broken = False\<rparr> 1024 =
   Inl (BadRequest (lit ''too_many_headers''))"
proof (rule read_request_too_many_headers)
  have h: "header_ok (lit ''X'', lit ''v'')" "str_len (header_line (lit ''X'', lit ''v'')) = 4"
    using ascii_header_ok [of "lit ''X''" "lit ''v''"]
    by (simp_all add: lit_Cons header_name_char_def char_class_defs trimmed_def)
  then show "list_all header_ok (replicate 128 (lit ''X'', lit ''v''))"
    by (simp add: list_all_iff)
  show "str_len sample_line + header_size (replicate 128 (lit ''X'', lit ''v'')) \<le> MAX_HEADER_BYTES"
    using h(2) sample_line_ok
    by (simp add: header_size_def MAX_HEADER_BYTES_def sum_list_replicate)
qed (simp_all add: sample_line_ok MAX_HEADER_LINES_def)

end
