(* ===== verification/Fn_Prefix.thy ===== *)
theory Fn_Prefix
  imports Fn_Framing
begin

text \<open>
  A request delimits itself (\<^verbatim>\<open>read_request\<close> of \<^verbatim>\<open>oracle_fn/http_stream.rs\<close>): what the reader returns
  depends on the bytes of the request alone, not on what follows it on the stream or on how the
  stream ends, and no stream cut before the end of the request yields one.
\<close>

text \<open>A stream with more to come, and its own way to end.\<close>

definition more_to_come :: "bytes \<Rightarrow> bool \<Rightarrow> reader \<Rightarrow> reader" where
  "more_to_come e b r = \<lparr>pending = pending r @ e, broken = b\<rparr>"

lemma split_line_more:
  "CHR 0x0A \<in> set (fst (split_line bs)) \<Longrightarrow>
     split_line (bs @ e) = (fst (split_line bs), snd (split_line bs) @ e)"
  by (induction bs) (auto split: prod.splits)

lemma split_line_rest: "snd (split_line bs) \<noteq> [] \<Longrightarrow> CHR 0x0A \<in> set (fst (split_line bs))"
  by (induction bs) (auto split: prod.splits)

text \<open>A line that comes out empty had a line feed.\<close>

lemma blank_line_feed:
  assumes "utf8_decode bs = Some s" "s \<noteq> []" "strip_eol s = []"
  shows "CHR 0x0A \<in> set bs"
proof -
  have "10 \<in> set s"
  proof (rule ccontr)
    assume no: "10 \<notin> set s"
    then have "\<not> ends_with s [10]" by (auto simp: ends_with_iff)
    then have "strip_eol s = s" by (simp add: strip_eol_def)
    with assms(2,3) show False by simp
  qed
  moreover have "valid_text s" "utf8_encode s = bs" using utf8_decode_exact [OF assms(1)] by simp_all
  ultimately show ?thesis using newline_utf8_encode [of s] by simp
qed

lemma read_http_line_more:
  assumes "read_http_line r = Inr (Some line, r')" "line = [] \<or> pending r' \<noteq> []"
  shows "read_http_line (more_to_come e b r) = Inr (Some line, more_to_come e b r')"
proof -
  let ?l = "fst (split_line (pending r))" and ?rest = "snd (split_line (pending r))"
  obtain s where s: "utf8_decode ?l = Some s" "?l \<noteq> []" "line = strip_eol s" "r' = r\<lparr>pending := ?rest\<rparr>"
    using assms(1)
    by (auto simp: read_http_line_def and_then_eq_Inr read_line_def Let_def split_beta
        split: if_splits option.splits)
  have "s \<noteq> []" using s(1,2) utf8_decode_exact [OF s(1)] by auto
  then have "CHR 0x0A \<in> set ?l"
    using assms(2) s blank_line_feed [OF s(1)] split_line_rest [of "pending r"] by auto
  then show ?thesis
    using split_line_more [of "pending r" e] s
    by (simp add: read_http_line_def read_line_def more_to_come_def)
qed

lemma read_http_line_pending: "read_http_line r = Inr (Some line, r') \<Longrightarrow> pending r \<noteq> []"
  using read_http_line_Some by fastforce

lemma read_exact_more:
  "read_exact n r = Inr (data, r') \<Longrightarrow>
     read_exact n (more_to_come e b r) = Inr (data, more_to_come e b r')"
  by (auto simp: read_exact_def more_to_come_def split: if_splits)

lemma read_chunk_more:
  assumes "read_chunk n r = Inr (data, r')"
  shows "read_chunk n (more_to_come e b r) = Inr (data, more_to_come e b r')"
proof -
  obtain r1 t where t: "read_exact n r = Inr (data, r1)" "read_exact 2 r1 = Inr (t, r')" "t = [CHR 0x0D, CHR 0x0A]"
    using assms by (auto simp: read_chunk_def and_then_eq_Inr split: if_splits)
  show ?thesis
    using read_exact_more [OF t(1), of e b] read_exact_more [OF t(2), of e b] t(3)
    by (simp add: read_chunk_def)
qed

lemma read_trailers_more:
  "read_trailers r = Inr r' \<Longrightarrow> read_trailers (more_to_come e b r) = Inr (more_to_come e b r')"
proof (induction r rule: read_trailers.induct)
  case (1 r)
  then obtain t r1 where t: "read_http_line r = Inr (Some t, r1)"
    by (subst (asm) (2) read_trailers.simps) (auto split: sum.splits prod.splits option.splits)
  show ?case
  proof (cases "t = []")
    case True
    with "1.prems" t have "r1 = r'" by (subst (asm) read_trailers.simps) auto
    with True t read_http_line_more [OF t, of e b] show ?thesis
      by (subst read_trailers.simps) simp
  next
    case False
    then have r1: "read_trailers r1 = Inr r'" using "1.prems" t by (subst (asm) read_trailers.simps) simp
    then have "pending r1 \<noteq> []"
      by (subst (asm) read_trailers.simps)
         (auto split: sum.splits prod.splits option.splits dest: read_http_line_pending)
    with False t read_http_line_more [OF t, of e b] "1.IH" [OF t refl refl False r1] show ?thesis
      by (subst read_trailers.simps) simp
  qed
qed

lemma read_trailers_pending: "read_trailers r = Inr r' \<Longrightarrow> pending r \<noteq> []"
  by (subst (asm) read_trailers.simps)
     (auto split: sum.splits prod.splits option.splits dest: read_http_line_pending)

lemma read_chunked_body_more:
  "read_chunked_body m body r = Inr (out, r') \<Longrightarrow>
     read_chunked_body m body (more_to_come e b r) = Inr (out, more_to_come e b r')"
proof (induction m body r arbitrary: out r' rule: read_chunked_body.induct)
  case (1 m body r)
  from "1.prems" show ?case
  proof (cases rule: read_chunked_body_cases)
    case (last sl r1)
    then have "read_http_line (more_to_come e b r) = Inr (Some sl, more_to_come e b r1)"
      using read_trailers_pending by (intro read_http_line_more) auto
    with last read_trailers_more [OF last(3), of e b] show ?thesis
      by (subst read_chunked_body.simps) simp
  next
    case (chunk sl r1 k data r2)
    have "pending r1 \<noteq> []" using read_chunk_consumes [OF chunk(5)] by simp
    then have "read_http_line (more_to_come e b r) = Inr (Some sl, more_to_come e b r1)"
      using chunk(1) by (intro read_http_line_more) auto
    with chunk read_chunk_more [OF chunk(5), of e b]
      "1.IH" [OF chunk(1) refl refl chunk(2,3) _ chunk(5) refl chunk(6)]
    show ?thesis by (subst read_chunked_body.simps) simp
  qed
qed

lemma read_headers_pending:
  "read_headers n hb hs r = Inr (True, out, r') \<Longrightarrow> pending r \<noteq> []"
proof (cases n)
  case (Suc k)
  moreover assume "read_headers n hb hs r = Inr (True, out, r')"
  ultimately have "read_headers (Suc k) hb hs r = Inr (True, out, r')" by simp
  then show ?thesis by (cases rule: read_headers_SucE) (auto dest: read_http_line_pending)
qed simp

lemma read_headers_more:
  "read_headers n hb hs r = Inr (True, out, r') \<Longrightarrow>
     read_headers n hb hs (more_to_come e b r) = Inr (True, out, more_to_come e b r')"
proof (induction n arbitrary: hb hs r)
  case 0
  then show ?case by simp
next
  case (Suc n)
  from Suc.prems show ?case
  proof (cases rule: read_headers_SucE)
    case blank
    with Suc.prems read_http_line_more [OF blank(1), of e b] show ?thesis
      by (auto simp: Let_def split: if_splits)
  next
    case (entry line r1 name v hb')
    then have "read_http_line (more_to_come e b r) = Inr (Some line, more_to_come e b r1)"
      using read_headers_pending by (intro read_http_line_more) auto
    with entry Suc.IH [OF entry(6)] show ?thesis by (simp add: Let_def)
  qed
qed

lemma read_body_of_more:
  "read_body_of m hs r = Inr (body, r') \<Longrightarrow>
     read_body_of m hs (more_to_come e b r) = Inr (body, more_to_come e b r')"
  using read_chunked_body_more [of m "[]" r body r' e b]
  by (auto simp: read_body_of_def and_then_eq_Inr dest: read_exact_more [of _ r _ _ e b]
      split: if_splits option.splits)

lemma read_request_more:
  assumes "read_request r m = Inr (Some (q, r'))"
  shows "read_request (more_to_come e b r) m = Inr (Some (q, more_to_come e b r'))"
proof -
  obtain line r0 r1 where q: "read_http_line r = Inr (Some line, r0)" "request_line_ok line"
    "read_headers MAX_HEADER_LINES (str_len line) [] r0 = Inr (True, parsed_headers q, r1)"
    "read_body_of m (parsed_headers q) r1 = Inr (parsed_body q, r')"
    using assms by (rule read_request_SomeE)
  have "\<not> str_len line > MAX_HEADER_BYTES"
    using assms q(1,2) by (auto simp: read_request_def)
  moreover have "read_http_line (more_to_come e b r) = Inr (Some line, more_to_come e b r0)"
    using q(1) read_headers_pending [OF q(3)] by (intro read_http_line_more) auto
  ultimately show ?thesis
    using q(2) read_headers_more [OF q(3), of e b] read_body_of_more [OF q(4), of e b]
    by (simp add: read_request_def)
qed

text \<open>
  C12. A request delimits itself, so requests cannot be smuggled across its end: the request read and
  the bytes left depend on nothing that follows it, neither on further bytes nor on how the stream
  ends, and no stream that stops before its last byte, in whatever way, yields a request at all.
\<close>

theorem read_request_self_delimiting:
  assumes "read_request \<lparr>pending = bs, broken = b\<rparr> m = Inr (Some (q, r'))"
  shows "read_request \<lparr>pending = bs @ more_bytes, broken = b'\<rparr> m
      = Inr (Some (q, \<lparr>pending = pending r' @ more_bytes, broken = b'\<rparr>))
    \<and> (bs = start @ rest \<and> length rest > length (pending r') \<longrightarrow>
        (\<nexists>q' s. read_request \<lparr>pending = start, broken = b'\<rparr> m = Inr (Some (q', s))))"
proof (intro conjI impI notI)
  show "read_request \<lparr>pending = bs @ more_bytes, broken = b'\<rparr> m
      = Inr (Some (q, \<lparr>pending = pending r' @ more_bytes, broken = b'\<rparr>))"
    using read_request_more [OF assms, of more_bytes b'] by (simp add: more_to_come_def)
next
  assume c: "bs = start @ rest \<and> length rest > length (pending r')"
    and "\<exists>q' s. read_request \<lparr>pending = start, broken = b'\<rparr> m = Inr (Some (q', s))"
  then obtain q' s where "read_request \<lparr>pending = start, broken = b'\<rparr> m = Inr (Some (q', s))" by blast
  from read_request_more [OF this, of rest b] c assms
  have "pending r' = pending s @ rest" by (auto simp: more_to_come_def)
  with c show False by simp
qed

theorem read_request_self_delimiting_witness:
  "read_request \<lparr>pending = (print_head sample_line [(lit ''Content-Length'', lit ''2'')] @ ''hi'') @ ''GET'',
      broken = True\<rparr> 10 =
   Inr (Some (\<lparr>parsed_headers = [(lit ''content-length'', lit ''2'')], parsed_body = ''hi''\<rparr>,
              \<lparr>pending = ''GET'', broken = True\<rparr>))
   \<and> (\<nexists>q s. read_request \<lparr>pending = print_head sample_line [(lit ''Content-Length'', lit ''2'')] @ ''h'',
      broken = False\<rparr> 10 = Inr (Some (q, s)))"
  using read_request_self_delimiting [OF sample_read, of "''GET''" True]
    read_request_self_delimiting [OF sample_read, of "[]" False
      "print_head sample_line [(lit ''Content-Length'', lit ''2'')] @ ''h''" "''i''"]
  by simp

end
