(* ===== verification/Fn_Writer.thy ===== *)
theory Fn_Writer
  imports Fn_Framing
begin

text \<open>
  The response writer of the Oracle Functions adapter (\<^verbatim>\<open>oracle_fn/http_stream.rs\<close>, second
  half). A sink keeps what was written and how many bytes its peer still takes (\<open>None\<close>: any
  number); a write beyond that fails after the part that fits, as \<open>write_all\<close> does on a socket
  that closes. Every \<open>?\<close> of the code is a \<open>then_write\<close>.
\<close>

definition ADAPTER_VERSION :: rstr where
  "ADAPTER_VERSION = lit ''scintilla-rust/0.3.0''"

record sink =
  written :: bytes
  budget :: "nat option"

type_synonym write_result = "(io_error + unit) \<times> sink"

definition write_all :: "bytes \<Rightarrow> sink \<Rightarrow> write_result" where
  "write_all bs w =
     (case budget w of
        None \<Rightarrow> (Inr (), w\<lparr>written := written w @ bs\<rparr>)
      | Some n \<Rightarrow>
          if length bs \<le> n
          then (Inr (), w\<lparr>written := written w @ bs, budget := Some (n - length bs)\<rparr>)
          else (Inl WriteFailed, w\<lparr>written := written w @ take n bs, budget := Some 0\<rparr>))"

definition write_text :: "rstr \<Rightarrow> sink \<Rightarrow> write_result" where
  "write_text s w = write_all (utf8_encode s) w"

definition then_write :: "write_result \<Rightarrow> (sink \<Rightarrow> write_result) \<Rightarrow> write_result" where
  "then_write r f = (case r of (Inl e, w) \<Rightarrow> (Inl e, w) | (Inr _, w) \<Rightarrow> f w)"

definition valid_header_name :: "rstr \<Rightarrow> bool" where
  "valid_header_name value \<longleftrightarrow> value \<noteq> [] \<and> list_all header_name_char value"

definition valid_header_value :: "rstr \<Rightarrow> bool" where
  "valid_header_value value \<longleftrightarrow> \<not> list_ex (\<lambda>c. c = 13 \<or> c = 10) value"

definition reason_phrase :: "nat \<Rightarrow> rstr" where
  "reason_phrase status =
     (if status = 200 then lit ''OK'' else if status = 502 then lit ''Bad Gateway'' else lit ''Response'')"

fun write_headers :: "(rstr \<times> rstr) list \<Rightarrow> sink \<Rightarrow> write_result" where
  "write_headers [] w = (Inr (), w)"
| "write_headers ((name, value) # hs) w =
     (if valid_header_name name \<and> valid_header_value value
      then then_write (write_text (name @ lit '': '' @ value @ [13, 10]) w) (write_headers hs)
      else write_headers hs w)"

definition write_http_response :: "nat \<Rightarrow> (rstr, rstr) btree \<Rightarrow> bytes \<Rightarrow> sink \<Rightarrow> write_result" where
  "write_http_response status hs body w =
     then_write (write_text (lit ''HTTP/1.1 '' @ show_dec status @ [32] @ reason_phrase status @ [13, 10]) w)
       (\<lambda>w. then_write (write_headers hs w)
       (\<lambda>w. then_write (write_text (lit ''content-length: '' @ show_dec (length body) @ [13, 10]
                  @ lit ''connection: close'' @ [13, 10, 13, 10]) w)
       (\<lambda>w. write_all body w)))"

definition fn_body :: "serde \<Rightarrow> FunctionResponse \<Rightarrow> bytes" where
  \<open>fn_body S response = unwrap_or (to_vec S (resp_body response)) ''{"error":"serialization_failed"}''\<close>

definition fn_headers :: "FunctionResponse \<Rightarrow> (rstr, rstr) btree" where
  "fn_headers response =
     (let hs = bt_remove (lit ''content-length'') (headers response);
          hs = bt_remove (lit ''connection'') hs;
          hs = bt_or_insert (lit ''content-type'') (lit ''application/json'') hs;
          hs = bt_insert (lit ''fn-http-status'') (show_dec (status_code response)) hs
      in bt_insert (lit ''fn-fdk-version'') ADAPTER_VERSION hs)"

definition write_fn_response :: "serde \<Rightarrow> nat \<Rightarrow> FunctionResponse \<Rightarrow> sink \<Rightarrow> write_result" where
  "write_fn_response S outer_status response w =
     write_http_response outer_status (fn_headers response) (fn_body S response) w"

subsection \<open>One message, one write\<close>

text \<open>The message as a printed head and a body.\<close>

definition status_line :: "nat \<Rightarrow> rstr" where
  "status_line status = lit ''HTTP/1.1 '' @ show_dec status @ [32] @ reason_phrase status"

definition valid_header :: "rstr \<times> rstr \<Rightarrow> bool" where
  "valid_header h \<longleftrightarrow> valid_header_name (fst h) \<and> valid_header_value (snd h)"

definition sent_headers :: "(rstr, rstr) btree \<Rightarrow> bytes \<Rightarrow> (rstr \<times> rstr) list" where
  "sent_headers hs body =
     filter valid_header hs
     @ [(lit ''content-length'', show_dec (length body)), (lit ''connection'', lit ''close'')]"

definition message :: "nat \<Rightarrow> (rstr, rstr) btree \<Rightarrow> bytes \<Rightarrow> bytes" where
  "message status hs body = print_head (status_line status) (sent_headers hs body) @ body"

lemma write_all_then: "then_write (write_all a w) (write_all b) = write_all (a @ b) w"
  by (auto simp: write_all_def then_write_def split: option.splits)

lemma write_all_Nil: "write_all [] w = (Inr (), w)"
  by (cases w; cases "budget w") (simp_all add: write_all_def)

lemma crlf_text: "utf8_encode [13, 10] = CRLF"
  by (simp add: utf8_char_small CRLF_def)

lemma utf8_encode_crlf: "utf8_encode (s @ [13, 10]) = http_line s"
  unfolding http_line_def utf8_encode_simps(3) crlf_text ..

lemma header_text: "utf8_encode (name @ lit '': '' @ value @ [13, 10]) = http_line (header_line (name, value))"
proof -
  have "name @ lit '': '' @ value @ [13, 10] = header_line (name, value) @ [13, 10]"
    by (simp add: header_line_def lit_Cons)
  then show ?thesis by (simp only: utf8_encode_crlf)
qed

lemma write_header:
  "write_text (name @ lit '': '' @ value @ [13, 10]) w = write_all (http_line (header_line (name, value))) w"
  unfolding write_text_def header_text ..

lemma valid_header_pair:
  "valid_header (n, v) \<longleftrightarrow> valid_header_name n \<and> valid_header_value v"
  by (simp add: valid_header_def)

lemma write_headers_eq: "write_headers hs w = write_all (print_headers (filter valid_header hs)) w"
proof (induction hs arbitrary: w)
  case Nil
  then show ?case by (simp add: print_headers_def write_all_Nil)
next
  case (Cons h hs)
  obtain n v where h: "h = (n, v)" by (cases h)
  have "write_headers hs = write_all (print_headers (filter valid_header hs))"
    using Cons.IH by blast
  then show ?case
    by (simp add: h valid_header_pair write_header write_all_then print_headers_def)
qed

lemma tail_text:
  "utf8_encode (lit ''content-length: '' @ show_dec n @ [13, 10] @ lit ''connection: close'' @ [13, 10, 13, 10])
   = print_headers [(lit ''content-length'', show_dec n), (lit ''connection'', lit ''close'')] @ CRLF"
proof -
  have "lit ''content-length: '' @ show_dec n @ [13, 10] @ lit ''connection: close'' @ [13, 10, 13, 10]
    = (header_line (lit ''content-length'', show_dec n) @ [13, 10])
      @ (header_line (lit ''connection'', lit ''close'') @ [13, 10]) @ [13, 10]"
    by (simp add: header_line_def lit_Cons)
  moreover have "utf8_encode ((x @ [13, 10]) @ (y @ [13, 10]) @ [13, 10]) = http_line x @ http_line y @ CRLF"
    for x y
    by (subst utf8_encode_simps(3) [of "x @ [13, 10]"], subst utf8_encode_simps(3) [of "y @ [13, 10]"],
        simp only: utf8_encode_crlf crlf_text)
  ultimately have "utf8_encode (lit ''content-length: '' @ show_dec n @ [13, 10] @ lit ''connection: close''
      @ [13, 10, 13, 10])
    = http_line (header_line (lit ''content-length'', show_dec n))
      @ http_line (header_line (lit ''connection'', lit ''close'')) @ CRLF"
    by (simp only:)
  then show ?thesis by (simp add: print_headers_def)
qed

lemma write_http_response_eq:
  "write_http_response status hs body w = write_all (message status hs body) w"
proof -
  have line: "lit ''HTTP/1.1 '' @ show_dec status @ [32] @ reason_phrase status @ [13, 10]
      = status_line status @ [13, 10]"
    by (simp add: status_line_def)
  have "write_headers hs = write_all (print_headers (filter valid_header hs))"
    by (rule ext) (rule write_headers_eq)
  then have "write_http_response status hs body w =
      then_write (write_all (http_line (status_line status)) w)
        (\<lambda>w. then_write (write_all (print_headers (filter valid_header hs)) w)
        (\<lambda>w. then_write (write_all (print_headers [(lit ''content-length'', show_dec (length body)),
            (lit ''connection'', lit ''close'')] @ CRLF) w) (\<lambda>w. write_all body w)))"
    unfolding write_http_response_def line write_text_def tail_text utf8_encode_crlf by simp
  then show ?thesis
    by (simp add: write_all_then message_def print_head_def sent_headers_def print_headers_def)
qed


lemma write_fn_response_eq:
  "write_fn_response S outer_status response w =
     write_all (message outer_status (fn_headers response) (fn_body S response)) w"
  by (simp add: write_fn_response_def write_http_response_eq)

text \<open>
  The pieces the writer sends one by one are one message: with a peer that takes every byte the
  whole message is sent, and with one that closes after \<open>n\<close> bytes exactly the first \<open>n\<close> bytes
  of it have been sent, and the call fails exactly when the message is longer than that.
\<close>

theorem write_http_response_one_message:
  "write_http_response status hs body \<lparr>written = pre, budget = n\<rparr> =
     (case n of
        None \<Rightarrow> (Inr (), \<lparr>written = pre @ message status hs body, budget = None\<rparr>)
      | Some k \<Rightarrow>
          (if k < length (message status hs body) then Inl WriteFailed else Inr (),
           \<lparr>written = pre @ take k (message status hs body),
            budget = Some (k - length (message status hs body))\<rparr>))"
  by (simp add: write_http_response_eq write_all_def split: option.split)

subsection \<open>Framing\<close>

text \<open>
  A client's view of a response: its head lines up to the first empty line, whether the lines end
  in CRLF or in a bare line feed, and the rest.
\<close>

function head_lines :: "bytes \<Rightarrow> bytes list \<times> bytes" where
  "head_lines bs =
     (case split_line bs of
        (l, r) \<Rightarrow>
          if l = [] then ([], [])
          else if l \<in> {[CHR 0x0A], [CHR 0x0D, CHR 0x0A]} then ([], r)
          else (case head_lines r of (ls, body) \<Rightarrow> (l # ls, body)))"
  by pat_completeness auto
termination
proof (relation "measure length", goal_cases)
  case (2 bs l r)
  have "length r + length l = length bs"
    using split_line_length [of bs] 2(1) by (metis fst_conv snd_conv)
  moreover have "0 < length l" using 2(2) by simp
  ultimately have "length r < length bs" by linarith
  then show ?case by simp
qed simp

declare head_lines.simps [simp del]

lemma split_line_http_line:
  "line_ok l \<Longrightarrow> split_line (http_line l @ rest) = (http_line l, rest)"
  using split_line_at [of "utf8_encode l @ [CHR 0x0D]" rest] newline_utf8_encode [of l]
  by (simp add: line_ok_def http_line_def CRLF_def)

lemma head_lines_print:
  "\<forall>l \<in> set ls. line_ok l \<and> l \<noteq> [] \<Longrightarrow>
   head_lines (concat (map http_line ls) @ CRLF @ body) = (map http_line ls, body)"
proof (induction ls)
  case Nil
  have "split_line (CRLF @ body) = (CRLF, body)"
    using split_line_http_line [OF line_ok_Nil] by (simp add: http_line_Nil)
  then show ?case by (subst head_lines.simps) (simp add: CRLF_def)
next
  case (Cons l ls)
  have "utf8_encode l \<noteq> []" using Cons.prems str_len_eq_0 [of l] by (simp add: str_len_def)
  then have "http_line l \<notin> {[], [CHR 0x0A], [CHR 0x0D, CHR 0x0A]}"
    by (auto simp: http_line_def CRLF_def)
  then show ?case
    using Cons split_line_http_line [of l "concat (map http_line ls) @ CRLF @ body"]
    by (subst head_lines.simps) simp
qed

lemma reason_phrase_ok: "ascii_text (reason_phrase n)" "10 \<notin> set (reason_phrase n)"
  by (auto simp: reason_phrase_def lit_Cons)

lemma show_dec_ascii: "ascii_text (show_dec n)" "10 \<notin> set (show_dec n)"
  by (auto simp: ascii_text_def is_ascii_digit_def dest!: show_dec_digits)

lemma status_line_ok: "line_ok (status_line n)" "status_line n \<noteq> []"
  using reason_phrase_ok [of n] show_dec_ascii [of n]
  by (simp_all add: line_ok_def status_line_def ascii_text_valid valid_small) (auto simp: lit_Cons valid_small)

lemma valid_header_line_ok:
  assumes "valid_header h" "valid_text (snd h)"
  shows "line_ok (header_line h)" "header_line h \<noteq> []"
proof -
  have "\<And>c. c \<in> set (fst h) \<Longrightarrow> c < 0x80 \<and> c \<noteq> 10"
    using assms(1) header_name_char_class
    by (auto simp: valid_header_def valid_header_name_def list_all_iff)
  moreover from this have "valid_text (fst h)" by (auto simp: valid_text_def intro: valid_small)
  ultimately show "line_ok (header_line h)"
    using assms by (auto simp: line_ok_def header_line_def valid_header_def valid_header_value_def
        list_ex_iff valid_small)
  show "header_line h \<noteq> []" by (simp add: header_line_def)
qed

lemma last_headers_valid:
  "valid_header (lit ''content-length'', show_dec n)" "valid_header (lit ''connection'', lit ''close'')"
  using show_dec_digits [of 13 n] show_dec_digits [of 10 n] show_dec_digits [of _ n]
  by (auto simp: valid_header_def valid_header_name_def valid_header_value_def lit_Cons
      header_name_char_def char_class_defs list_ex_iff)

lemma sent_headers_ok:
  "h \<in> set (sent_headers hs body) \<Longrightarrow> \<forall>h \<in> set hs. valid_text (snd h) \<Longrightarrow>
     valid_header h \<and> valid_text (snd h)"
  using last_headers_valid show_dec_ascii
  by (auto simp: sent_headers_def ascii_text_valid) (auto simp: lit_Cons valid_small)

lemma message_lines:
  "message status hs body =
     concat (map http_line (status_line status # map header_line (sent_headers hs body))) @ CRLF @ body"
  by (simp add: message_def print_head_def print_headers_def comp_def)

text \<open>
  C10. A response cannot be split by what its headers contain: whatever header names and texts the
  writer is given, line feeds and blank lines included, a client that reads lines up to the first
  empty one sees exactly the status line, one line for each valid header, the content length of the
  body and \<open>connection: close\<close>, and after them exactly the body.
\<close>

theorem write_http_response_framed:
  assumes "\<forall>h \<in> set hs. valid_text (snd h)"
  shows "head_lines (written (snd (write_http_response status hs body \<lparr>written = [], budget = None\<rparr>)))
    = (map http_line (status_line status # map header_line (filter valid_header hs)
         @ [lit ''content-length: '' @ show_dec (length body), lit ''connection: close'']), body)"
proof -
  let ?ls = "status_line status # map header_line (sent_headers hs body)"
  have "\<forall>l \<in> set ?ls. line_ok l \<and> l \<noteq> []"
    using sent_headers_ok [OF _ assms] valid_header_line_ok status_line_ok by auto
  then have "head_lines (message status hs body) = (map http_line ?ls, body)"
    unfolding message_lines by (rule head_lines_print)
  moreover have "?ls = status_line status # map header_line (filter valid_header hs)
      @ [lit ''content-length: '' @ show_dec (length body), lit ''connection: close'']"
    by (simp add: sent_headers_def header_line_def lit_Cons)
  ultimately show ?thesis by (simp add: write_http_response_eq write_all_def)
qed

theorem write_http_response_framed_witness:
  "head_lines (written (snd (write_http_response 200
       [(lit ''a b'', lit ''x''), (lit ''x-id'', lit ''1'' @ [13, 10, 13, 10] @ lit ''<script>''),
        (lit ''x-ok'', lit ''y'')] ''{}'' \<lparr>written = [], budget = None\<rparr>)))
   = ([''HTTP/1.1 200 OK'' @ CRLF, ''x-ok: y'' @ CRLF, ''content-length: 2'' @ CRLF,
       ''connection: close'' @ CRLF], ''{}'')"
proof -
  let ?hs = "[(lit ''a b'', lit ''x''), (lit ''x-id'', lit ''1'' @ [13, 10, 13, 10] @ lit ''<script>''),
    (lit ''x-ok'', lit ''y'')]"
  have "\<forall>h \<in> set ?hs. valid_text (snd h)" by (simp add: lit_Cons valid_small)
  note w = write_http_response_framed [OF this, of 200 "''{}''"]
  have kept: "filter valid_header ?hs = [(lit ''x-ok'', lit ''y'')]"
    by (simp add: valid_header_def valid_header_name_def valid_header_value_def lit_Cons
        header_name_char_def char_class_defs)
  have first: "status_line 200 = lit ''HTTP/1.1 200 OK''"
    by (simp add: status_line_def reason_phrase_def show_dec.simps lit_Cons)
  have ok: "header_line (lit ''x-ok'', lit ''y'') = lit ''x-ok: y''"
    by (simp add: header_line_def lit_Cons)
  have len: "lit ''content-length: '' @ show_dec (length ''{}'') = lit ''content-length: 2''"
    by (simp add: show_dec.simps lit_Cons)
  have line: "http_line (lit s) = s @ CRLF" if "ascii_text (lit s)" for s
    using that by (simp add: http_line_def utf8_encode_lit)
  have "http_line (lit ''HTTP/1.1 200 OK'') = ''HTTP/1.1 200 OK'' @ CRLF"
    "http_line (lit ''x-ok: y'') = ''x-ok: y'' @ CRLF"
    "http_line (lit ''content-length: 2'') = ''content-length: 2'' @ CRLF"
    "http_line (lit ''connection: close'') = ''connection: close'' @ CRLF"
    by (rule line, simp add: lit_Cons)+
  with w [unfolded kept first len] show ?thesis by (simp add: ok)
qed

end
