(* ===== verification/Fn_Handler.thy ===== *)
theory Fn_Handler
  imports Fn_Writer Http_Adapter
begin

text \<open>
  The connection handler of the Oracle Functions adapter (\<^verbatim>\<open>oracle_fn/mod.rs\<close>): from the
  bytes of one connection to the bytes sent back. A connection is its inbound stream, its sink, and
  the error of \<open>try_clone\<close>, if any. Parameters: the JSON codec \<open>S\<close>, the process id, the clock
  and the text of an I/O error.
\<close>

subsection \<open>Helpers\<close>

definition fn_first_header :: "(rstr, rstr) btree \<Rightarrow> rstr list \<Rightarrow> rstr option" where
  "fn_first_header hs names =
     find_map (\<lambda>name. opt_filter (\<lambda>v. v \<noteq> []) (map_option trim (bt_get hs name))) names"

definition fn_sanitize_request_id :: "rstr \<Rightarrow> rstr option" where
  "fn_sanitize_request_id value =
     (let sanitized = take 128 (filter request_id_char (trim value))
      in if sanitized \<noteq> [] then Some sanitized else None)"

definition fn_generated_request_id :: "nat \<Rightarrow> nat option \<Rightarrow> rstr" where
  "fn_generated_request_id pid clock =
     lit ''scintilla-fn-'' @ show_dec pid @ lit ''-'' @ show_dec (unwrap_or clock 0)"

definition escape_log_value :: "rstr \<Rightarrow> rstr" where
  "escape_log_value value = take 256 (filter (\<lambda>c. \<not> is_control c) value)"

definition default_headers :: "rstr \<Rightarrow> (rstr, rstr) btree" where
  "default_headers rid =
     bt_from [(lit ''cache-control'', lit ''no-store''), (lit ''content-type'', lit ''application/json''),
              (lit ''x-request-id'', rid)]"

definition error_response :: "nat \<Rightarrow> json \<Rightarrow> rstr \<Rightarrow> FunctionResponse" where
  "error_response status body rid =
     \<lparr>status_code = status, headers = default_headers rid, resp_body = body\<rparr>"

definition request_path :: "rstr \<Rightarrow> rstr" where
  "request_path value =
     (let trimmed = trim value;
          path_and_query =
            (case find_sub (lit ''://'') trimmed of
               Some scheme \<Rightarrow>
                 (let authority = drop (scheme + 3) trimmed in
                  case find_sub (lit ''/'') authority of
                    Some index \<Rightarrow> drop index authority
                  | None \<Rightarrow> lit ''/'')
             | None \<Rightarrow> trimmed);
          path = trim (first_segment (\<lambda>c. c = 63 \<or> c = 35) path_and_query)
      in if path = [] then lit ''/''
         else if starts_with path (lit ''/'') then path
         else lit ''/'' @ path)"

subsection \<open>Payloads\<close>

definition validate_structured_cloud_event :: "json \<Rightarrow> rstr + unit" where
  "validate_structured_cloud_event value =
     (if Option.bind (value_get (lit ''specversion'') value) as_str \<noteq> Some (lit ''1.0'')
      then Inl (lit ''unsupported_cloud_event_version'')
      else check_event_fields value [lit ''id'', lit ''source'', lit ''type''])"

fun fn_check_attributes :: "(rstr, rstr) btree \<Rightarrow> (rstr \<times> rstr list) list \<Rightarrow> rstr + unit" where
  "fn_check_attributes hs [] = Inr ()"
| "fn_check_attributes hs ((logical, candidates) # rest) =
     (if fn_first_header hs candidates = None then Inl (lit ''missing_cloud_event_'' @ logical)
      else fn_check_attributes hs rest)"

definition fn_attributes :: "(rstr \<times> rstr list) list" where
  "fn_attributes =
     [(lit ''id'', [lit ''ce-id'', lit ''fn-http-h-ce-id'']),
      (lit ''source'', [lit ''ce-source'', lit ''fn-http-h-ce-source'']),
      (lit ''type'', [lit ''ce-type'', lit ''fn-http-h-ce-type''])]"

definition decode_payload :: "serde \<Rightarrow> (rstr, rstr) btree \<Rightarrow> rstr \<Rightarrow> bytes \<Rightarrow> rstr + json" where
  "decode_payload S hs content_type body =
     (if body = [] then Inr empty_obj
      else
        and_then (ok_or (lit ''invalid_json'') (from_slice S body)) (\<lambda>value.
          if starts_with content_type (lit ''application/cloudevents+json'') then
            and_then (validate_structured_cloud_event value) (\<lambda>_.
              Inr (unwrap_or (value_get (lit ''data'') value) empty_obj))
          else
            and_then
              (case fn_first_header hs [lit ''ce-specversion'', lit ''fn-http-h-ce-specversion''] of
                 Some version \<Rightarrow>
                   if version \<noteq> lit ''1.0'' then Inl (lit ''unsupported_cloud_event_version'')
                   else fn_check_attributes hs fn_attributes
               | None \<Rightarrow> Inr ())
              (\<lambda>_. Inr value)))"

subsection \<open>The connection handler\<close>

record connection =
  clone_error :: "io_error option"
  inbound :: reader
  outbound :: sink

definition fn_request_id :: "nat \<Rightarrow> nat option \<Rightarrow> (rstr, rstr) btree \<Rightarrow> rstr" where
  "fn_request_id pid clock hs =
     unwrap_or
       (Option.bind
          (fn_first_header hs
             [lit ''fn-call-id'', lit ''ce-id'', lit ''fn-http-h-ce-id'', lit ''x-request-id'',
              lit ''fn-http-h-x-request-id'', lit ''traceparent'', lit ''fn-http-h-traceparent''])
          fn_sanitize_request_id)
       (fn_generated_request_id pid clock)"

definition fn_method :: "RouteSpec \<Rightarrow> (rstr, rstr) btree \<Rightarrow> rstr" where
  "fn_method spec hs = unwrap_or (fn_first_header hs [lit ''fn-http-method'']) (spec_method spec)"

definition fn_path :: "RouteSpec \<Rightarrow> (rstr, rstr) btree \<Rightarrow> rstr" where
  "fn_path spec hs =
     unwrap_or (map_option request_path (fn_first_header hs [lit ''fn-http-request-url''])) (spec_path spec)"

definition fn_content_type :: "(rstr, rstr) btree \<Rightarrow> rstr" where
  "fn_content_type hs =
     to_ascii_lowercase
       (unwrap_or (fn_first_header hs [lit ''content-type'', lit ''fn-http-h-content-type'']) [])"

text \<open>From a parsed request to the response: the second half of \<open>handle_stream\<close>.\<close>

definition answer_request ::
  "serde \<Rightarrow> build \<Rightarrow> nat \<Rightarrow> nat option \<Rightarrow> RouteSpec \<Rightarrow> ParsedRequest \<Rightarrow> log_event list \<Rightarrow>
   FunctionResponse \<times> log_event list" where
  "answer_request S b pid clock spec request log =
     (let hs = parsed_headers request;
          rid = fn_request_id pid clock hs
      in case decode_payload S hs (fn_content_type hs) (parsed_body request) of
           Inl error \<Rightarrow> (error_response 400 (json_obj [(lit ''error'', String error)]) rid, log)
         | Inr payload \<Rightarrow>
             dispatch_request b
               \<lparr>req_method = fn_method spec hs, req_path = fn_path spec hs, req_body = payload,
                request_id = rid, event_bytes = length (parsed_body request)\<rparr> spec log)"

definition read_failed_line :: "RouteSpec \<Rightarrow> rstr \<Rightarrow> rstr" where
  \<open>read_failed_line spec error =
     lit ''{"level":"error","event":"oracle_fn_request_read_failed","handler":"'' @ handler spec
     @ lit ''","error":"'' @ escape_log_value error @ lit ''"}''\<close>

definition handle_stream ::
  "serde \<Rightarrow> build \<Rightarrow> nat \<Rightarrow> nat option \<Rightarrow> (io_error \<Rightarrow> rstr) \<Rightarrow> RouteSpec \<Rightarrow> connection \<Rightarrow> log_event list \<Rightarrow>
   write_result \<times> log_event list" where
  "handle_stream S b pid clock show_io spec conn log =
     (case clone_error conn of
        Some e \<Rightarrow> ((Inl e, outbound conn), log)
      | None \<Rightarrow>
          (case read_request (inbound conn) (max_event_bytes spec) of
             Inr None \<Rightarrow> ((Inr (), outbound conn), log)
           | Inl TooLarge \<Rightarrow>
               (write_fn_response S 200
                  (error_response 413 (too_large_body spec) (fn_generated_request_id pid clock))
                  (outbound conn), log)
           | Inl (BadRequest error) \<Rightarrow>
               (write_fn_response S 200
                  (error_response 400 (json_obj [(lit ''error'', String error)])
                     (fn_generated_request_id pid clock))
                  (outbound conn), log)
           | Inl (Io error) \<Rightarrow>
               (write_fn_response S 502
                  (error_response 500 (error_body ''fn_request_read_failed'')
                     (fn_generated_request_id pid clock))
                  (outbound conn), log @ [Stderr (read_failed_line spec (show_io error))])
           | Inr (Some (request, _)) \<Rightarrow>
               (let (response, log') = answer_request S b pid clock spec request log
                in (write_fn_response S 200 response (outbound conn), log'))))"

subsection \<open>The handler as an instance of the adapter interface\<close>

type_synonym fn_call = "nat \<times> nat option \<times> ParsedRequest"

fun fn_normalise :: "serde \<Rightarrow> RouteSpec \<Rightarrow> fn_call \<Rightarrow> FunctionRequest option" where
  "fn_normalise S spec (pid, clock, request) =
     (case decode_payload S (parsed_headers request) (fn_content_type (parsed_headers request))
             (parsed_body request) of
        Inl _ \<Rightarrow> None
      | Inr payload \<Rightarrow>
          Some \<lparr>req_method = fn_method spec (parsed_headers request),
            req_path = fn_path spec (parsed_headers request), req_body = payload,
            request_id = fn_request_id pid clock (parsed_headers request),
            event_bytes = length (parsed_body request)\<rparr>)"

fun fn_reject :: "serde \<Rightarrow> fn_call \<Rightarrow> FunctionResponse" where
  "fn_reject S (pid, clock, request) =
     error_response 400
       (json_obj [(lit ''error'', String (case decode_payload S (parsed_headers request)
             (fn_content_type (parsed_headers request)) (parsed_body request) of Inl e \<Rightarrow> e | Inr _ \<Rightarrow> []))])
       (fn_request_id pid clock (parsed_headers request))"

fun fn_answer :: "serde \<Rightarrow> build \<Rightarrow> RouteSpec \<Rightarrow> fn_call \<Rightarrow> log_event list \<Rightarrow>
    FunctionResponse \<times> log_event list" where
  "fn_answer S b spec (pid, clock, request) log = answer_request S b pid clock spec request log"

lemma answer_request_eq:
  "answer_request S b pid clock spec request log =
     (case fn_normalise S spec (pid, clock, request) of
        Some r \<Rightarrow> dispatch_request b r spec log
      | None \<Rightarrow> (fn_reject S (pid, clock, request), log))"
  by (simp add: answer_request_def Let_def split: sum.splits)

interpretation fn: adapter b spec "fn_normalise S spec" "fn_reject S" "\<lambda>r. r" "fn_answer S b spec"
  for S :: serde and b :: build and spec :: RouteSpec
proof unfold_locales
  show "\<And>e. fn_normalise S spec e = None \<Longrightarrow> status_code (fn_reject S e) \<noteq> 202"
    by (auto simp: error_response_def)
  show "\<And>e r log. fn_normalise S spec e = Some r \<Longrightarrow>
      fn_answer S b spec e log = map_prod (\<lambda>r. r) id (dispatch_request b r spec log)"
    by (auto simp: answer_request_eq map_prod_def split_beta split: sum.splits)
qed (auto simp: answer_request_eq split: sum.splits)

subsection \<open>Correlation and responses\<close>

lemma fn_sanitize_eq: "fn_sanitize_request_id = sanitize_request_id"
  by (rule ext) (simp add: fn_sanitize_request_id_def sanitize_request_id_def)

lemma fn_first_header_eq: "fn_first_header hs = first_header (bt_get hs)"
  by (rule ext) (simp add: fn_first_header_def first_header_def)

lemma fn_generated_safe:
  assumes "pid < 2 ^ 32" "unwrap_or clock 0 < 2 ^ 128"
  shows "safe_id (fn_generated_request_id pid clock)"
proof -
  have "pid < 10 ^ 10" "unwrap_or clock 0 < 10 ^ 39" using assms by simp_all
  then have "length (show_dec pid) \<le> 10" "length (show_dec (unwrap_or clock 0)) \<le> 39"
    by (simp_all add: length_show_dec del: power_numeral)
  then show ?thesis
    by (auto simp: fn_generated_request_id_def safe_id_def dest: show_dec_request_id)
       (auto simp: request_id_char_def char_class_defs lit_Cons)
qed

lemma fn_request_id_safe:
  assumes "pid < 2 ^ 32" "unwrap_or clock 0 < 2 ^ 128"
  shows "safe_id (fn_request_id pid clock hs)"
proof -
  have "safe_id (unwrap_or (Option.bind h sanitize_request_id) (fn_generated_request_id pid clock))" for h
    using fn_generated_safe [OF assms] sanitize_safe
    by (cases "Option.bind h sanitize_request_id") (auto simp: bind_eq_Some_conv)
  then show ?thesis by (simp add: fn_request_id_def fn_sanitize_eq)
qed

lemma error_response_contract:
  "btree_ok (headers (error_response st body rid))"
  "bt_get (headers (error_response st body rid)) k =
     (if k = lit ''x-request-id'' then Some rid
      else if k = lit ''content-type'' then Some (lit ''application/json'')
      else if k = lit ''cache-control'' then Some (lit ''no-store'') else None)"
  "status_code (error_response st body rid) = st" "resp_body (error_response st body rid) = body"
  by (auto simp: error_response_def default_headers_def bt_get_from btree_ok_from)

interpretation err: responder "error_response st body" "\<lambda>rid. rid" for st body
  by unfold_locales (simp_all add: error_response_contract)

fun fn_id :: "fn_call \<Rightarrow> rstr" where
  "fn_id (pid, clock, request) = fn_request_id pid clock (parsed_headers request)"

text \<open>A response whose headers a client may see: token names, visible values.\<close>

definition presentable :: "FunctionResponse \<Rightarrow> bool" where
  "presentable r \<longleftrightarrow>
     btree_ok (headers r) \<and> (\<forall>k v. bt_get (headers r) k = Some v \<longrightarrow> header_token k \<and> visible_text v)"

lemma error_response_presentable: "safe_id rid \<Longrightarrow> presentable (error_response st body rid)"
  using response_names_token [unfolded response_names_def]
  by (auto simp: presentable_def error_response_contract safe_id_visible response_constants_visible
      split: if_splits)

lemma dispatch_presentable:
  "visible_text (spec_method spec) \<Longrightarrow> safe_id (request_id q) \<Longrightarrow>
     presentable (fst (dispatch_request b q spec log))"
  using dispatch_request_contract(1) dispatch_header_visible
  by (fastforce simp: presentable_def dest: bt_get_in_set)

lemma answer_request_cases:
  obtains (dispatched) q where "fn_normalise S spec (pid, clock, request) = Some q"
      "answer_request S b pid clock spec request log = dispatch_request b q spec log"
      "request_id q = fn_request_id pid clock (parsed_headers request)"
  | (rejected) body where "fn_normalise S spec (pid, clock, request) = None"
      "answer_request S b pid clock spec request log =
         (error_response 400 body (fn_request_id pid clock (parsed_headers request)), log)"
proof (cases "decode_payload S (parsed_headers request) (fn_content_type (parsed_headers request))
    (parsed_body request)")
  case (Inl e)
  then show thesis using rejected by (simp add: answer_request_def Let_def)
next
  case (Inr payload)
  then show thesis using dispatched by (simp add: answer_request_def Let_def)
qed

lemma fn_answer_contract:
  "btree_ok (headers (fst (fn_answer S b spec e log)))"
  "bt_get (headers (fst (fn_answer S b spec e log))) (lit ''cache-control'') = Some (lit ''no-store'')"
  "bt_get (headers (fst (fn_answer S b spec e log))) (lit ''content-type'') = Some (lit ''application/json'')"
  "bt_get (headers (fst (fn_answer S b spec e log))) (lit ''x-request-id'') = Some (fn_id e)"
proof -
  obtain pid clock request where e: "e = (pid, clock, request)" by (cases e)
  show "btree_ok (headers (fst (fn_answer S b spec e log)))"
    "bt_get (headers (fst (fn_answer S b spec e log))) (lit ''cache-control'') = Some (lit ''no-store'')"
    "bt_get (headers (fst (fn_answer S b spec e log))) (lit ''content-type'') = Some (lit ''application/json'')"
    "bt_get (headers (fst (fn_answer S b spec e log))) (lit ''x-request-id'') = Some (fn_id e)"
    using e by (cases rule: answer_request_cases [of S spec pid clock request b log];
        simp add: disp.contract err.contract)+
qed

interpretation ans: responder "\<lambda>e. fst (fn_answer S b spec e log)" fn_id for S b spec log
  by unfold_locales (rule fn_answer_contract)+

lemma answer_presentable:
  assumes "visible_text (spec_method spec)" "pid < 2 ^ 32" "unwrap_or clock 0 < 2 ^ 128"
  shows "presentable (fst (answer_request S b pid clock spec request log))"
  using fn_request_id_safe [OF assms(2,3)] assms(1)
  by (cases rule: answer_request_cases [of S spec pid clock request b log])
     (simp_all add: dispatch_presentable error_response_presentable)

lemma fn_headers_get:
  "bt_get (fn_headers r) k =
     (if k = lit ''fn-fdk-version'' then Some ADAPTER_VERSION
      else if k = lit ''fn-http-status'' then Some (show_dec (status_code r))
      else if k = lit ''content-type''
      then Some (unwrap_or (bt_get (headers r) k) (lit ''application/json''))
      else if k = lit ''connection'' \<or> k = lit ''content-length'' then None
      else bt_get (headers r) k)"
  by (auto simp: fn_headers_def Let_def bt_get_laws)

lemma fn_headers_ok: "btree_ok (headers r) \<Longrightarrow> btree_ok (fn_headers r)"
  by (simp add: fn_headers_def Let_def bt_ok)

lemma header_token_name: "header_token k \<Longrightarrow> valid_header_name k"
  by (auto simp: header_token_def valid_header_name_def list_all_iff header_name_char_def
      is_ascii_alphanumeric_def)

lemma visible_value: "visible_text v \<Longrightarrow> valid_header_value v \<and> valid_text v"
  by (auto simp: visible_text_def valid_header_value_def list_ex_iff valid_text_def valid_scalar_def)

lemma show_dec_visible: "visible_text (show_dec n)"
  by (auto simp: visible_text_def char_class_defs dest!: show_dec_digits)

lemma presentable_headers:
  assumes "presentable r" "(k, v) \<in> set (fn_headers r)"
  shows "header_token k \<and> visible_text v"
proof -
  have "bt_get (fn_headers r) k = Some v"
    using assms fn_headers_ok by (auto simp: presentable_def intro: in_set_bt_get)
  moreover have "header_token (lit ''fn-fdk-version'')" "header_token (lit ''fn-http-status'')"
    "header_token (lit ''content-type'')" "visible_text ADAPTER_VERSION"
    by (auto simp: header_token_def visible_text_def ADAPTER_VERSION_def lit_Cons char_class_defs)
  ultimately show ?thesis
    using assms(1) response_constants_visible show_dec_visible
    by (cases "bt_get (headers r) (lit ''content-type'')")
       (auto simp: fn_headers_get presentable_def split: if_splits)
qed

text \<open>A presentable response is sent whole: no header of it is dropped by the writer.\<close>

lemma presentable_sent:
  assumes "presentable r"
  shows "filter valid_header (fn_headers r) = fn_headers r" "\<forall>h \<in> set (fn_headers r). valid_text (snd h)"
  using presentable_headers [OF assms] header_token_name visible_value
  by (auto simp: valid_header_def filter_id_conv)

definition open_sink :: sink where
  "open_sink = \<lparr>written = [], budget = None\<rparr>"

definition well_framed :: "nat \<Rightarrow> serde \<Rightarrow> FunctionResponse \<Rightarrow> bytes \<Rightarrow> bool" where
  "well_framed outer S r out \<longleftrightarrow>
     head_lines out =
       (map http_line (status_line outer # map header_line (fn_headers r)
          @ [lit ''content-length: '' @ show_dec (length (fn_body S r)), lit ''connection: close'']),
        fn_body S r)"

lemma write_fn_response_framed:
  assumes "presentable r"
  shows "\<exists>out. write_fn_response S outer r open_sink = (Inr (), \<lparr>written = out, budget = None\<rparr>)
    \<and> well_framed outer S r out"
proof -
  let ?ls = "status_line outer # map header_line (sent_headers (fn_headers r) (fn_body S r))"
  have "\<forall>l \<in> set ?ls. line_ok l \<and> l \<noteq> []"
    using sent_headers_ok [OF _ presentable_sent(2) [OF assms]] valid_header_line_ok status_line_ok
    by auto
  then have "head_lines (message outer (fn_headers r) (fn_body S r)) = (map http_line ?ls, fn_body S r)"
    unfolding message_lines by (rule head_lines_print)
  moreover have "?ls = status_line outer # map header_line (fn_headers r)
      @ [lit ''content-length: '' @ show_dec (length (fn_body S r)), lit ''connection: close'']"
    using presentable_sent(1) [OF assms] by (simp add: sent_headers_def header_line_def lit_Cons)
  ultimately show ?thesis
    by (simp add: write_fn_response_eq write_all_def open_sink_def well_framed_def)
qed

subsection \<open>One connection, one response\<close>

text \<open>
  C9. Whatever a peer sends, an accepted connection is answered at most once and in full: nothing is
  written for an empty stream, and otherwise one well-framed response whose outer status is 502
  exactly after an I/O error and 200 in every other case, none of whose headers is dropped, and
  which carries a safe correlation identifier and forbids caching.
\<close>

theorem handle_stream_one_response:
  assumes "clone_error conn = None" "outbound conn = open_sink"
    and "visible_text (spec_method spec)" "pid < 2 ^ 32" "unwrap_or clock 0 < 2 ^ 128"
  defines "read \<equiv> read_request (inbound conn) (max_event_bytes spec)"
  shows "\<exists>out log'. handle_stream S b pid clock show_io spec conn log
      = ((Inr (), \<lparr>written = out, budget = None\<rparr>), log')
    \<and> (if read = Inr None then out = []
       else \<exists>r rid. well_framed (if \<exists>e. read = Inl (Io e) then 502 else 200) S r out
          \<and> safe_id rid \<and> bt_get (fn_headers r) (lit ''x-request-id'') = Some rid
          \<and> bt_get (fn_headers r) (lit ''cache-control'') = Some (lit ''no-store''))"
proof -
  let ?g = "fn_generated_request_id pid clock"
  have g: "safe_id ?g" using assms(4,5) by (rule fn_generated_safe)
  have send: "\<exists>out. write_fn_response S outer r open_sink = (Inr (), \<lparr>written = out, budget = None\<rparr>)
      \<and> (\<exists>r rid. well_framed outer S r out \<and> safe_id rid
          \<and> bt_get (fn_headers r) (lit ''x-request-id'') = Some rid
          \<and> bt_get (fn_headers r) (lit ''cache-control'') = Some (lit ''no-store''))"
    if "presentable r" "safe_id rid" "bt_get (headers r) (lit ''x-request-id'') = Some rid"
      "bt_get (headers r) (lit ''cache-control'') = Some (lit ''no-store'')" for outer r rid
    using write_fn_response_framed [OF that(1), of S outer] that(2-4) by (fastforce simp: fn_headers_get)
  note send_error = send [OF error_response_presentable [OF g] g err.correlated err.no_store]
  show ?thesis
  proof (cases "read_request (inbound conn) (max_event_bytes spec)")
    case (Inl e)
    then show ?thesis
      using assms(1,2) send_error unfolding read_def
      by (cases e) (fastforce simp: handle_stream_def)+
  next
    case (Inr res)
    show ?thesis
    proof (cases res)
      case None
      with Inr assms(1,2) show ?thesis by (simp add: handle_stream_def read_def open_sink_def)
    next
      case (Some p)
      obtain q r' where p: "p = (q, r')" by (cases p)
      let ?id = "fn_request_id pid clock (parsed_headers q)"
      let ?r = "fst (answer_request S b pid clock spec q log)"
      have "bt_get (headers ?r) (lit ''x-request-id'') = Some ?id"
        "bt_get (headers ?r) (lit ''cache-control'') = Some (lit ''no-store'')"
        using ans.correlated [of S b spec "(pid, clock, q)" log]
          ans.no_store [of S b spec "(pid, clock, q)" log] by simp_all
      note send [OF answer_presentable [OF assms(3-5)] fn_request_id_safe [OF assms(4,5)] this, of 200]
      with Inr Some p assms(1,2) show ?thesis
        by (fastforce simp: handle_stream_def read_def split_beta)
    qed
  qed
qed

text \<open>
  C14. The inner status tells the truth: for a request the reader delivers, the bytes sent are the
  message of a response whose \<open>fn-http-status\<close> header is its status code, that code is 202
  exactly when the request is decoded to an acceptable one for the route, and exactly then an
  accept event is logged.
\<close>

theorem handle_stream_accepts_iff:
  assumes "clone_error conn = None" "outbound conn = open_sink"
    and "read_request (inbound conn) (max_event_bytes spec) = Inr (Some (q, rest))"
  shows "\<exists>r log'. handle_stream S b pid clock show_io spec conn log
      = ((Inr (), \<lparr>written = message 200 (fn_headers r) (fn_body S r), budget = None\<rparr>), log')
    \<and> bt_get (fn_headers r) (lit ''fn-http-status'') = Some (show_dec (status_code r))
    \<and> (status_code r = 202 \<longleftrightarrow>
        (\<exists>n. fn_normalise S spec (pid, clock, q) = Some n \<and> acceptable spec n))
    \<and> length log' = length log
        + (if status_code r = 202 \<and> (feature_aws b \<or> feature_http b) then 1 else 0)"
proof -
  let ?a = "answer_request S b pid clock spec q log"
  have "handle_stream S b pid clock show_io spec conn log
      = ((Inr (), \<lparr>written = message 200 (fn_headers (fst ?a)) (fn_body S (fst ?a)), budget = None\<rparr>), snd ?a)"
    using assms by (simp add: handle_stream_def split_beta write_fn_response_eq write_all_def open_sink_def)
  moreover have "status_code (fst ?a) = 202 \<longleftrightarrow>
      (\<exists>n. fn_normalise S spec (pid, clock, q) = Some n \<and> acceptable spec n)"
    using fn.answer_status [of S b spec "(pid, clock, q)" log] by (simp add: fn.admits_def)
  moreover from this have "length (snd ?a) = length log
      + (if status_code (fst ?a) = 202 \<and> (feature_aws b \<or> feature_http b) then 1 else 0)"
    using fn.answer_log_length [of S b spec "(pid, clock, q)" log] by (simp add: fn.admits_def)
  ultimately show ?thesis by (auto simp: fn_headers_get)
qed

theorem handle_stream_one_response_witness:
  "\<exists>out log' r rid. handle_stream null_serde \<lparr>feature_aws = False, feature_http = False\<rparr> 7 None (\<lambda>_. [])
       sample_spec \<lparr>clone_error = None, inbound = \<lparr>pending = http_line (lit ''GARBAGE''), broken = True\<rparr>,
         outbound = open_sink\<rparr> [] = ((Inr (), \<lparr>written = out, budget = None\<rparr>), log')
     \<and> well_framed 200 null_serde r out \<and> safe_id rid
     \<and> bt_get (fn_headers r) (lit ''x-request-id'') = Some rid"
proof -
  let ?in = "\<lparr>pending = http_line (lit ''GARBAGE''), broken = True\<rparr>"
  let ?c = "\<lparr>clone_error = None, inbound = ?in, outbound = open_sink\<rparr>"
  have line: "line_ok (lit ''GARBAGE'')" by (simp add: line_ok_def lit_Cons valid_small)
  have "word_text (lit ''GARBAGE'')" by (simp add: word_text_def lit_Cons is_whitespace_def)
  then have "\<not> request_line_ok (lit ''GARBAGE'')"
    by (simp add: request_line_ok_def split_whitespace_word(2))
  then have rd: "read_request ?in (max_event_bytes sample_spec)
      = Inl (BadRequest (lit ''invalid_http_request_line''))"
    using read_http_line_print [OF line, of ?in "[]"] by (simp add: read_request_def)
  have "visible_text (spec_method sample_spec)"
    by (simp add: sample_spec_def route_spec_new_def visible_text_def lit_Cons)
  then show ?thesis
    using handle_stream_one_response [of ?c sample_spec 7 None null_serde
        "\<lparr>feature_aws = False, feature_http = False\<rparr>" "\<lambda>_. []" "[]"] rd
    by (fastforce simp: rd)
qed

subsection \<open>A well-formed call is accepted\<close>

lemma fn_call_served:
  assumes "head_ok line hs" "\<not> chunked_coding (collect_headers hs [])"
    and "bt_get (collect_headers hs []) (lit ''content-length'') = Some (show_dec (length body))"
    and "length body \<le> max_event_bytes spec" "length body \<le> usize_max"
    and "decode_payload S (collect_headers hs []) (fn_content_type (collect_headers hs [])) body = Inr payload"
    and "has_required_value payload (required_field spec)"
    and "eq_ignore_ascii_case (fn_method spec (collect_headers hs [])) (spec_method spec)"
    and "fn_path spec (collect_headers hs []) = spec_path spec"
    and "clone_error conn = None" "outbound conn = open_sink"
    and "inbound conn = \<lparr>pending = print_head line hs @ body @ rest, broken = e\<rparr>"
  shows "\<exists>r log'. handle_stream S b pid clock show_io spec conn log
      = ((Inr (), \<lparr>written = message 200 (fn_headers r) (fn_body S r), budget = None\<rparr>), log')
    \<and> bt_get (fn_headers r) (lit ''fn-http-status'') = Some (lit ''202'')
    \<and> resp_body r = json_obj
        [(lit ''accepted'', Bool True), (lit ''handler'', String (handler spec)),
         (lit ''request_id'', String (fn_request_id pid clock (collect_headers hs []))),
         (lit ''route'', String (spec_path spec))]
    \<and> (visible_text (spec_method spec) \<and> safe_id (fn_request_id pid clock (collect_headers hs [])) \<longrightarrow> presentable r)
    \<and> bt_get (fn_headers r) (lit ''x-request-id'') = Some (fn_request_id pid clock (collect_headers hs []))"
proof -
  let ?hs = "collect_headers hs []"
  let ?q = "\<lparr>parsed_headers = ?hs, parsed_body = body\<rparr>"
  let ?n = "\<lparr>req_method = fn_method spec ?hs, req_path = fn_path spec ?hs, req_body = payload,
    request_id = fn_request_id pid clock ?hs, event_bytes = length body\<rparr>"
  have "read_request (inbound conn) (max_event_bytes spec)
      = Inr (Some (?q, \<lparr>pending = rest, broken = e\<rparr>))"
    using assms(1-5,12)
    by (simp add: read_request_print_head read_body_of_cases parse_usize_show read_exact_def trimmed_trim)
  then have "handle_stream S b pid clock show_io spec conn log =
      (let (response, log') = answer_request S b pid clock spec ?q log
       in (write_fn_response S 200 response open_sink, log'))"
    using assms(10,11) by (simp add: handle_stream_def)
  moreover have "answer_request S b pid clock spec ?q log = dispatch_request b ?n spec log"
    using assms(6) by (simp add: answer_request_def Let_def)
  moreover have "status_code (fst (dispatch_request b ?n spec log)) = 202"
    "resp_body (fst (dispatch_request b ?n spec log)) = json_obj
        [(lit ''accepted'', Bool True), (lit ''handler'', String (handler spec)),
         (lit ''request_id'', String (fn_request_id pid clock ?hs)),
         (lit ''route'', String (spec_path spec))]"
    using assms(4,7,8,9) by (simp_all add: dispatch_request_def Let_def)
  moreover have "visible_text (spec_method spec) \<and> safe_id (fn_request_id pid clock ?hs) \<longrightarrow>
      presentable (fst (dispatch_request b ?n spec log))"
    by (simp add: dispatch_presentable)
  moreover have "bt_get (fn_headers (fst (dispatch_request b ?n spec log))) (lit ''x-request-id'')
      = Some (fn_request_id pid clock ?hs)"
    using dispatch_request_contract(4) [of b ?n spec log] by (simp add: fn_headers_get)
  moreover have "bt_get (fn_headers (fst (dispatch_request b ?n spec log))) (lit ''fn-http-status'')
      = Some (lit ''202'')"
    using calculation(3) by (simp add: fn_headers_get show_dec.simps lit_Cons)
  ultimately show ?thesis
    by (intro exI [of _ "fst (dispatch_request b ?n spec log)"]
        exI [of _ "snd (dispatch_request b ?n spec log)"])
       (simp add: split_beta write_fn_response_eq write_all_def open_sink_def)
qed

text \<open>
  C19. A well-formed Fn call for the route is accepted: a POST head whose folded headers declare the
  length of a body within the limit, whose body decodes to an object with the required field, and
  whose method and request URL, where given, are the route's, is answered 200 with inner status
  202 and the handler, route and correlation identifier in the body.
\<close>

theorem fn_call_accepted:
  assumes "head_ok line hs" "\<not> chunked_coding (collect_headers hs [])"
    and "bt_get (collect_headers hs []) (lit ''content-length'') = Some (show_dec (length body))"
    and "length body \<le> max_event_bytes spec" "length body \<le> usize_max"
    and "decode_payload S (collect_headers hs []) (fn_content_type (collect_headers hs [])) body = Inr payload"
    and "has_required_value payload (required_field spec)"
    and "eq_ignore_ascii_case (fn_method spec (collect_headers hs [])) (spec_method spec)"
    and "fn_path spec (collect_headers hs []) = spec_path spec"
    and "clone_error conn = None" "outbound conn = open_sink"
    and "inbound conn = \<lparr>pending = print_head line hs @ body @ rest, broken = e\<rparr>"
  shows "\<exists>r log'. handle_stream S b pid clock show_io spec conn log
      = ((Inr (), \<lparr>written = message 200 (fn_headers r) (fn_body S r), budget = None\<rparr>), log')
    \<and> bt_get (fn_headers r) (lit ''fn-http-status'') = Some (lit ''202'')
    \<and> resp_body r = json_obj
        [(lit ''accepted'', Bool True), (lit ''handler'', String (handler spec)),
         (lit ''request_id'', String (fn_request_id pid clock (collect_headers hs []))),
         (lit ''route'', String (spec_path spec))]"
  using fn_call_served [OF assms, of b pid clock show_io log] by blast

definition sample_document :: json where
  "sample_document = json_obj [(lit ''document_id'', String (lit ''1''))]"

definition document_serde :: serde where
  "document_serde = null_serde\<lparr>from_slice := \<lambda>bs. if bs = ''hi'' then Some sample_document else None\<rparr>"

definition sample_call :: connection where
  "sample_call = \<lparr>clone_error = None,
     inbound = \<lparr>pending = print_head sample_line [(lit ''Content-Length'', lit ''2'')] @ ''hi'' @ [],
                broken = False\<rparr>, outbound = open_sink\<rparr>"

lemma sample_call_headers:
  defines "hs \<equiv> collect_headers [(lit ''Content-Length'', lit ''2'')] []"
  shows "\<not> chunked_coding hs" "bt_get hs (lit ''content-length'') = Some (show_dec (length ''hi''))"
    and "decode_payload document_serde hs (fn_content_type hs) ''hi'' = Inr sample_document"
    and "fn_method sample_spec hs = spec_method sample_spec" "fn_path sample_spec hs = spec_path sample_spec"
proof -
  have hs: "hs = [(lit ''content-length'', lit ''2'')]" by (simp add: hs_def sample_headers)
  show "\<not> chunked_coding hs" by (simp add: hs sample_coding)
  have "show_dec (length ''hi'') = lit ''2''" by (simp add: lit_two numeral_2_eq_2)
  then show "bt_get hs (lit ''content-length'') = Some (show_dec (length ''hi''))"
    by (simp add: hs bt_get_def)
  have none: "fn_first_header hs ks = None" if "lit ''content-length'' \<notin> set ks" for ks
    using that by (auto simp: fn_first_header_def find_map_eq_None hs bt_get_def)
  then show "fn_method sample_spec hs = spec_method sample_spec" "fn_path sample_spec hs = spec_path sample_spec"
    by (simp_all add: fn_method_def fn_path_def)
  have "fn_content_type hs = []" by (simp add: fn_content_type_def none to_ascii_lowercase_def)
  then show "decode_payload document_serde hs (fn_content_type hs) ''hi'' = Inr sample_document"
    by (simp add: decode_payload_def document_serde_def none starts_with_def)
qed

lemma sample_document_has: "has_required_value sample_document (required_field sample_spec)"
proof -
  have "trim (lit ''1'') = lit ''1''"
    by (rule trimmed_trim) (simp add: trimmed_def lit_Cons is_whitespace_def)
  then show ?thesis
    by (simp add: has_required_value_def sample_document_def sample_spec_def route_spec_new_def
        json_obj_def as_object_def bt_get_from)
qed

lemma sample_limits:
  "length ''hi'' \<le> max_event_bytes sample_spec" "length ''hi'' \<le> usize_max"
  by (simp_all add: sample_spec_def route_spec_new_def DEFAULT_MAX_EVENT_BYTES_def usize_max_def)

theorem fn_call_accepted_witness:
  "\<exists>r log'. handle_stream document_serde \<lparr>feature_aws = False, feature_http = True\<rparr> 7 (Some 5) (\<lambda>_. [])
       sample_spec sample_call []
     = ((Inr (), \<lparr>written = message 200 (fn_headers r) (fn_body document_serde r), budget = None\<rparr>), log')
   \<and> bt_get (fn_headers r) (lit ''fn-http-status'') = Some (lit ''202'')"
proof -
  note fn_call_accepted [of sample_line "[(lit ''Content-Length'', lit ''2'')]" "''hi''" sample_spec
      document_serde sample_document sample_call "[]" False "\<lparr>feature_aws = False, feature_http = True\<rparr>"
      7 "Some 5" "\<lambda>_. []" "[]",
      OF sample_head_ok sample_call_headers(1,2) sample_limits sample_call_headers(3) sample_document_has]
  then show ?thesis
    using sample_call_headers(4,5)
    by (fastforce simp: sample_call_def eq_ignore_ascii_case_equiv)
qed

theorem handle_stream_accepts_iff_witness:
  "\<exists>r. written (snd (fst (handle_stream document_serde \<lparr>feature_aws = False, feature_http = True\<rparr> 7 (Some 5)
         (\<lambda>_. []) sample_spec sample_call [])))
       = message 200 (fn_headers r) (fn_body document_serde r)
     \<and> status_code r = 202"
proof -
  let ?hs = "collect_headers [(lit ''Content-Length'', lit ''2'')] []"
  let ?q = "\<lparr>parsed_headers = ?hs, parsed_body = ''hi''\<rparr>"
  have "read_request (inbound sample_call) (max_event_bytes sample_spec)
      = Inr (Some (?q, \<lparr>pending = [], broken = False\<rparr>))"
    using sample_head_ok [of "lit ''Content-Length''" "lit ''2''"] sample_call_headers(1,2)
      parse_usize_show [OF sample_limits(2)] sample_limits(1)
    by (simp add: sample_call_def read_request_print_head read_body_of_cases read_exact_def trimmed_trim)
  from handle_stream_accepts_iff [OF _ _ this, of document_serde "\<lparr>feature_aws = False, feature_http = True\<rparr>"
      7 "Some 5" "\<lambda>_. []" "[]"]
  obtain r log' where r: "handle_stream document_serde \<lparr>feature_aws = False, feature_http = True\<rparr> 7 (Some 5)
      (\<lambda>_. []) sample_spec sample_call []
    = ((Inr (), \<lparr>written = message 200 (fn_headers r) (fn_body document_serde r), budget = None\<rparr>), log')"
    "status_code r = 202 \<longleftrightarrow>
        (\<exists>n. fn_normalise document_serde sample_spec (7, Some 5, ?q) = Some n \<and> acceptable sample_spec n)"
    by (auto simp: sample_call_def)
  have "acceptable sample_spec \<lparr>req_method = spec_method sample_spec, req_path = spec_path sample_spec,
      req_body = sample_document, request_id = fn_request_id 7 (Some 5) ?hs, event_bytes = length ''hi''\<rparr>"
    using sample_document_has sample_limits(1) by (simp add: acceptable_iff eq_ignore_ascii_case_equiv)
  then have "status_code r = 202" using r(2) sample_call_headers(3-5) by simp
  with r(1) show ?thesis by auto
qed

subsection \<open>Request paths\<close>

text \<open>
  Every request path is absolute and free of query and fragment: \<open>request_path\<close> returns a
  trimmed text that starts with a slash and contains neither a question mark nor a hash sign, even
  for an empty, a relative or a malformed URL.
\<close>

theorem request_path_shape:
  "starts_with (request_path value) (lit ''/'') \<and> 63 \<notin> set (request_path value)
   \<and> 35 \<notin> set (request_path value) \<and> trimmed (request_path value)"
proof -
  define path where "path = (\<lambda>t. trim (first_segment (\<lambda>c. c = 63 \<or> c = 35) t))"
  have no: "\<not> (c = 63 \<or> c = 35)" if "c \<in> set (path t)" for c t
    using first_segment_no subsetD [OF set_trim that [unfolded path_def]] by (rule bspec)
  have path: "63 \<notin> set (path t) \<and> 35 \<notin> set (path t) \<and> trimmed (path t)" for t
    using no [of 63 t] no [of 35 t] by (simp add: path_def trim_trimmed) blast
  have root: "lit ''/'' = [47]" by (simp add: lit_Cons)
  define result where "result = (\<lambda>t. if path t = [] then lit ''/''
     else if starts_with (path t) (lit ''/'') then path t else lit ''/'' @ path t)"
  have "starts_with (result t) (lit ''/'') \<and> 63 \<notin> set (result t) \<and> 35 \<notin> set (result t) \<and> trimmed (result t)" for t
    using path [of t] unfolding result_def root
    by (cases "path t = []") (simp_all add: starts_with_def trimmed_def is_whitespace_def)
  moreover have "\<exists>t. request_path value = result t"
    unfolding request_path_def result_def path_def Let_def by blast
  ultimately show ?thesis by metis
qed

definition url_part :: "rstr \<Rightarrow> bool" where
  "url_part s \<longleftrightarrow> (\<forall>c \<in> set s. \<not> is_whitespace c \<and> c \<noteq> 63 \<and> c \<noteq> 35)"

definition url_suffix :: "rstr \<Rightarrow> bool" where
  "url_suffix s \<longleftrightarrow> (\<forall>c \<in> set s. \<not> is_whitespace c) \<and> (s = [] \<or> hd s = 63 \<or> hd s = 35)"

lemma request_path_of_segment:
  assumes "url_part (47 # p)" "url_suffix s"
  shows "trim (first_segment (\<lambda>c. c = 63 \<or> c = 35) (47 # p @ s)) = 47 # p"
proof -
  have "first_segment (\<lambda>c. c = 63 \<or> c = 35) ((47 # p) @ s) = 47 # p"
    using assms by (intro first_segment_append) (auto simp: url_part_def url_suffix_def)
  moreover have "trim (47 # p) = 47 # p"
    using assms(1) by (intro trimmed_trim trimmed_no_whitespace) (auto simp: url_part_def)
  ultimately show ?thesis by simp
qed

lemma request_path_forms:
  assumes "url_part (47 # p)" "url_suffix s"
    and "\<forall>c \<in> set u. is_whitespace c" "\<forall>c \<in> set v. is_whitespace c"
  shows "\<not> contains_sub (lit ''://'') (47 # p @ s) \<longrightarrow> request_path (u @ (47 # p @ s) @ v) = 47 # p"
    and "url_part scheme \<and> 58 \<notin> set scheme \<and> url_part authority \<and> 47 \<notin> set authority \<longrightarrow>
      request_path (u @ (scheme @ lit ''://'' @ authority @ 47 # p @ s) @ v) = 47 # p"
proof -
  let ?q = "47 # p @ s"
  note seg = request_path_of_segment [OF assms(1,2)]
  have ws: "\<And>c. c \<in> set ?q \<Longrightarrow> \<not> is_whitespace c"
    using assms(1,2) by (auto simp: url_part_def url_suffix_def)
  have root: "lit ''/'' = [47]" by (simp add: lit_Cons)
  have fin: "(if 47 # p = [] then lit ''/'' else if starts_with (47 # p) (lit ''/'') then 47 # p
      else lit ''/'' @ 47 # p) = 47 # p"
    unfolding root by (simp add: starts_with_def)
  show "\<not> contains_sub (lit ''://'') ?q \<longrightarrow> request_path (u @ ?q @ v) = 47 # p"
  proof
    assume "\<not> contains_sub (lit ''://'') ?q"
    then have none: "find_sub (lit ''://'') ?q = None" by (rule find_sub_None)
    have t: "trim (u @ ?q @ v) = ?q"
      using ws by (intro trim_padded assms trimmed_no_whitespace) blast
    show "request_path (u @ ?q @ v) = 47 # p"
      unfolding request_path_def Let_def t none option.case seg fin ..
  qed
  show "url_part scheme \<and> 58 \<notin> set scheme \<and> url_part authority \<and> 47 \<notin> set authority \<longrightarrow>
      request_path (u @ (scheme @ lit ''://'' @ authority @ ?q) @ v) = 47 # p"
  proof
    assume a: "url_part scheme \<and> 58 \<notin> set scheme \<and> url_part authority \<and> 47 \<notin> set authority"
    let ?t = "scheme @ lit ''://'' @ authority @ ?q"
    have "\<forall>c \<in> set scheme. \<not> is_whitespace c" "\<forall>c \<in> set authority. \<not> is_whitespace c"
      "\<forall>c \<in> set (lit ''://''). \<not> is_whitespace c" "\<forall>c \<in> set ?q. \<not> is_whitespace c"
      using a ws by (simp_all add: url_part_def lit_Cons is_whitespace_def)
    then have "\<forall>c \<in> set ?t. \<not> is_whitespace c" unfolding set_append ball_Un by blast
    then have t: "trim (u @ ?t @ v) = ?t"
      by (intro trim_padded assms(3,4) trimmed_no_whitespace)
    have sep: "find_sub (lit ''://'') ?t = Some (length scheme)"
      using a by (intro find_sub_first) (simp_all add: lit_Cons)
    have rest: "drop (length scheme + 3) ?t = authority @ ?q" by (simp add: lit_Cons)
    have "find_sub [47] (authority @ [47] @ p @ s) = Some (length authority)"
      using a by (intro find_sub_first) simp_all
    then have slash: "find_sub (lit ''/'') (authority @ ?q) = Some (length authority)"
      unfolding root by simp
    have path: "drop (length authority) (authority @ ?q) = ?q" by simp
    show "request_path (u @ ?t @ v) = 47 # p"
      unfolding request_path_def Let_def t sep option.case rest slash path seg fin ..
  qed
qed

text \<open>
  The separator is looked for in the whole URL: an absolute URL inside a query replaces the path.
\<close>

lemma request_path_scheme_in_query:
  "request_path (lit ''/public?next=https://h/api/heavy/case-export'') = lit ''/api/heavy/case-export''"
  by (simp add: request_path_def lit_Cons trim_def trim_start_def trim_end_def is_whitespace_def
      first_segment_def starts_with_def)

text \<open>
  The path of a URL is extracted exactly, with or without surrounding white space: from the
  origin form \<open>/path?query\<close> as long as no scheme separator occurs in it, and from the absolute
  form \<open>scheme://authority/path?query\<close> whatever the path and the query contain.
\<close>

theorem request_path_exact:
  assumes "url_part (47 # p)" "url_suffix s"
    and "\<forall>c \<in> set u. is_whitespace c" "\<forall>c \<in> set v. is_whitespace c"
  shows "(\<not> contains_sub (lit ''://'') (47 # p @ s) \<longrightarrow> request_path (u @ (47 # p @ s) @ v) = 47 # p)
    \<and> (url_part scheme \<and> 58 \<notin> set scheme \<and> url_part authority \<and> 47 \<notin> set authority \<longrightarrow>
         request_path (u @ (scheme @ lit ''://'' @ authority @ 47 # p @ s) @ v) = 47 # p)"
  using request_path_forms [OF assms] by blast

theorem request_path_exact_witness:
  "request_path ([32] @ (lit ''https'' @ lit ''://'' @ lit ''fn.example'' @ 47 # lit ''a/b''
      @ lit ''?u=http://x/y'') @ [10]) = 47 # lit ''a/b''
   \<and> request_path ([] @ (47 # lit ''a/b'' @ lit ''?q'') @ []) = 47 # lit ''a/b''"
proof -
  have p: "url_part (47 # lit ''a/b'')" "url_suffix (lit ''?u=http://x/y'')" "url_suffix (lit ''?q'')"
    by (simp_all add: url_part_def url_suffix_def lit_Cons is_whitespace_def)
  have "url_part (lit ''https'')" "58 \<notin> set (lit ''https'')" "url_part (lit ''fn.example'')"
    "47 \<notin> set (lit ''fn.example'')"
    by (simp_all add: url_part_def lit_Cons is_whitespace_def)
  moreover have "\<forall>c \<in> set [32]. is_whitespace c" "\<forall>c \<in> set [10]. is_whitespace c"
    by (simp_all add: is_whitespace_def)
  ultimately have "request_path ([32] @ (lit ''https'' @ lit ''://'' @ lit ''fn.example'' @ 47 # lit ''a/b''
      @ lit ''?u=http://x/y'') @ [10]) = 47 # lit ''a/b''"
    using request_path_exact [OF p(1,2), of "[32]" "[10]" "lit ''https''" "lit ''fn.example''"] by blast
  moreover have "find_sub (lit ''://'') (47 # lit ''a/b'' @ lit ''?q'') = None"
    by (simp add: lit_Cons starts_with_def)
  then have "\<not> contains_sub (lit ''://'') (47 # lit ''a/b'' @ lit ''?q'')"
    by (simp add: contains_sub_def)
  then have "request_path ([] @ (47 # lit ''a/b'' @ lit ''?q'') @ []) = 47 # lit ''a/b''"
    using request_path_exact [OF p(1,3), of "[]" "[]" "[]" "[]"] by simp
  ultimately show ?thesis by blast
qed

subsection \<open>Decoding\<close>

definition fn_event_mode :: "(rstr, rstr) btree \<Rightarrow> bool" where
  "fn_event_mode hs \<longleftrightarrow> fn_first_header hs [lit ''ce-specversion'', lit ''fn-http-h-ce-specversion''] \<noteq> None"

definition fn_attributes_ok :: "(rstr, rstr) btree \<Rightarrow> bool" where
  "fn_attributes_ok hs \<longleftrightarrow>
     (fn_event_mode hs \<longrightarrow>
        fn_first_header hs [lit ''ce-specversion'', lit ''fn-http-h-ce-specversion''] = Some (lit ''1.0'')
        \<and> (\<forall>(logical, candidates) \<in> set fn_attributes. fn_first_header hs candidates \<noteq> None))"

lemma fn_check_attributes_ok:
  "fn_check_attributes hs ks = Inr u \<longleftrightarrow> (\<forall>(l, c) \<in> set ks. fn_first_header hs c \<noteq> None)"
  by (induction ks) (auto split: if_splits)

lemma fn_binary_check_ok:
  "(case fn_first_header hs [lit ''ce-specversion'', lit ''fn-http-h-ce-specversion''] of
      Some version \<Rightarrow> if version \<noteq> lit ''1.0'' then Inl e else fn_check_attributes hs fn_attributes
    | None \<Rightarrow> Inr ()) = Inr u \<longleftrightarrow> fn_attributes_ok hs"
  using fn_check_attributes_ok [of hs fn_attributes u]
  by (auto simp: fn_attributes_ok_def fn_event_mode_def split: option.splits)

lemma validate_structured_ok: "validate_structured_cloud_event v = Inr u \<longleftrightarrow> structured_event v"
  using structured_envelope_ok [of v "lit ''unsupported_cloud_event_version''" u u]
  by (auto simp: validate_structured_cloud_event_def structured_event_def check_event_fields_ok
      bind_as_str simp del: check_event_fields.simps)

lemma decode_payload_ok:
  "decode_payload S hs content_type body = Inr payload \<longleftrightarrow>
     (if body = [] then payload = empty_obj
      else \<exists>v. from_slice S body = Some v
        \<and> (if starts_with content_type (lit ''application/cloudevents+json'')
           then structured_event v \<and> payload = unwrap_or (value_get (lit ''data'') v) empty_obj
           else fn_attributes_ok hs \<and> payload = v))"
  by (auto simp: decode_payload_def and_then_eq_Inr validate_structured_ok fn_binary_check_ok)

text \<open>
  An empty body is the empty object. Any other body is decoded exactly when it is JSON and its
  CloudEvents attributes are in order: a structured event must be a valid envelope and yields its
  data, and otherwise version 1.0 and non-blank attributes are required of the headers, direct or
  forwarded, if they announce an event at all.
\<close>

theorem decode_payload_iff:
  "decode_payload S hs content_type body = Inr payload \<longleftrightarrow>
     (if body = [] then payload = empty_obj
      else \<exists>v. from_slice S body = Some v
        \<and> (if starts_with content_type (lit ''application/cloudevents+json'')
           then structured_event v \<and> payload = unwrap_or (value_get (lit ''data'') v) empty_obj
           else fn_attributes_ok hs \<and> payload = v))"
  by (rule decode_payload_ok)

text \<open>
  The escape of the log lines drops control characters only: quotes and backslashes of an error
  text reach the JSON line as they are.
\<close>

lemma escape_log_value_line: "\<forall>c \<in> set (escape_log_value s). \<not> is_control c"
  "length (escape_log_value s) \<le> 256"
  by (auto simp: escape_log_value_def dest: set_take_filter)

lemma escape_log_value_keeps_quotes: "escape_log_value (lit ''a'' @ [34, 92]) = lit ''a'' @ [34, 92]"
  by (simp add: escape_log_value_def lit_Cons is_control_def)

end
