(* ===== verification/Fn_Socket.thy ===== *)
theory Fn_Socket
  imports Rust_Text
begin

text \<open>
  The listener socket of the Oracle Functions adapter (\<^verbatim>\<open>oracle_fn/socket.rs\<close>). The state is
  the part of the file system the code looks at: what stands at an absolute path, given by its
  components (\<open>Path::components\<close> drops empty components and dots; links are not followed, and
  the code asks for none to be). Each system call may fail with an error number of its own: the
  faults are a parameter.
\<close>

type_synonym path = "rstr list"

datatype node = Socket nat | Symlink rstr | OtherFile

record file_system =
  nodes :: "path \<Rightarrow> node option"
  creation_mode :: nat

record os_faults =
  stat_fault :: "path \<Rightarrow> nat option"
  remove_fault :: "path \<Rightarrow> nat option"
  bind_fault :: "path \<Rightarrow> nat option"
  chmod_fault :: "path \<Rightarrow> nat option"
  link_fault :: "path \<Rightarrow> nat option"

datatype socket_error = InvalidInput rstr | AlreadyExists path | AddrInUse path | OsError nat

subsection \<open>The listener URI\<close>

definition parse_listener_uri :: "rstr \<Rightarrow> socket_error + rstr" where
  "parse_listener_uri value =
     (let trimmed = trim value in
      and_then
        (ok_or (InvalidInput (lit ''FN_LISTENER must use a unix: or unix:// URI''))
           (or_else (strip_prefix (lit ''unix://'') trimmed) (strip_prefix (lit ''unix:'') trimmed)))
        (\<lambda>raw.
          if trim raw = [] \<or> \<not> starts_with raw (lit ''/'')
          then Inl (InvalidInput (lit ''FN_LISTENER must name an absolute Unix socket path''))
          else Inr raw))"

definition path_components :: "rstr \<Rightarrow> path" where
  "path_components raw = filter (\<lambda>c. c \<noteq> [] \<and> c \<noteq> lit ''.'') (split_on 47 raw)"

definition path_parent :: "path \<Rightarrow> path option" where
  "path_parent p = (if p = [] then None else Some (butlast p))"

definition path_file_name :: "path \<Rightarrow> rstr option" where
  "path_file_name p = (if p = [] \<or> last p = lit ''..'' then None else Some (last p))"

subsection \<open>System calls\<close>

definition unlink :: "os_faults \<Rightarrow> path \<Rightarrow> file_system \<Rightarrow> (socket_error + unit) \<times> file_system" where
  "unlink F p fs =
     (case remove_fault F p of
        Some e \<Rightarrow> (Inl (OsError e), fs)
      | None \<Rightarrow> (Inr (), fs\<lparr>nodes := (nodes fs)(p := None)\<rparr>))"

definition unix_bind :: "os_faults \<Rightarrow> path \<Rightarrow> file_system \<Rightarrow> (socket_error + unit) \<times> file_system" where
  "unix_bind F p fs =
     (case bind_fault F p of
        Some e \<Rightarrow> (Inl (OsError e), fs)
      | None \<Rightarrow>
          if nodes fs p \<noteq> None then (Inl (AddrInUse p), fs)
          else (Inr (), fs\<lparr>nodes := (nodes fs)(p \<mapsto> Socket (creation_mode fs))\<rparr>))"

definition set_permissions ::
  "os_faults \<Rightarrow> path \<Rightarrow> nat \<Rightarrow> file_system \<Rightarrow> (socket_error + unit) \<times> file_system" where
  "set_permissions F p m fs =
     (case chmod_fault F p of
        Some e \<Rightarrow> (Inl (OsError e), fs)
      | None \<Rightarrow>
          (case nodes fs p of
             Some (Socket _) \<Rightarrow> (Inr (), fs\<lparr>nodes := (nodes fs)(p \<mapsto> Socket m)\<rparr>)
           | _ \<Rightarrow> (Inr (), fs)))"

definition symlink :: "os_faults \<Rightarrow> rstr \<Rightarrow> path \<Rightarrow> file_system \<Rightarrow> (socket_error + unit) \<times> file_system" where
  "symlink F target p fs =
     (case link_fault F p of
        Some e \<Rightarrow> (Inl (OsError e), fs)
      | None \<Rightarrow>
          if nodes fs p \<noteq> None then (Inl (AlreadyExists p), fs)
          else (Inr (), fs\<lparr>nodes := (nodes fs)(p \<mapsto> Symlink target)\<rparr>))"

text \<open>Running a call after another that may have failed.\<close>

definition then_do ::
  "(socket_error + 'a) \<times> file_system \<Rightarrow> ('a \<Rightarrow> file_system \<Rightarrow> (socket_error + 'b) \<times> file_system) \<Rightarrow>
   (socket_error + 'b) \<times> file_system" where
  "then_do r f = (case r of (Inl e, fs) \<Rightarrow> (Inl e, fs) | (Inr x, fs) \<Rightarrow> f x fs)"

subsection \<open>Binding\<close>

definition remove_previous_socket ::
  "os_faults \<Rightarrow> path \<Rightarrow> file_system \<Rightarrow> (socket_error + unit) \<times> file_system" where
  "remove_previous_socket F p fs =
     (case stat_fault F p of
        Some e \<Rightarrow> (Inl (OsError e), fs)
      | None \<Rightarrow>
          (case nodes fs p of
             None \<Rightarrow> (Inr (), fs)
           | Some OtherFile \<Rightarrow> (Inl (AlreadyExists p), fs)
           | Some (Socket _) \<Rightarrow> unlink F p fs
           | Some (Symlink _) \<Rightarrow> unlink F p fs))"

definition bind_listener :: "os_faults \<Rightarrow> path \<Rightarrow> file_system \<Rightarrow> (socket_error + path) \<times> file_system" where
  "bind_listener F socket_path fs =
     (case path_parent socket_path of
        None \<Rightarrow> (Inl (InvalidInput (lit ''FN_LISTENER socket path must have a parent directory'')), fs)
      | Some parent \<Rightarrow>
          (case opt_filter (\<lambda>n. n \<noteq> []) (path_file_name socket_path) of
             None \<Rightarrow> (Inl (InvalidInput (lit ''FN_LISTENER socket path must have a valid file name'')), fs)
           | Some file_name \<Rightarrow>
               (let bound_path = parent @ [lit ''phony'' @ file_name] in
                then_do (remove_previous_socket F socket_path fs) (\<lambda>_ fs.
                then_do (remove_previous_socket F bound_path fs) (\<lambda>_ fs.
                then_do (unix_bind F bound_path fs) (\<lambda>_ fs.
                then_do (set_permissions F bound_path 438 fs) (\<lambda>_ fs.
                  case path_file_name bound_path of
                    None \<Rightarrow> (Inl (InvalidInput (lit ''invalid bound socket name'')), fs)
                  | Some bound_name \<Rightarrow>
                      then_do (symlink F bound_name socket_path fs) (\<lambda>_ fs.
                        (Inr bound_path, fs)))))))))"

subsection \<open>URIs\<close>

lemma starts_with_lit: "starts_with (lit s @ t) (lit s)"
  by (rule starts_with_append)

lemma strip_prefix_append [simp]: "strip_prefix p (p @ s) = Some s"
  by (simp add: strip_prefix_eq_Some)

text \<open>
  Both spellings of a listener URI name the same socket: an absolute path written after
  \<open>unix://\<close>, or after \<open>unix:\<close> when it does not itself start with two slashes, is read back with
  white space around the URI ignored, and every path accepted from any text is absolute.
\<close>

theorem parse_listener_uri_roundtrip:
  assumes "starts_with p (lit ''/'')" "trimmed p"
    and "\<forall>c \<in> set u. is_whitespace c" "\<forall>c \<in> set v. is_whitespace c"
  shows "parse_listener_uri (u @ (lit ''unix://'' @ p) @ v) = Inr p
    \<and> (\<not> starts_with p (lit ''//'') \<longrightarrow> parse_listener_uri (u @ (lit ''unix:'' @ p) @ v) = Inr p)
    \<and> (\<forall>value q. parse_listener_uri value = Inr q \<longrightarrow> starts_with q (lit ''/''))"
proof -
  have ne: "p \<noteq> []" "trim p \<noteq> []"
    using assms(1,2) by (auto simp: starts_with_def trimmed_trim)
  have "trimmed (lit ''unix://'' @ p)" "trimmed (lit ''unix:'' @ p)"
    using assms(2) ne by (simp_all add: trimmed_def lit_Cons is_whitespace_def)
  then have t: "trim (u @ (lit ''unix://'' @ p) @ v) = lit ''unix://'' @ p"
    "trim (u @ (lit ''unix:'' @ p) @ v) = lit ''unix:'' @ p"
    using trim_padded [OF assms(3,4)] by blast+
  have "strip_prefix (lit ''unix://'') (lit ''unix:'' @ p) = None" if "\<not> starts_with p (lit ''//'')"
    using that by (auto simp: strip_prefix_def starts_with_def lit_Cons)
  then show ?thesis
    using ne assms(1) unfolding parse_listener_uri_def Let_def t
    by (auto simp: and_then_eq_Inr split: if_splits)
qed

theorem parse_listener_uri_roundtrip_witness:
  "parse_listener_uri ([32] @ (lit ''unix:'' @ lit ''/tmp/fn.sock'') @ [10]) = Inr (lit ''/tmp/fn.sock'')"
  using parse_listener_uri_roundtrip [of "lit ''/tmp/fn.sock''" "[32]" "[10]"]
  by (simp add: starts_with_def lit_Cons trimmed_def is_whitespace_def)

subsection \<open>The file system after a bind\<close>

definition phony_path :: "path \<Rightarrow> path" where
  "phony_path p = butlast p @ [lit ''phony'' @ last p]"

lemma phony_path_other [simp]: "phony_path p \<noteq> p"
proof
  assume "phony_path p = p"
  then have "last (phony_path p) = last p" by simp
  then show False by (simp add: phony_path_def)
qed

lemma phony_path_other' [simp]: "p \<noteq> phony_path p"
  using phony_path_other [of p] by metis

lemma path_file_name_eq: "path_file_name p = Some n \<longleftrightarrow> p \<noteq> [] \<and> n = last p \<and> last p \<noteq> lit ''..''"
  by (auto simp: path_file_name_def)

lemma phony_file_name: "path_file_name (phony_path p) = Some (lit ''phony'' @ last p)"
  by (simp add: path_file_name_def phony_path_def lit_Cons)

text \<open>What one call leaves alone.\<close>

definition touches :: "path set \<Rightarrow> file_system \<Rightarrow> file_system \<Rightarrow> bool" where
  "touches ps fs fs' \<longleftrightarrow>
     creation_mode fs' = creation_mode fs
     \<and> (\<forall>q. nodes fs' q = nodes fs q \<or> q \<in> ps \<and> nodes fs q \<noteq> Some OtherFile \<and> nodes fs' q \<noteq> Some OtherFile)"

lemma touches_refl [simp]: "touches ps fs fs"
  by (simp add: touches_def)

lemma touches_trans: "touches ps fs fs' \<Longrightarrow> touches ps fs' fs'' \<Longrightarrow> touches ps fs fs''"
  unfolding touches_def by metis

lemma touches_then_do:
  assumes "touches ps fs (snd r)" "\<And>x fs'. touches ps fs' (snd (f x fs'))"
  shows "touches ps fs (snd (then_do r f))"
  using assms touches_trans by (cases r; cases "fst r") (fastforce simp: then_do_def)+

lemma touches_calls:
  "p \<in> ps \<Longrightarrow> touches ps fs (snd (remove_previous_socket F p fs))"
  "p \<in> ps \<Longrightarrow> touches ps fs (snd (unix_bind F p fs))"
  "p \<in> ps \<Longrightarrow> touches ps fs (snd (set_permissions F p m fs))"
  "p \<in> ps \<Longrightarrow> touches ps fs (snd (symlink F target p fs))"
  by (auto simp: touches_def remove_previous_socket_def unlink_def unix_bind_def set_permissions_def
      symlink_def split: option.splits node.splits)

lemma bind_listener_touches: "touches {p, phony_path p} fs (snd (bind_listener F p fs))"
  unfolding bind_listener_def path_parent_def Let_def phony_path_def
  by (auto simp: path_file_name_eq split: option.splits
      intro!: touches_then_do touches_calls)

text \<open>
  C32. Binding never destroys anything but old sockets and links at its own two paths: whatever
  fails, every path other than the socket path and its phony sibling is as before, and a regular
  file or directory at one of these two is still there, afterwards.
\<close>

theorem bind_listener_spares_files:
  "nodes (snd (bind_listener F p fs)) q = nodes fs q
   \<or> q \<in> {p, phony_path p} \<and> nodes fs q \<noteq> Some OtherFile
     \<and> nodes (snd (bind_listener F p fs)) q \<noteq> Some OtherFile"
  using bind_listener_touches [of p fs F] by (simp add: touches_def)

definition no_faults :: os_faults where
  "no_faults = \<lparr>stat_fault = (\<lambda>_. None), remove_fault = (\<lambda>_. None), bind_fault = (\<lambda>_. None),
     chmod_fault = (\<lambda>_. None), link_fault = (\<lambda>_. None)\<rparr>"

definition listening :: "path \<Rightarrow> file_system \<Rightarrow> bool" where
  "listening p fs \<longleftrightarrow>
     nodes fs (phony_path p) = Some (Socket 438)
     \<and> nodes fs p = Some (Symlink (lit ''phony'' @ last p))"

lemma then_do_eq_Inr:
  "then_do r f = (Inr y, fs') \<longleftrightarrow> (\<exists>x fs. r = (Inr x, fs) \<and> f x fs = (Inr y, fs'))"
  by (cases r; cases "fst r") (auto simp: then_do_def)

lemma remove_previous_socket_eq_Inr:
  "remove_previous_socket F p fs = (Inr u, fs') \<longleftrightarrow>
     stat_fault F p = None \<and> nodes fs p \<noteq> Some OtherFile
     \<and> (if nodes fs p = None then fs' = fs
        else remove_fault F p = None \<and> fs' = fs\<lparr>nodes := (nodes fs)(p := None)\<rparr>)"
  by (auto simp: remove_previous_socket_def unlink_def split: option.splits node.splits)

lemma remove_previous_socket_gone:
  "remove_previous_socket F p fs = (Inr u, fs') \<Longrightarrow>
     nodes fs' = (nodes fs)(p := None) \<and> creation_mode fs' = creation_mode fs"
  by (auto simp: remove_previous_socket_eq_Inr split: if_splits)

text \<open>A successful bind went through every call; this is the state it leaves.\<close>

lemma bind_listener_success:
  assumes "bind_listener F p fs = (Inr b, fs')"
  shows "b = phony_path p" "p \<noteq> []" "last p \<noteq> lit ''..''" "last p \<noteq> []"
    and "nodes fs p \<noteq> Some OtherFile" "nodes fs (phony_path p) \<noteq> Some OtherFile"
    and "nodes fs' = (nodes fs)(phony_path p \<mapsto> Socket 438, p \<mapsto> Symlink (lit ''phony'' @ last p))"
proof -
  have p: "p \<noteq> []" "last p \<noteq> lit ''..''" "last p \<noteq> []"
    using assms by (auto simp: bind_listener_def path_parent_def path_file_name_def split: if_splits)
  obtain fs1 fs2 fs3 fs4 u1 u2 u3 u4 u5 where steps: "remove_previous_socket F p fs = (Inr u1, fs1)"
    "remove_previous_socket F (phony_path p) fs1 = (Inr u2, fs2)"
    "unix_bind F (phony_path p) fs2 = (Inr u3, fs3)"
    "set_permissions F (phony_path p) 438 fs3 = (Inr u4, fs4)"
    "symlink F (lit ''phony'' @ last p) p fs4 = (Inr u5, fs')" "b = phony_path p"
    using assms p phony_file_name [of p]
    by (auto simp: bind_listener_def path_parent_def path_file_name_def Let_def then_do_eq_Inr
        phony_path_def [symmetric])
  have "nodes fs3 = (nodes fs2)(phony_path p \<mapsto> Socket (creation_mode fs2))"
    using steps(3) by (auto simp: unix_bind_def split: option.splits if_splits)
  moreover from this have "nodes fs4 = (nodes fs3)(phony_path p \<mapsto> Socket 438)"
    using steps(4) by (auto simp: set_permissions_def split: option.splits)
  moreover have "nodes fs' = (nodes fs4)(p \<mapsto> Symlink (lit ''phony'' @ last p))"
    using steps(5) by (auto simp: symlink_def split: option.splits if_splits)
  ultimately have "nodes fs' = (nodes fs)(p := None, phony_path p \<mapsto> Socket 438,
      p \<mapsto> Symlink (lit ''phony'' @ last p))"
    using remove_previous_socket_gone [OF steps(1)] remove_previous_socket_gone [OF steps(2)] by simp
  then show "nodes fs' = (nodes fs)(phony_path p \<mapsto> Socket 438, p \<mapsto> Symlink (lit ''phony'' @ last p))"
    by (simp add: fun_upd_twist)
  show "b = phony_path p" by (rule steps(6))
  show "p \<noteq> []" "last p \<noteq> lit ''..''" "last p \<noteq> []" by (rule p)+
  show "nodes fs p \<noteq> Some OtherFile" using steps(1) by (simp add: remove_previous_socket_eq_Inr)
  show "nodes fs (phony_path p) \<noteq> Some OtherFile"
    using steps(2) remove_previous_socket_gone [OF steps(1)]
    by (simp add: remove_previous_socket_eq_Inr)
qed

lemma bind_listener_no_faults:
  assumes "p \<noteq> []" "last p \<noteq> lit ''..''" "last p \<noteq> []"
    and "nodes fs p \<noteq> Some OtherFile" "nodes fs (phony_path p) \<noteq> Some OtherFile"
  shows "\<exists>fs'. bind_listener no_faults p fs = (Inr (phony_path p), fs')"
proof -
  have gone: "\<exists>fs'. remove_previous_socket no_faults q fs = (Inr (), fs')
      \<and> nodes fs' = (nodes fs)(q := None)" if "nodes fs q \<noteq> Some OtherFile" for q fs
    using that by (cases "nodes fs q")
      (auto simp: remove_previous_socket_def unlink_def no_faults_def split: node.splits)
  obtain fs1 where fs1: "remove_previous_socket no_faults p fs = (Inr (), fs1)"
    "nodes fs1 = (nodes fs)(p := None)" using gone [OF assms(4)] by blast
  obtain fs2 where fs2: "remove_previous_socket no_faults (phony_path p) fs1 = (Inr (), fs2)"
    "nodes fs2 = (nodes fs1)(phony_path p := None)" using gone [of fs1 "phony_path p"] fs1 assms(5) by auto
  have clear: "nodes fs2 (phony_path p) = None" "nodes fs2 p = None" using fs1 fs2 by simp_all
  have name: "path_file_name p = Some (last p)" using assms(1,2) by (simp add: path_file_name_eq)
  have "bind_listener no_faults p fs =
      then_do (unix_bind no_faults (phony_path p) fs2) (\<lambda>_ fs.
      then_do (set_permissions no_faults (phony_path p) 438 fs) (\<lambda>_ fs.
      then_do (symlink no_faults (lit ''phony'' @ last p) p fs) (\<lambda>_ fs. (Inr (phony_path p), fs))))"
    using assms(1,3) name fs1(1) fs2(1) phony_file_name [of p]
    by (simp add: bind_listener_def path_parent_def Let_def then_do_def [of "(Inr _, _)"]
        phony_path_def [symmetric])
  then show ?thesis
    using clear by (simp add: unix_bind_def set_permissions_def symlink_def no_faults_def then_do_def)
qed

text \<open>
  C31. After a successful bind the listener is the phony socket, open to every user (mode 0666), the
  public path is a link to it by its bare name, and nothing else has changed. Without system faults
  a bind succeeds for every path with a proper file name unless a file that is not a socket or a
  link is in the way, so that binding again after a crash succeeds.
\<close>

theorem bind_listener_listens:
  assumes "bind_listener F p fs = (Inr b, fs')"
  shows "b = phony_path p \<and> listening p fs' \<and> (\<forall>q. q \<notin> {p, b} \<longrightarrow> nodes fs' q = nodes fs q)
    \<and> (\<exists>fs''. bind_listener no_faults p fs' = (Inr b, fs'') \<and> nodes fs'' = nodes fs')"
proof -
  note s = bind_listener_success [OF assms]
  have "nodes fs' p \<noteq> Some OtherFile" "nodes fs' (phony_path p) \<noteq> Some OtherFile"
    by (simp_all add: s(7))
  from bind_listener_no_faults [OF s(2-4) this]
  obtain fs'' where r: "bind_listener no_faults p fs' = (Inr (phony_path p), fs'')" by blast
  have "nodes fs'' = nodes fs'" unfolding bind_listener_success(7) [OF r] s(7) by (auto simp: fun_eq_iff)
  with r s show ?thesis by (auto simp: listening_def)
qed

theorem bind_listener_listens_witness:
  "\<exists>fs'. bind_listener no_faults (path_components (lit ''/tmp/fn.sock''))
       \<lparr>nodes = \<lambda>q. if q = [lit ''tmp'', lit ''fn.sock''] then Some (Socket 0) else None, creation_mode = 493\<rparr>
     = (Inr [lit ''tmp'', lit ''phonyfn.sock''], fs')
   \<and> nodes fs' [lit ''tmp'', lit ''fn.sock''] = Some (Symlink (lit ''phonyfn.sock''))"
proof -
  let ?p = "[lit ''tmp'', lit ''fn.sock'']"
  let ?fs = "\<lparr>nodes = \<lambda>q. if q = ?p then Some (Socket 0) else None, creation_mode = 493\<rparr>"
  have comps: "path_components (lit ''/tmp/fn.sock'') = ?p"
    by (simp add: path_components_def lit_Cons)
  have phony: "phony_path ?p = [lit ''tmp'', lit ''phonyfn.sock'']"
    by (simp add: phony_path_def lit_Cons)
  have "nodes ?fs (phony_path ?p) = None" unfolding phony by simp
  then obtain fs' where b: "bind_listener no_faults ?p ?fs = (Inr (phony_path ?p), fs')"
    using bind_listener_no_faults [of ?p ?fs] by auto
  from bind_listener_listens [OF b] have "nodes fs' ?p = Some (Symlink (lit ''phonyfn.sock''))"
    by (simp add: listening_def lit_Cons)
  with b show ?thesis unfolding comps phony by blast
qed

end
