(* ===== verification/Fn_Server.thy ===== *)
theory Fn_Server
  imports Fn_Handler Fn_Socket
begin

text \<open>
  The Oracle Functions server (\<open>run\<close> of \<^verbatim>\<open>oracle_fn/mod.rs\<close>): configuration, binding, and
  the accept loop. The loop is run on the list of what \<open>incoming\<close> yields, each accepted
  connection with the reading of the clock at its time; the iterator of the code never ends, so a
  finite list is a prefix of a run.
\<close>

definition FN_FORMAT_HTTP_STREAM :: rstr where
  "FN_FORMAT_HTTP_STREAM = lit ''http-stream''"

definition failure_line :: "rstr \<Rightarrow> RouteSpec \<Rightarrow> rstr \<Rightarrow> rstr" where
  \<open>failure_line event spec error =
     lit ''{"level":"error","event":"'' @ event @ lit ''","handler":"'' @ handler spec
     @ lit ''","error":"'' @ escape_log_value error @ lit ''"}''\<close>

definition listening_line :: "RouteSpec \<Rightarrow> rstr" where
  \<open>listening_line spec =
     lit ''{"level":"info","event":"oracle_fn_listening","handler":"'' @ handler spec
     @ lit ''","format":"'' @ FN_FORMAT_HTTP_STREAM @ lit ''"}''\<close>

type_synonym accepted = "io_error + nat option \<times> connection"

fun serve ::
  "serde \<Rightarrow> build \<Rightarrow> nat \<Rightarrow> (io_error \<Rightarrow> rstr) \<Rightarrow> RouteSpec \<Rightarrow> accepted list \<Rightarrow> log_event list \<Rightarrow>
   sink list \<times> log_event list" where
  "serve S b pid show_io spec [] log = ([], log)"
| "serve S b pid show_io spec (Inr (clock, stream) # incoming) log =
     (let ((result, out), log) = handle_stream S b pid clock show_io spec stream log;
          log = (case result of
                   Inl error \<Rightarrow>
                     log @ [Stderr (failure_line (lit ''oracle_fn_connection_failed'') spec (show_io error))]
                 | Inr _ \<Rightarrow> log);
          (outs, log) = serve S b pid show_io spec incoming log
      in (out # outs, log))"
| "serve S b pid show_io spec (Inl error # incoming) log =
     serve S b pid show_io spec incoming
       (log @ [Stderr (failure_line (lit ''oracle_fn_accept_failed'') spec (show_io error))])"

datatype boot_error = BadConfig rstr | BadSocket socket_error

definition required_var :: "rstr \<Rightarrow> env_var \<Rightarrow> boot_error + rstr" where
  "required_var key var =
     (case var of
        Present value \<Rightarrow> Inr value
      | _ \<Rightarrow> Inl (BadConfig (key @ lit '' is required for Oracle Functions/Fn Project'')))"

record server_state =
  server_fs :: file_system
  server_log :: "log_event list"

definition run ::
  "serde \<Rightarrow> build \<Rightarrow> nat \<Rightarrow> (io_error \<Rightarrow> rstr) \<Rightarrow> os_faults \<Rightarrow> RouteSpec \<Rightarrow> env_var \<Rightarrow> env_var \<Rightarrow>
   accepted list \<Rightarrow> server_state \<Rightarrow> (boot_error + sink list) \<times> server_state" where
  "run S b pid show_io F spec format_var listener_var incoming st =
     (case and_then (required_var (lit ''FN_FORMAT'') format_var) (\<lambda>format.
             if trim format \<noteq> FN_FORMAT_HTTP_STREAM
             then Inl (BadConfig (lit ''FN_FORMAT must equal http-stream''))
             else and_then (required_var (lit ''FN_LISTENER'') listener_var) (\<lambda>value.
                    map_err BadSocket (parse_listener_uri value))) of
        Inl e \<Rightarrow> (Inl e, st)
      | Inr socket_path \<Rightarrow>
          (case bind_listener F (path_components socket_path) (server_fs st) of
             (Inl e, fs) \<Rightarrow> (Inl (BadSocket e), st\<lparr>server_fs := fs\<rparr>)
           | (Inr _, fs) \<Rightarrow>
               (let (outs, log) = serve S b pid show_io spec incoming
                      (server_log st @ [Stdout (listening_line spec)])
                in (Inr outs, \<lparr>server_fs = fs, server_log = log\<rparr>))))"

subsection \<open>Each connection on its own\<close>

lemma answer_request_log_append:
  "answer_request S b pid clock spec request log =
     (fst (answer_request S b pid clock spec request []),
      log @ snd (answer_request S b pid clock spec request []))"
  using fn.answer_log_append [of S b spec "(pid, clock, request)" log] by simp

lemma handle_stream_log_append:
  "handle_stream S b pid clock show_io spec conn log =
     (fst (handle_stream S b pid clock show_io spec conn []),
      log @ snd (handle_stream S b pid clock show_io spec conn []))"
proof -
  have a: "answer_request S b pid clock spec request log =
      (fst (answer_request S b pid clock spec request []),
       log @ snd (answer_request S b pid clock spec request []))" for request
    by (rule answer_request_log_append)
  show ?thesis
    unfolding handle_stream_def Let_def
    by (subst a) (simp split: option.split sum.split ReadRequestError.split prod.split)
qed

text \<open>What one item of the loop sends and logs, started from an empty log.\<close>

definition alone ::
  "serde \<Rightarrow> build \<Rightarrow> nat \<Rightarrow> (io_error \<Rightarrow> rstr) \<Rightarrow> RouteSpec \<Rightarrow> accepted \<Rightarrow> sink list \<times> log_event list" where
  "alone S b pid show_io spec item = serve S b pid show_io spec [item] []"

lemma serve_Cons:
  "serve S b pid show_io spec (item # incoming) log =
     (fst (alone S b pid show_io spec item)
        @ fst (serve S b pid show_io spec incoming (log @ snd (alone S b pid show_io spec item))),
      snd (serve S b pid show_io spec incoming (log @ snd (alone S b pid show_io spec item))))"
proof (cases item)
  case (Inl e)
  then show ?thesis by (simp add: alone_def)
next
  case (Inr p)
  obtain clock conn where p: "p = (clock, conn)" by (cases p)
  obtain result out log' where h: "handle_stream S b pid clock show_io spec conn [] = ((result, out), log')"
    by (metis surj_pair)
  then have "handle_stream S b pid clock show_io spec conn log = ((result, out), log @ log')"
    using handle_stream_log_append [of S b pid clock show_io spec conn log] by simp
  with h show ?thesis
    by (cases result) (simp_all add: Inr p alone_def split_beta Let_def)
qed

text \<open>
  C25. Every connection is served as if it were alone: whatever fails before it, a failed accept, a
  broken peer or a refused clone included, the loop goes on, each accepted connection gets the
  output it would get from a fresh server, in order, and the log is the concatenation of what each
  item logs by itself.
\<close>

theorem serve_each_alone:
  "serve S b pid show_io spec incoming log =
     (concat (map (\<lambda>item. fst (alone S b pid show_io spec item)) incoming),
      log @ concat (map (\<lambda>item. snd (alone S b pid show_io spec item)) incoming))
   \<and> length (fst (serve S b pid show_io spec incoming log)) = length (filter (\<lambda>item. \<exists>c. item = Inr c) incoming)"
proof -
  have eq: "serve S b pid show_io spec incoming log =
     (concat (map (\<lambda>item. fst (alone S b pid show_io spec item)) incoming),
      log @ concat (map (\<lambda>item. snd (alone S b pid show_io spec item)) incoming))"
    by (induction incoming arbitrary: log) (simp_all add: serve_Cons)
  have "length (fst (alone S b pid show_io spec item)) = (if \<exists>c. item = Inr c then 1 else 0)" for item
    by (cases item) (auto simp: alone_def split_beta)
  then have "length (concat (map (\<lambda>item. fst (alone S b pid show_io spec item)) incoming))
      = length (filter (\<lambda>item. \<exists>c. item = Inr c) incoming)"
    by (induction incoming) simp_all
  with eq show ?thesis by simp
qed

definition configured :: "env_var \<Rightarrow> env_var \<Rightarrow> rstr \<Rightarrow> bool" where
  "configured format_var listener_var p \<longleftrightarrow>
     (\<exists>f l. format_var = Present f \<and> trim f = FN_FORMAT_HTTP_STREAM \<and> listener_var = Present l
        \<and> parse_listener_uri l = Inr p)"

lemma required_var_ok: "required_var key var = Inr v \<longleftrightarrow> var = Present v"
  by (cases var) (simp_all add: required_var_def)

lemma run_config:
  "and_then (required_var (lit ''FN_FORMAT'') format_var) (\<lambda>format.
      if trim format \<noteq> FN_FORMAT_HTTP_STREAM then Inl e
      else and_then (required_var (lit ''FN_LISTENER'') listener_var) (\<lambda>value.
             map_err BadSocket (parse_listener_uri value))) = Inr p
   \<longleftrightarrow> configured format_var listener_var p"
  by (auto simp: and_then_eq_Inr required_var_ok configured_def)

lemma run_configured:
  "configured format_var listener_var p \<Longrightarrow>
   run S b pid show_io F spec format_var listener_var incoming st =
     (case bind_listener F (path_components p) (server_fs st) of
        (Inl e, fs) \<Rightarrow> (Inl (BadSocket e), st\<lparr>server_fs := fs\<rparr>)
      | (Inr _, fs) \<Rightarrow>
          (Inr (fst (serve S b pid show_io spec incoming (server_log st @ [Stdout (listening_line spec)]))),
           \<lparr>server_fs = fs,
            server_log = snd (serve S b pid show_io spec incoming
              (server_log st @ [Stdout (listening_line spec)]))\<rparr>))"
  unfolding run_def run_config [symmetric, of _ _ _ "BadConfig (lit ''FN_FORMAT must equal http-stream'')"]
  by (simp add: split_beta split: prod.split sum.split)

lemma run_unconfigured:
  assumes "\<nexists>p. configured format_var listener_var p"
  shows "\<exists>e. run S b pid show_io F spec format_var listener_var incoming st = (Inl e, st)"
proof -
  let ?c = "and_then (required_var (lit ''FN_FORMAT'') format_var) (\<lambda>format.
      if trim format \<noteq> FN_FORMAT_HTTP_STREAM
      then Inl (BadConfig (lit ''FN_FORMAT must equal http-stream''))
      else and_then (required_var (lit ''FN_LISTENER'') listener_var) (\<lambda>value.
             map_err BadSocket (parse_listener_uri value)))"
  obtain e where "?c = Inl e"
    using assms run_config [of format_var "BadConfig (lit ''FN_FORMAT must equal http-stream'')" listener_var]
    by (cases ?c) blast+
  then show ?thesis by (simp add: run_def)
qed

lemma serve_log_prefix: "\<exists>l. snd (serve S b pid show_io spec incoming log) = log @ l"
  by (induction incoming arbitrary: log) (simp_all add: serve_Cons, metis append.assoc)

text \<open>
  A misconfigured server never starts: unless \<open>FN_FORMAT\<close> is \<open>http-stream\<close> and
  \<open>FN_LISTENER\<close> names an absolute socket path, \<open>run\<close> fails with nothing served, nothing logged
  and the file system untouched; and when it starts, the listener has been bound and announced
  before the first connection is looked at.
\<close>

theorem run_starts_iff:
  fixes S :: serde and b :: build and pid :: nat and show_io :: "io_error \<Rightarrow> rstr" and F :: os_faults
    and spec :: RouteSpec and format_var listener_var :: env_var and incoming :: "accepted list"
    and st :: server_state
  defines "out \<equiv> run S b pid show_io F spec format_var listener_var incoming st"
  shows "((\<nexists>p. configured format_var listener_var p) \<longrightarrow> (\<exists>e. out = (Inl e, st)))
    \<and> (\<forall>outs st'. out = (Inr outs, st') \<longrightarrow>
        (\<exists>p l. configured format_var listener_var p \<and> listening (path_components p) (server_fs st')
          \<and> server_log st' = server_log st @ Stdout (listening_line spec) # l))"
proof (cases "\<exists>p. configured format_var listener_var p")
  case False
  then obtain e where "out = (Inl e, st)" using run_unconfigured [OF False] unfolding out_def by blast
  with False show ?thesis by simp
next
  case True
  then obtain p where p: "configured format_var listener_var p" by blast
  obtain res fs where b: "bind_listener F (path_components p) (server_fs st) = (res, fs)" by fastforce
  show ?thesis
  proof (cases res)
    case (Inl e)
    then show ?thesis using p b by (auto simp: out_def run_configured)
  next
    case (Inr l)
    have "listening (path_components p) fs"
      using bind_listener_success(7) [OF b [unfolded Inr]] by (simp add: listening_def)
    moreover obtain l' where "snd (serve S b pid show_io spec incoming (server_log st @ [Stdout (listening_line spec)]))
        = server_log st @ Stdout (listening_line spec) # l'"
      using serve_log_prefix [of S b pid show_io spec incoming "server_log st @ [Stdout (listening_line spec)]"]
      by auto
    ultimately show ?thesis using p b Inr by (auto simp: out_def run_configured)
  qed
qed

theorem run_starts_iff_witness:
  "\<exists>e. run null_serde \<lparr>feature_aws = False, feature_http = False\<rparr> 1 (\<lambda>_. []) no_faults sample_spec
     (Present (lit ''json'')) (Present (lit ''unix:/tmp/f'')) []
     \<lparr>server_fs = \<lparr>nodes = (\<lambda>_. None), creation_mode = 0\<rparr>, server_log = []\<rparr>
     = (Inl e, \<lparr>server_fs = \<lparr>nodes = (\<lambda>_. None), creation_mode = 0\<rparr>, server_log = []\<rparr>)"
proof -
  have "trim (lit ''json'') = lit ''json''"
    by (rule trimmed_trim) (simp add: trimmed_def lit_Cons is_whitespace_def)
  then have "\<nexists>p. configured (Present (lit ''json'')) (Present (lit ''unix:/tmp/f'')) p"
    by (simp add: configured_def FN_FORMAT_HTTP_STREAM_def)
  from run_starts_iff [THEN conjunct1, THEN mp, OF this] show ?thesis .
qed

end
