(* ===== verification/Decoders.thy ===== *)
theory Decoders
  imports Fn_Handler
begin

text \<open>
  The two CloudEvents decoders: that of the portable HTTP adapter (\<open>decode_http_payload\<close> of
  \<^verbatim>\<open>lib.rs\<close>) and that of the Oracle Functions adapter (\<open>decode_payload\<close> of \<^verbatim>\<open>oracle_fn/mod.rs\<close>) are
  separate code. The latter also looks for every header under the prefix \<open>fn-http-h-\<close>, under which
  Fn forwards the headers of the original request.
\<close>

definition forwarded_names :: "rstr set" where
  "forwarded_names =
     {lit ''fn-http-h-content-type'', lit ''fn-http-h-ce-specversion'', lit ''fn-http-h-ce-id'',
      lit ''fn-http-h-ce-source'', lit ''fn-http-h-ce-type''}"

lemma first_header_skip: "hs k' = None \<Longrightarrow> first_header hs [k, k'] = first_header hs [k]"
  by (simp add: first_header_def opt_filter_def cong: option.case_cong)

lemma fn_attributes_eq:
  assumes "\<forall>k \<in> forwarded_names. bt_get hs k = None"
  shows "fn_attributes_ok hs \<longleftrightarrow> binary_attributes_ok (bt_get hs)"
  using assms
  by (auto simp: fn_attributes_ok_def fn_event_mode_def fn_attributes_def binary_attributes_ok_def
      forwarded_names_def fn_first_header_eq first_header_skip split: option.splits)

lemma fn_content_type_eq:
  assumes "\<forall>k \<in> forwarded_names. bt_get hs k = None"
    and "\<forall>v. bt_get hs (lit ''content-type'') = Some v \<longrightarrow> trimmed v"
  shows "starts_with (fn_content_type hs) (lit ''application/cloudevents+json'') \<longleftrightarrow> structured_mode (bt_get hs)"
proof -
  have "fn_first_header hs [lit ''content-type'', lit ''fn-http-h-content-type'']
      = opt_filter (\<lambda>v. v \<noteq> []) (map_option trim (bt_get hs (lit ''content-type'')))"
    using assms(1) by (simp add: forwarded_names_def fn_first_header_eq first_header_skip first_header_one)
  with assms(2) show ?thesis
    by (cases "bt_get hs (lit ''content-type'')")
       (auto simp: fn_content_type_def structured_mode_def trimmed_trim)
qed


definition event_headers :: "(rstr, rstr) btree" where
  "event_headers = [(lit ''content-type'', lit ''application/cloudevents+json'')]"


end
