(* ===== verification/Routes.thy ===== *)
theory Routes
  imports Dispatch
begin

text \<open>
  The two heavy routes, as each of the six binaries under \<^verbatim>\<open>src/lambdas/src/bin\<close> declares its own:
  one binary per route and runtime.
\<close>

definition heavy_case_export_ROUTE :: RouteSpec where
  "heavy_case_export_ROUTE =
     route_spec_new (lit ''heavy_case_export'') (lit ''POST'') (lit ''/api/heavy/case-export'') (lit ''case_id'')"

definition heavy_case_export_http_ROUTE :: RouteSpec where
  "heavy_case_export_http_ROUTE =
     route_spec_new (lit ''heavy_case_export'') (lit ''POST'') (lit ''/api/heavy/case-export'') (lit ''case_id'')"

definition heavy_case_export_fn_ROUTE :: RouteSpec where
  "heavy_case_export_fn_ROUTE =
     route_spec_new (lit ''heavy_case_export'') (lit ''POST'') (lit ''/api/heavy/case-export'') (lit ''case_id'')"

definition heavy_document_render_ROUTE :: RouteSpec where
  "heavy_document_render_ROUTE =
     route_spec_new (lit ''heavy_document_render'') (lit ''POST'') (lit ''/api/heavy/document-render'')
       (lit ''document_id'')"

definition heavy_document_render_http_ROUTE :: RouteSpec where
  "heavy_document_render_http_ROUTE =
     route_spec_new (lit ''heavy_document_render'') (lit ''POST'') (lit ''/api/heavy/document-render'')
       (lit ''document_id'')"

definition heavy_document_render_fn_ROUTE :: RouteSpec where
  "heavy_document_render_fn_ROUTE =
     route_spec_new (lit ''heavy_document_render'') (lit ''POST'') (lit ''/api/heavy/document-render'')
       (lit ''document_id'')"

lemmas route_defs = heavy_case_export_ROUTE_def heavy_case_export_http_ROUTE_def
  heavy_case_export_fn_ROUTE_def heavy_document_render_ROUTE_def heavy_document_render_http_ROUTE_def
  heavy_document_render_fn_ROUTE_def

definition deployed_routes :: "RouteSpec set" where
  "deployed_routes =
     {heavy_case_export_ROUTE, heavy_case_export_http_ROUTE, heavy_case_export_fn_ROUTE,
      heavy_document_render_ROUTE, heavy_document_render_http_ROUTE, heavy_document_render_fn_ROUTE}"

lemma one_route_per_runtime:
  "heavy_case_export_http_ROUTE = heavy_case_export_ROUTE"
  "heavy_case_export_fn_ROUTE = heavy_case_export_ROUTE"
  "heavy_document_render_http_ROUTE = heavy_document_render_ROUTE"
  "heavy_document_render_fn_ROUTE = heavy_document_render_ROUTE"
  by (simp_all add: route_defs)

text \<open>What the theorems of the adapters ask of a route, the deployed ones have.\<close>

lemma deployed_route_facts:
  assumes "spec \<in> deployed_routes"
  shows "visible_text (spec_method spec)" "max_event_bytes spec < usize_max" "spec_path spec \<noteq> lit ''/''"
  using assms
  by (auto simp: deployed_routes_def route_defs route_spec_new_def visible_text_def lit_Cons
      DEFAULT_MAX_EVENT_BYTES_def usize_max_def)

lemma deployed_routes_disjoint:
  "spec \<in> deployed_routes \<Longrightarrow> spec' \<in> deployed_routes \<Longrightarrow> spec_path spec = spec_path spec' \<Longrightarrow> spec = spec'"
  by (auto simp: deployed_routes_def route_defs route_spec_new_def)

end
