(* ===== verification/Binaries.thy ===== *)
theory Binaries
  imports Runtimes Fn_Server Routes
begin

text \<open>
  The \<open>main\<close> functions of the six binaries under \<^verbatim>\<open>src/lambdas/src/bin\<close>: each runs the runtime it
  is built for on the route it declares.
\<close>

definition heavy_case_export_main ::
  "serde \<Rightarrow> build \<Rightarrow> nat \<Rightarrow> (nat option \<times> lambda_event) list \<Rightarrow> log_event list \<Rightarrow>
   (unit + json) list \<times> log_event list" where
  "heavy_case_export_main S b pid deliveries log = run_aws S b pid heavy_case_export_ROUTE deliveries log"

definition heavy_document_render_main ::
  "serde \<Rightarrow> build \<Rightarrow> nat \<Rightarrow> (nat option \<times> lambda_event) list \<Rightarrow> log_event list \<Rightarrow>
   (unit + json) list \<times> log_event list" where
  "heavy_document_render_main S b pid deliveries log =
     run_aws S b pid heavy_document_render_ROUTE deliveries log"

definition heavy_case_export_http_main ::
  "http_crate \<Rightarrow> serde \<Rightarrow> build \<Rightarrow> (http_request \<Rightarrow> http_out) \<Rightarrow> http_host \<Rightarrow> http_call list \<Rightarrow>
   log_event list \<Rightarrow> (host_error + http_out list) \<times> log_event list" where
  "heavy_case_export_http_main C S b only_get H calls log =
     run_http C S b only_get heavy_case_export_http_ROUTE H calls log"

definition heavy_document_render_http_main ::
  "http_crate \<Rightarrow> serde \<Rightarrow> build \<Rightarrow> (http_request \<Rightarrow> http_out) \<Rightarrow> http_host \<Rightarrow> http_call list \<Rightarrow>
   log_event list \<Rightarrow> (host_error + http_out list) \<times> log_event list" where
  "heavy_document_render_http_main C S b only_get H calls log =
     run_http C S b only_get heavy_document_render_http_ROUTE H calls log"

definition heavy_case_export_fn_main ::
  "serde \<Rightarrow> build \<Rightarrow> nat \<Rightarrow> (io_error \<Rightarrow> rstr) \<Rightarrow> os_faults \<Rightarrow> env_var \<Rightarrow> env_var \<Rightarrow> accepted list \<Rightarrow>
   server_state \<Rightarrow> (boot_error + sink list) \<times> server_state" where
  "heavy_case_export_fn_main S b pid show_io F format_var listener_var incoming st =
     run S b pid show_io F heavy_case_export_fn_ROUTE format_var listener_var incoming st"

definition heavy_document_render_fn_main ::
  "serde \<Rightarrow> build \<Rightarrow> nat \<Rightarrow> (io_error \<Rightarrow> rstr) \<Rightarrow> os_faults \<Rightarrow> env_var \<Rightarrow> env_var \<Rightarrow> accepted list \<Rightarrow>
   server_state \<Rightarrow> (boot_error + sink list) \<times> server_state" where
  "heavy_document_render_fn_main S b pid show_io F format_var listener_var incoming st =
     run S b pid show_io F heavy_document_render_fn_ROUTE format_var listener_var incoming st"

subsection \<open>One call, one route\<close>

lemma deployed_routes_differ:
  "max_event_bytes heavy_document_render_ROUTE = max_event_bytes heavy_case_export_ROUTE"
  "spec_path heavy_document_render_ROUTE \<noteq> spec_path heavy_case_export_ROUTE"
  "visible_text (spec_method heavy_case_export_ROUTE)" "visible_text (spec_method heavy_document_render_ROUTE)"
  by (auto simp: route_defs route_spec_new_def visible_text_def lit_Cons)

lemma other_route_404:
  assumes "acceptable A r" "max_event_bytes B = max_event_bytes A" "spec_path B \<noteq> spec_path A"
  shows "status_code (fst (dispatch_request b r B log)) = 404"
  using assms by (simp add: dispatch_request_status acceptable_iff)

lemma dispatch_status:
  "value_get (lit ''statusCode'') (fst (dispatch S b pid clock payload given_id spec log)) = Some (json_uint
     (if aws_base64 payload then 415
      else status_code (fst (dispatch_request b (aws_request S payload (aws_id (pid, clock, payload, given_id)))
        spec log))))"
  by (simp add: dispatch_def Let_def split_beta)

lemma dispatch_other_404:
  assumes "value_get (lit ''statusCode'') (fst (dispatch S b pid clock payload given_id A [])) = Some (json_uint 202)"
    and "max_event_bytes B = max_event_bytes A" "spec_path B \<noteq> spec_path A"
  shows "value_get (lit ''statusCode'') (fst (dispatch S b pid clock payload given_id B [])) = Some (json_uint 404)"
proof -
  let ?q = "aws_request S payload (aws_id (pid, clock, payload, given_id))"
  have b: "\<not> aws_base64 payload"
    using assms(1) by (auto simp: dispatch_status json_uint_inject)
  then have "acceptable A ?q"
    using assms(1) dispatch_status_small [of b ?q A "[]"]
    by (simp add: dispatch_status json_uint_inject dispatch_request_202)
  then show ?thesis using b assms(2,3) by (simp add: dispatch_status other_route_404)
qed

lemma run_aws_nth:
  "i < length deliveries \<Longrightarrow>
     fst (run_aws S b pid spec deliveries log) ! i =
       Inr (fst (dispatch S b pid (fst (deliveries ! i)) (event_payload (snd (deliveries ! i)))
         (context_request_id (snd (deliveries ! i))) spec []))"
  by (simp add: run_aws_each_alone handle_aws_def split_beta)

lemma run_http_nth:
  assumes "run_http C S b only_get spec H calls log = (Inr outs, log')" "i < length calls"
  shows "outs ! i = fst (http_service C S b only_get spec (calls ! i) [])"
proof -
  have "serve_all (http_service C S b only_get spec) calls l
      = (map (\<lambda>e. fst (http_service C S b only_get spec e [])) calls,
         l @ concat (map (\<lambda>e. snd (http_service C S b only_get spec e [])) calls))" for l
    by (rule serve_all_alone) (rule http_service_alone)
  with assms show ?thesis
    by (auto simp: run_http_def split: sum.splits if_splits)
qed

lemma http_other_404:
  assumes crate: "http_crate_ok C" "visible_text (spec_method A)" "visible_text (spec_method B)"
    and timed: "well_timed call" and path: "uri_path (snd (snd call)) \<noteq> lit ''/''"
    and quiet: "\<And>q. out_status (only_get q) \<noteq> 202"
    and differ: "max_event_bytes B = max_event_bytes A" "spec_path B \<noteq> spec_path A"
    and accepted: "out_status (fst (http_service C S b only_get A call [])) = 202"
  shows "out_status (fst (http_service C S b only_get B call [])) = 404"
proof -
  obtain pid clock request where e: "call = (pid, clock, request)" by (cases call) auto
  have route: "http_route (uri_path request) = FallbackRoute"
  proof (cases "http_route (uri_path request)")
    case HealthRoute
    have "out_status (http_response C S health) \<noteq> 202"
      using out_status_202 [of C S health] by (auto simp: health_def)
    with HealthRoute accepted quiet show ?thesis by (simp add: e split: if_splits)
  qed
  have t: "pid < 2 ^ 32" "unwrap_or clock 0 < 2 ^ 128" using timed by (simp_all add: e well_timed_def)
  obtain r where r: "http_normalise S A (pid, clock, request) = Some r" "acceptable A r"
    using accepted http_answer_202 [OF crate(1,2) t, of S b request "[]"]
    unfolding e http_service_answer [OF route] by blast
  have "http_normalise S B (pid, clock, request) = http_normalise S A (pid, clock, request)"
    using path differ(1) by (simp add: e admitted_body_def cong: sum.case_cong)
  with r(1) have "http_normalise S B (pid, clock, request) = Some r" by simp
  note out = http.dispatches [OF this, of C b "[]"]
  have "out_status (http_response C S (fst (dispatch_request b r B [])))
      = status_code (fst (dispatch_request b r B []))"
    using http_response_carries [OF crate(1,3) http_normalise_id_safe [OF t r(1)]] by simp
  with out show ?thesis
    unfolding e http_service_answer [OF route]
    by (simp add: fst_map_prod other_route_404 [OF r(2) differ] del: http_answer.simps)
qed


text \<open>One and the same export call, to both binaries of each runtime.\<close>

definition case_json :: json where
  "case_json = Object [(lit ''case_id'', Bool True)]"

definition case_codec :: serde where
  "case_codec = null_serde\<lparr>from_slice := (\<lambda>_. Some case_json), to_vec := (\<lambda>_. Some [])\<rparr>"

definition case_event :: lambda_event where
  "case_event = \<lparr>event_payload = aws_v2_event (lit ''POST'') (lit ''/api/heavy/case-export'') case_json,
     context_request_id = lit ''r''\<rparr>"

definition case_call :: http_call where
  "case_call = (1, Some 7, \<lparr>http_method = lit ''POST'', uri_path = lit ''/api/heavy/case-export'',
     http_headers = (\<lambda>_. None), read_body = (\<lambda>_. Some ''c'')\<rparr>)"

definition open_host :: http_host where
  "open_host = \<lparr>azure_var = NotPresent, generic_var = NotPresent, can_bind = (\<lambda>_. True)\<rparr>"

definition plain_405 :: "http_request \<Rightarrow> http_out" where
  "plain_405 = (\<lambda>_. \<lparr>out_status = 405, out_headers = [], out_body = []\<rparr>)"

lemma run_http_open:
  "\<exists>outs log'. run_http C S b only_get spec open_host calls log = (Inr outs, log')"
proof -
  have "configured_port (azure_var open_host) (generic_var open_host) = Inr 8080"
    by (simp add: open_host_def configured_port_def read_optional_env_def resolve_port_def
        DEFAULT_HTTP_PORT_def)
  then show ?thesis by (simp add: run_http_def open_host_def split_beta)
qed

lemma case_accepted:
  "has_required_value case_json (required_field heavy_case_export_ROUTE)"
  by (auto simp: has_required_value_iff case_json_def non_blank_def route_defs route_spec_new_def bt_get_def)

lemma case_event_accepted:
  "\<exists>v. fst (heavy_case_export_main case_codec b 1 [(Some 7, case_event)] []) ! 0 = Inr v
    \<and> value_get (lit ''statusCode'') v = Some (json_uint 202)"
proof -
  have "\<not> aws_base64 (event_payload case_event)"
    by (simp add: case_event_def aws_base64_def aws_v2_event_def value_get_obj)
  moreover have "acceptable heavy_case_export_ROUTE (aws_request case_codec (event_payload case_event) rid)" for rid
    using case_accepted
    by (simp add: acceptable_iff case_event_def aws_request_def aws_v2_event_def value_get_obj decode_json_value_def
        case_json_def case_codec_def route_defs route_spec_new_def DEFAULT_MAX_EVENT_BYTES_def
        eq_ignore_ascii_case_def)
  then have "status_code (fst (dispatch_request b (aws_request case_codec (event_payload case_event) rid)
      heavy_case_export_ROUTE [])) = 202" for rid
    by (simp only: dispatch_request_202)
  ultimately show ?thesis by (simp add: heavy_case_export_main_def run_aws_nth dispatch_status)
qed

lemma case_call_accepted:
  "out_status (fst (http_service strict_crate case_codec b plain_405 heavy_case_export_ROUTE case_call [])) = 202"
proof -
  let ?q = "\<lparr>http_method = lit ''POST'', uri_path = lit ''/api/heavy/case-export'',
     http_headers = (\<lambda>_. None), read_body = (\<lambda>_. Some ''c'')\<rparr>"
  have route: "http_route (uri_path ?q) = FallbackRoute" by (simp add: http_route_def)
  have "http_crate_ok strict_crate" by (simp add: http_crate_ok_def strict_crate_def)
  moreover have "\<exists>r. http_normalise case_codec heavy_case_export_ROUTE (1, Some 7, ?q) = Some r
      \<and> acceptable heavy_case_export_ROUTE r"
    using case_accepted
    by (simp add: acceptable_iff admitted_body_def decode_http_payload_def first_header_one
        starts_with_def to_ascii_lowercase_def case_codec_def route_defs route_spec_new_def
        DEFAULT_MAX_EVENT_BYTES_def eq_ignore_ascii_case_def)
  ultimately have "out_status (fst (http_answer strict_crate case_codec b heavy_case_export_ROUTE
      (1, Some 7, ?q) [])) = 202"
    by (subst http_answer_202) (simp_all only: deployed_routes_differ, simp_all)
  then show ?thesis unfolding case_call_def http_service_answer [OF route] .
qed

definition both_features :: build where
  "both_features = \<lparr>feature_aws = True, feature_http = True\<rparr>"


end
