(* ===== verification/Auth.thy ===== *)
theory Auth
  imports Json Rust_Num
begin

text \<open>
  Protected introspection (\<^verbatim>\<open>src/auth.rs\<close>). The Shared Auth client, its answer's fields and the
  UUID parser are not code of the repository: the client is the parameter \<open>C\<close>, a record of its
  operations on a client value \<open>'c\<close>, an answer is the record \<open>introspection\<close> with the fields the
  code reads, and \<open>uuid\<close> parses a text. The clock is read twice; both readings are parameters.
\<close>

type_synonym uuid = "128 word"
type_synonym uuid_parser = "rstr \<Rightarrow> uuid option"

definition CASES_READ_SCOPE :: rstr where
  "CASES_READ_SCOPE = lit ''apme:cases:read''"

definition MAX_INTROSPECTION_RESPONSE_BYTES :: nat where
  "MAX_INTROSPECTION_RESPONSE_BYTES = 65536"

record introspection =
  active :: bool
  aud :: "rstr option"
  iss :: "rstr option"
  exp_claim :: "nat option"
  nbf :: "nat option"
  subject_claim :: "rstr option"
  has_scope :: "rstr \<Rightarrow> bool"
  rest_claims :: "(rstr, json) btree"
  provider_tenant :: "rstr option"

record verified_identity =
  subject :: uuid
  identity_tenant :: uuid

datatype auth_error = Unauthorized | Unavailable | Configuration

datatype client_error = ClientUnauthorized | ClientInvalidInput rstr | ClientOther

record 'c client_ops =
  client_try_new :: "rstr \<Rightarrow> 'c option"
  with_max_response_bytes :: "nat \<Rightarrow> 'c \<Rightarrow> 'c"
  with_service_credential :: "rstr \<Rightarrow> 'c \<Rightarrow> 'c"
  introspect_with_requirements :: "'c \<Rightarrow> rstr \<Rightarrow> rstr \<Rightarrow> rstr list \<Rightarrow> client_error + introspection"

record 'c verifier =
  auth_client :: 'c
  our_audience :: rstr
  our_issuer :: rstr

subsection \<open>Claims\<close>

definition validate_claim :: "rstr \<Rightarrow> nat \<Rightarrow> unit + rstr" where
  "validate_claim value maximum =
     (if value = [] \<or> str_len value > maximum \<or> trim value \<noteq> value \<or> list_ex is_control value
      then Inl () else Inr value)"

definition parse_uuid_claim :: "uuid_parser \<Rightarrow> rstr option \<Rightarrow> uuid option" where
  "parse_uuid_claim uuid value =
     Option.bind value (\<lambda>v. case validate_claim v 128 of Inl _ \<Rightarrow> None | Inr c \<Rightarrow> uuid c)"

definition unix_timestamp :: "nat option \<Rightarrow> nat" where
  "unix_timestamp clock = unwrap_or clock 0"

definition validate_identity ::
  "uuid_parser \<Rightarrow> nat option \<Rightarrow> nat option \<Rightarrow> introspection \<Rightarrow> rstr \<Rightarrow> rstr \<Rightarrow> rstr list \<Rightarrow>
   auth_error + verified_identity" where
  "validate_identity uuid clock1 clock2 identity audience issuer required_scopes =
     (if \<not> active identity
         \<or> aud identity \<noteq> Some audience
         \<or> iss identity \<noteq> Some issuer
         \<or> is_none_or (\<lambda>expiry. expiry \<le> unix_timestamp clock1) (exp_claim identity)
         \<or> is_some_and (\<lambda>not_before. not_before > unix_timestamp clock2) (nbf identity)
         \<or> list_ex (\<lambda>required. \<not> has_scope identity required) required_scopes
      then Inl Unauthorized
      else
        and_then (ok_or Unauthorized (parse_uuid_claim uuid (subject_claim identity))) (\<lambda>subject.
          let tenant = or_else (Option.bind (bt_get (rest_claims identity) (lit ''tenant_id'')) as_str)
                         (provider_tenant identity)
          in and_then (ok_or Unauthorized (parse_uuid_claim uuid tenant)) (\<lambda>tenant_id.
               Inr \<lparr>subject = subject, identity_tenant = tenant_id\<rparr>)))"

definition map_client_error :: "client_error \<Rightarrow> auth_error" where
  "map_client_error error =
     (case error of ClientUnauthorized \<Rightarrow> Unauthorized | ClientInvalidInput _ \<Rightarrow> Unauthorized
      | ClientOther \<Rightarrow> Unavailable)"

definition verify_user ::
  "'c client_ops \<Rightarrow> uuid_parser \<Rightarrow> nat option \<Rightarrow> nat option \<Rightarrow> 'c verifier \<Rightarrow> rstr \<Rightarrow> rstr list \<Rightarrow>
   auth_error + verified_identity" where
  "verify_user C uuid clock1 clock2 v token required_scopes =
     and_then
       (map_err map_client_error
          (introspect_with_requirements C (auth_client v) token (our_audience v) required_scopes))
       (\<lambda>identity. validate_identity uuid clock1 clock2 identity (our_audience v) (our_issuer v) required_scopes)"

subsection \<open>Configuration\<close>

text \<open>An environment variable is its value when it is set and valid Unicode.\<close>

definition required_env :: "(rstr \<Rightarrow> rstr option) \<Rightarrow> rstr \<Rightarrow> auth_error + rstr" where
  "required_env env name =
     and_then (ok_or Configuration (env name)) (\<lambda>value.
       and_then (map_err (\<lambda>_. Configuration) (validate_claim value (16 * 1024))) (\<lambda>_. Inr value))"

definition try_new ::
  "'c client_ops \<Rightarrow> rstr \<Rightarrow> rstr option \<Rightarrow> rstr \<Rightarrow> rstr \<Rightarrow> auth_error + 'c verifier" where
  "try_new C base service_credential audience issuer =
     and_then (map_err (\<lambda>_. Configuration) (validate_claim audience 128)) (\<lambda>_.
     and_then (map_err (\<lambda>_. Configuration) (validate_claim issuer 256)) (\<lambda>_.
     and_then (ok_or Configuration (client_try_new C base)) (\<lambda>client.
       let client = with_max_response_bytes C MAX_INTROSPECTION_RESPONSE_BYTES client;
           client = (case service_credential of
                       Some credential \<Rightarrow> with_service_credential C credential client
                     | None \<Rightarrow> client)
       in Inr \<lparr>auth_client = client, our_audience = audience, our_issuer = issuer\<rparr>)))"

definition from_env :: "'c client_ops \<Rightarrow> (rstr \<Rightarrow> rstr option) \<Rightarrow> auth_error + 'c verifier" where
  "from_env C env =
     and_then (required_env env (lit ''SHARED_AUTH_BASE_URL'')) (\<lambda>base.
     and_then (required_env env (lit ''SHARED_AUTH_INTROSPECTION_CREDENTIAL'')) (\<lambda>service_credential.
     and_then (required_env env (lit ''SHARED_AUTH_AUDIENCE'')) (\<lambda>audience.
     and_then (required_env env (lit ''SHARED_AUTH_ISSUER'')) (\<lambda>issuer.
       try_new C base (Some service_credential) audience issuer))))"

subsection \<open>What a verified identity proves\<close>

definition claim_ok :: "nat \<Rightarrow> rstr \<Rightarrow> bool" where
  "claim_ok maximum s \<longleftrightarrow>
     s \<noteq> [] \<and> str_len s \<le> maximum \<and> trimmed s \<and> (\<forall>c \<in> set s. \<not> is_control c)"

lemma validate_claim_eq: "validate_claim s n = (if claim_ok n s then Inr s else Inl ())"
  by (auto simp: validate_claim_def claim_ok_def trim_eq_iff list_ex_iff)

lemma parse_uuid_claim_eq_Some:
  "parse_uuid_claim uuid o' = Some u \<longleftrightarrow> (\<exists>s. o' = Some s \<and> claim_ok 128 s \<and> uuid s = Some u)"
  by (cases o') (auto simp: parse_uuid_claim_def validate_claim_eq)

text \<open>The tenant claim: \<open>tenant_id\<close> where it is a text, the provider's tenant otherwise.\<close>

definition tenant_claim :: "introspection \<Rightarrow> rstr option" where
  "tenant_claim i =
     (case bt_get (rest_claims i) (lit ''tenant_id'') of
        Some (String s) \<Rightarrow> Some s
      | _ \<Rightarrow> provider_tenant i)"

definition current :: "nat \<Rightarrow> nat \<Rightarrow> introspection \<Rightarrow> bool" where
  "current t1 t2 i \<longleftrightarrow>
     (\<exists>e. exp_claim i = Some e \<and> t1 < e) \<and> (\<forall>n. nbf i = Some n \<longrightarrow> n \<le> t2)"

definition proves_identity ::
  "uuid_parser \<Rightarrow> introspection \<Rightarrow> verified_identity \<Rightarrow> bool" where
  "proves_identity uuid i who \<longleftrightarrow>
     (\<exists>s t. subject_claim i = Some s \<and> claim_ok 128 s \<and> uuid s = Some (subject who)
        \<and> tenant_claim i = Some t \<and> claim_ok 128 t \<and> uuid t = Some (identity_tenant who))"

lemma tenant_claim_eq:
  "or_else (Option.bind (bt_get (rest_claims i) (lit ''tenant_id'')) as_str) (provider_tenant i)
     = tenant_claim i"
  by (cases "bt_get (rest_claims i) (lit ''tenant_id'')")
     (auto simp: tenant_claim_def as_str_def split: json.split)

lemma validate_identity_ok:
  "validate_identity uuid c1 c2 i aud' iss' scopes = Inr who \<longleftrightarrow>
     active i \<and> aud i = Some aud' \<and> iss i = Some iss'
     \<and> current (unwrap_or c1 0) (unwrap_or c2 0) i \<and> (\<forall>s \<in> set scopes. has_scope i s)
     \<and> proves_identity uuid i who"
proof -
  have "(\<not> is_none_or (\<lambda>expiry. expiry \<le> unix_timestamp c1) (exp_claim i)
      \<and> \<not> is_some_and (\<lambda>not_before. not_before > unix_timestamp c2) (nbf i))
    \<longleftrightarrow> current (unwrap_or c1 0) (unwrap_or c2 0) i"
    by (cases "exp_claim i"; cases "nbf i") (auto simp: current_def unix_timestamp_def)
  then show ?thesis
    by (cases who)
       (auto simp: validate_identity_def and_then_eq_Inr parse_uuid_claim_eq_Some tenant_claim_eq
         proves_identity_def Let_def list_ex_iff simp del: not_le)
qed

text \<open>
  C13. Verification fails closed: \<open>verify_user\<close> yields an identity exactly when the authority
  answers for this token and audience with an active introspection of the configured audience and
  issuer, unexpired, already valid, holding every required scope, whose subject and tenant claims
  are well-formed UUIDs, and then it is that subject and that tenant.
\<close>

theorem verify_user_iff:
  "verify_user C uuid clock1 clock2 v token scopes = Inr who \<longleftrightarrow>
     (\<exists>i. introspect_with_requirements C (auth_client v) token (our_audience v) scopes = Inr i
        \<and> active i \<and> aud i = Some (our_audience v) \<and> iss i = Some (our_issuer v)
        \<and> current (unwrap_or clock1 0) (unwrap_or clock2 0) i \<and> list_all (has_scope i) scopes
        \<and> proves_identity uuid i who)"
  by (auto simp: verify_user_def and_then_eq_Inr validate_identity_ok list_all_iff)

lemma from_env_ok:
  "from_env C env = Inr v \<longleftrightarrow>
     (\<exists>base cred client.
        env (lit ''SHARED_AUTH_BASE_URL'') = Some base \<and> claim_ok 16384 base
        \<and> env (lit ''SHARED_AUTH_INTROSPECTION_CREDENTIAL'') = Some cred \<and> claim_ok 16384 cred
        \<and> env (lit ''SHARED_AUTH_AUDIENCE'') = Some (our_audience v) \<and> claim_ok 128 (our_audience v)
        \<and> env (lit ''SHARED_AUTH_ISSUER'') = Some (our_issuer v) \<and> claim_ok 256 (our_issuer v)
        \<and> client_try_new C base = Some client
        \<and> auth_client v = with_service_credential C cred (with_max_response_bytes C 65536 client))"
proof -
  have env: "required_env env k = Inr s \<longleftrightarrow> env k = Some s \<and> claim_ok 16384 s" for k s
    by (auto simp: required_env_def and_then_eq_Inr validate_claim_eq)
  have weaken: "claim_ok n s \<Longrightarrow> n \<le> m \<Longrightarrow> claim_ok m s" for n m s
    by (auto simp: claim_ok_def)
  have new: "try_new C base (Some cred) a i = Inr v \<longleftrightarrow>
      claim_ok 128 a \<and> claim_ok 256 i \<and> our_audience v = a \<and> our_issuer v = i
      \<and> (\<exists>client. client_try_new C base = Some client
          \<and> auth_client v = with_service_credential C cred (with_max_response_bytes C 65536 client))"
    for base cred a i
    by (cases v) (auto simp: try_new_def and_then_eq_Inr validate_claim_eq Let_def
        MAX_INTROSPECTION_RESPONSE_BYTES_def)
  show ?thesis
    using weaken [of 128 _ 16384] weaken [of 256 _ 16384]
    by (fastforce simp: from_env_def and_then_eq_Inr env new)
qed

text \<open>
  Every configuration fault is fatal: \<open>from_env\<close> builds a verifier exactly when all four
  variables are set to well-formed values, audience and issuer within their own bounds, and the
  client accepts the base URL; the client it then holds has the response cap set before anything
  else and carries the service credential of the environment.
\<close>

theorem from_env_iff:
  "from_env C env = Inr v \<longleftrightarrow>
     (\<exists>base cred client.
        env (lit ''SHARED_AUTH_BASE_URL'') = Some base \<and> claim_ok 16384 base
        \<and> env (lit ''SHARED_AUTH_INTROSPECTION_CREDENTIAL'') = Some cred \<and> claim_ok 16384 cred
        \<and> env (lit ''SHARED_AUTH_AUDIENCE'') = Some (our_audience v) \<and> claim_ok 128 (our_audience v)
        \<and> env (lit ''SHARED_AUTH_ISSUER'') = Some (our_issuer v) \<and> claim_ok 256 (our_issuer v)
        \<and> client_try_new C base = Some client
        \<and> auth_client v = with_service_credential C cred (with_max_response_bytes C 65536 client))"
  by (rule from_env_ok)

end
