(* ===== verification/Data_Plane_Http.thy ===== *)
theory Data_Plane_Http
  imports Auth
begin

unbundle bit_operations_syntax

text \<open>
  The avenues of the data plane and the stateless HTTP one (\<^verbatim>\<open>choose\<close> and module \<^verbatim>\<open>http\<close> of
  \<^verbatim>\<open>src/data_plane.rs\<close>): which base URLs are accepted, and the bounded read of the API's
  answer. A parsed \<open>url::Url\<close> is the record of what the code asks of it; parsing it, and what
  \<open>reqwest\<close> does on the network, are parameters. \<open>IpAddr\<close> is the standard library's and is
  modelled.
\<close>

datatype operation = CaseProjection | ApiCases | StatefulCases | AsyncStatus

datatype avenue = DirectReadOnlyDatabase | StatelessHttp | StatefulMtlsTcp | DurableJetStream

fun choose_avenue :: "operation \<Rightarrow> avenue" where
  "choose_avenue CaseProjection = DirectReadOnlyDatabase"
| "choose_avenue ApiCases = StatelessHttp"
| "choose_avenue StatefulCases = StatefulMtlsTcp"
| "choose_avenue AsyncStatus = DurableJetStream"

lemma choose_avenue_inj: "choose_avenue o1 = choose_avenue o2 \<longleftrightarrow> o1 = o2"
  by (cases o1; cases o2) simp_all

subsection \<open>Base URLs\<close>

record url =
  scheme :: rstr
  host_str :: "rstr option"
  username :: rstr
  password :: "rstr option"
  url_path :: rstr
  query :: "rstr option"
  fragment :: "rstr option"

datatype http_error =
    InvalidConfiguration
  | InvalidCredential
  | HttpUnavailable
  | Rejected
  | ResponseTooLarge

definition MAX_RESPONSE_BYTES :: nat where
  "MAX_RESPONSE_BYTES = 256 * 1024"

text \<open>
  \<open>Ipv4Addr::from_str\<close>: four octets of one to three digits, no leading zero, below 256.
\<close>

definition parse_octet :: "rstr \<Rightarrow> nat option" where
  "parse_octet s =
     (if s = [] \<or> length s > 3 \<or> \<not> list_all is_ascii_digit s \<or> (length s > 1 \<and> hd s = 48) then None
      else opt_filter (\<lambda>n. n \<le> 255) (digits_value 10 0 s))"

definition parse_ipv4 :: "rstr \<Rightarrow> (nat \<times> nat \<times> nat \<times> nat) option" where
  "parse_ipv4 s =
     (case map parse_octet (split_on 46 s) of
        [Some a, Some b, Some c, Some d] \<Rightarrow> Some (a, b, c, d)
      | _ \<Rightarrow> None)"

fun private_ipv4 :: "nat \<times> nat \<times> nat \<times> nat \<Rightarrow> bool" where
  "private_ipv4 (a, b, c, d) \<longleftrightarrow>
     a = 127
     \<or> a = 10 \<or> a = 172 \<and> 16 \<le> b \<and> b \<le> 31 \<or> a = 192 \<and> b = 168
     \<or> a = 169 \<and> b = 254"

text \<open>
  \<open>Ipv6Addr::from_str\<close>: eight groups of one to four hexadecimal digits, the last two of which may
  be an IPv4 address, or fewer with one \<open>::\<close> for at least one zero group.
\<close>

definition parse_hextet :: "rstr \<Rightarrow> 16 word option" where
  "parse_hextet s =
     (if s = [] \<or> length s > 4 then None else map_option of_nat (digits_value 16 0 s))"

fun parse_groups :: "bool \<Rightarrow> rstr list \<Rightarrow> 16 word list option" where
  "parse_groups v4 [] = Some []"
| "parse_groups v4 (g # gs) =
     (if v4 \<and> gs = [] \<and> 46 \<in> set g then
        map_option (\<lambda>(a, b, c, d). [of_nat (a * 256 + b), of_nat (c * 256 + d)]) (parse_ipv4 g)
      else Option.bind (parse_hextet g) (\<lambda>h. map_option (\<lambda>hs. h # hs) (parse_groups v4 gs)))"

definition groups_of :: "bool \<Rightarrow> rstr \<Rightarrow> 16 word list option" where
  "groups_of v4 s = (if s = [] then Some [] else parse_groups v4 (split_on 58 s))"

definition parse_ipv6 :: "rstr \<Rightarrow> 16 word list option" where
  "parse_ipv6 s =
     (case find_sub (lit ''::'') s of
        None \<Rightarrow> opt_filter (\<lambda>gs. length gs = 8) (groups_of True s)
      | Some i \<Rightarrow>
          Option.bind (groups_of False (take i s)) (\<lambda>hs.
          Option.bind (groups_of True (drop (i + 2) s)) (\<lambda>ts.
            if length hs + length ts \<le> 7
            then Some (hs @ replicate (8 - length hs - length ts) 0 @ ts) else None)))"

definition private_ipv6 :: "16 word list \<Rightarrow> bool" where
  "private_ipv6 segments \<longleftrightarrow>
     segments = [0, 0, 0, 0, 0, 0, 0, 1]
     \<or> (hd segments AND 0xfe00) = 0xfc00
     \<or> (hd segments AND 0xffc0) = 0xfe80"

definition private_address :: "rstr \<Rightarrow> bool" where
  "private_address host =
     (case parse_ipv4 host of
        Some address \<Rightarrow> private_ipv4 address
      | None \<Rightarrow> is_some_and private_ipv6 (parse_ipv6 host))"

definition transport_is_acceptable :: "url \<Rightarrow> bool" where
  "transport_is_acceptable u =
     (if scheme u = lit ''https'' then True
      else if scheme u \<noteq> lit ''http'' then False
      else (case host_str u of
              None \<Rightarrow> False
            | Some host \<Rightarrow>
                host = lit ''localhost''
                \<or> ends_with host (lit ''.localhost'')
                \<or> \<not> contains_sub (lit ''.'') host
                \<or> ends_with host (lit ''.svc.cluster.local'')
                \<or> ends_with host (lit ''.internal'')
                \<or> private_address host))"

subsection \<open>The transport\<close>

record response =
  is_success :: bool
  content_length :: "nat option"
  chunks :: "(unit + bytes) list"

record http_lib =
  parse_url :: "rstr \<Rightarrow> url option"
  client_builds :: bool
  extend_path :: "url \<Rightarrow> rstr list \<Rightarrow> url option"
  send :: "url \<Rightarrow> rstr \<Rightarrow> (rstr \<times> rstr) list \<Rightarrow> response option"

definition trim_end_matches :: "rchar \<Rightarrow> rstr \<Rightarrow> rstr" where
  "trim_end_matches c s = rev (dropWhile (\<lambda>x. x = c) (rev s))"

definition transport_try_new :: "http_lib \<Rightarrow> rstr \<Rightarrow> http_error + url" where
  "transport_try_new H base =
     and_then (ok_or InvalidConfiguration (parse_url H base)) (\<lambda>base.
       if host_str base = None \<or> username base \<noteq> [] \<or> password base \<noteq> None \<or> query base \<noteq> None
          \<or> fragment base \<noteq> None \<or> \<not> transport_is_acceptable base
       then Inl InvalidConfiguration
       else
         let path = trim_end_matches 47 (url_path base);
             base = base\<lparr>url_path := (if path = [] then lit ''/'' else path)\<rparr>
         in if client_builds H then Inr base else Inl InvalidConfiguration)"

definition transport_from_env :: "http_lib \<Rightarrow> rstr option \<Rightarrow> http_error + url option" where
  "transport_from_env H var =
     (case opt_filter (\<lambda>v. v \<noteq> []) (map_option trim var) of
        None \<Rightarrow> Inr None
      | Some base \<Rightarrow> and_then (transport_try_new H base) (\<lambda>t. Inr (Some t)))"

definition valid_token :: "rstr \<Rightarrow> bool" where
  "valid_token value \<longleftrightarrow>
     \<not> (value = [] \<or> str_len value > 16 * 1024 \<or> list_ex is_whitespace value \<or> list_ex is_control value)"

definition validate_token :: "rstr \<Rightarrow> http_error + unit" where
  "validate_token value = (if valid_token value then Inr () else Inl InvalidCredential)"

fun read_chunks :: "bytes \<Rightarrow> (unit + bytes) list \<Rightarrow> http_error + bytes" where
  "read_chunks body [] = Inr body"
| "read_chunks body (Inl _ # cs) = Inl HttpUnavailable"
| "read_chunks body (Inr chunk # cs) =
     (if saturating_add (length body) (length chunk) > MAX_RESPONSE_BYTES then Inl ResponseTooLarge
      else read_chunks (body @ chunk) cs)"

definition http_cases :: "http_lib \<Rightarrow> serde \<Rightarrow> (uuid \<Rightarrow> rstr) \<Rightarrow> url \<Rightarrow> rstr \<Rightarrow> uuid \<Rightarrow> http_error + json" where
  "http_cases H S show_uuid base bearer_token tenant_id =
     and_then (validate_token bearer_token) (\<lambda>_.
     and_then (ok_or InvalidConfiguration (extend_path H base [lit ''api'', lit ''v1'', lit ''cases'']))
       (\<lambda>endpoint.
     and_then (ok_or HttpUnavailable
         (send H endpoint bearer_token [(lit ''x-apme-tenant-id'', show_uuid tenant_id)])) (\<lambda>response.
       if \<not> is_success response then Inl Rejected
       else if is_some_and (\<lambda>length. length > MAX_RESPONSE_BYTES) (content_length response)
       then Inl ResponseTooLarge
       else and_then (read_chunks [] (chunks response)) (\<lambda>body.
              ok_or Rejected (from_slice S body)))))"

subsection \<open>Cleartext only inside\<close>

definition show_ipv4 :: "nat \<times> nat \<times> nat \<times> nat \<Rightarrow> rstr" where
  "show_ipv4 = (\<lambda>(a, b, c, d). show_dec a @ 46 # show_dec b @ 46 # show_dec c @ 46 # show_dec d)"

lemma parse_octet_show: "n \<le> 255 \<Longrightarrow> parse_octet (show_dec n) = Some n"
proof -
  assume n: "n \<le> 255"
  then have len: "length (show_dec n) \<le> 3" by (intro length_show_dec) simp_all
  have "\<not> (length (show_dec n) > 1 \<and> hd (show_dec n) = 48)"
  proof (cases "n < 10")
    case True
    then show ?thesis by (subst (1) show_dec.simps) simp
  next
    case False
    then show ?thesis using hd_show_dec [of n] by simp
  qed
  moreover have "list_all is_ascii_digit (show_dec n)"
    using show_dec_digits by (auto simp: list_all_iff)
  ultimately show ?thesis
    using n len digits_value_show_dec [of n] by (simp add: parse_octet_def not_less)
qed

lemma no_dot_show_dec: "46 \<notin> set (show_dec n)"
  using show_dec_digits [of 46 n] by (auto simp: is_ascii_digit_def)

lemma parse_ipv4_show:
  "a \<le> 255 \<Longrightarrow> b \<le> 255 \<Longrightarrow> c \<le> 255 \<Longrightarrow> d \<le> 255 \<Longrightarrow> parse_ipv4 (show_ipv4 (a, b, c, d)) = Some (a, b, c, d)"
  by (simp add: parse_ipv4_def show_ipv4_def split_on_append split_on_none no_dot_show_dec parse_octet_show)

lemma show_ipv4_not_named:
  fixes a b c d :: nat
  defines "h \<equiv> show_ipv4 (a, b, c, d)"
  shows "h \<noteq> lit ''localhost''" "\<not> ends_with h (lit ''.localhost'')" "contains_sub (lit ''.'') h"
    and "\<not> ends_with h (lit ''.svc.cluster.local'')" "\<not> ends_with h (lit ''.internal'')"
proof -
  have l: "is_ascii_digit (last h)" by (simp add: h_def show_ipv4_def last_show_dec)
  have "contains_sub [46] h"
    unfolding contains_sub_iff h_def show_ipv4_def by (rule exI [of _ "show_dec a"]) simp
  then show "contains_sub (lit ''.'') h" by (simp add: lit_Cons)
  show "h \<noteq> lit ''localhost''" using l by (auto simp: lit_Cons is_ascii_digit_def)
  have "\<not> ends_with h p" if "p \<noteq> []" "\<not> is_ascii_digit (last p)" for p
    using l that ends_with_last by metis
  then show "\<not> ends_with h (lit ''.localhost'')" "\<not> ends_with h (lit ''.svc.cluster.local'')"
    "\<not> ends_with h (lit ''.internal'')"
    by (simp_all add: lit_Cons is_ascii_digit_def)
qed

text \<open>
  Cleartext HTTP to an IPv4 address is accepted exactly inside: for every address in dotted
  decimal form, an \<open>http\<close> base URL is acceptable if and only if the address is loopback, in one
  of the three private ranges or link-local, and an \<open>https\<close> one always is.
\<close>

theorem cleartext_ipv4_iff:
  assumes "a \<le> 255" "b \<le> 255" "c \<le> 255" "d \<le> 255" "host_str u = Some (show_ipv4 (a, b, c, d))"
  shows "transport_is_acceptable (u\<lparr>scheme := lit ''http''\<rparr>) =
      (a \<in> {10, 127} \<or> a = 172 \<and> b \<in> {16..31} \<or> (a, b) \<in> {(192, 168), (169, 254)})
    \<and> transport_is_acceptable (u\<lparr>scheme := lit ''https''\<rparr>)"
  using assms show_ipv4_not_named [of a b c d] parse_ipv4_show [of a b c d]
  by (auto simp: transport_is_acceptable_def private_address_def)

theorem cleartext_ipv4_iff_witness:
  "\<not> transport_is_acceptable (\<lparr>scheme = [], host_str = Some (show_ipv4 (172, 32, 0, 1)), username = [],
       password = None, url_path = [47], query = None, fragment = None\<rparr>\<lparr>scheme := lit ''http''\<rparr>)
   \<and> transport_is_acceptable (\<lparr>scheme = [], host_str = Some (show_ipv4 (172, 31, 0, 1)), username = [],
       password = None, url_path = [47], query = None, fragment = None\<rparr>\<lparr>scheme := lit ''http''\<rparr>)"
  using cleartext_ipv4_iff [of 172 32 0 1 "\<lparr>scheme = [], host_str = Some (show_ipv4 (172, 32, 0, 1)),
      username = [], password = None, url_path = [47], query = None, fragment = None\<rparr>"]
    cleartext_ipv4_iff [of 172 31 0 1 "\<lparr>scheme = [], host_str = Some (show_ipv4 (172, 31, 0, 1)),
      username = [], password = None, url_path = [47], query = None, fragment = None\<rparr>"]
  by simp

text \<open>
  A bracketed IPv6 host has no dot, so the rule for undotted names accepts every one of them, and
  the test of its segments is never reached: brackets do not parse as an address.
\<close>

lemma bracketed_ipv6_accepted:
  assumes "host_str u = Some (91 # h)" "46 \<notin> set h" "scheme u = lit ''http''"
  shows "transport_is_acceptable u"
proof -
  have "46 \<notin> set (91 # h)" using assms(2) by simp
  then have "\<not> contains_sub (lit ''.'') (91 # h)"
    using contains_sub_set [of "lit ''.''" "91 # h"] by (auto simp: lit_Cons)
  with assms show ?thesis by (simp add: transport_is_acceptable_def)
qed

text \<open>What an accepted base URL is: checked, without credentials, query or fragment.\<close>

definition checked_base :: "url \<Rightarrow> bool" where
  "checked_base u \<longleftrightarrow>
     transport_is_acceptable u \<and> host_str u \<noteq> None \<and> username u = [] \<and> password u = None
     \<and> query u = None \<and> fragment u = None \<and> (last (url_path u) = 47 \<longrightarrow> url_path u = lit ''/'')"

lemma trim_end_matches_last: "trim_end_matches c s \<noteq> [] \<Longrightarrow> last (trim_end_matches c s) \<noteq> c"
  using hd_dropWhile [of "\<lambda>x. x = c" "rev s"] by (simp add: trim_end_matches_def last_rev)

lemma transport_try_new_checked: "transport_try_new H base = Inr u \<Longrightarrow> checked_base u"
  using trim_end_matches_last [of 47]
  by (auto simp: transport_try_new_def and_then_eq_Inr checked_base_def transport_is_acceptable_def Let_def
      split: if_splits)

subsection \<open>Bounded answers\<close>

lemma read_chunks_ok:
  "read_chunks body cs = Inr out \<longleftrightarrow>
     (\<exists>bs. cs = map Inr bs \<and> out = body @ concat bs \<and> (bs = [] \<or> length out \<le> MAX_RESPONSE_BYTES))"
proof (induction cs arbitrary: body)
  case Nil
  then show ?case by auto
next
  case (Cons c cs)
  have cap: "saturating_add n m > MAX_RESPONSE_BYTES \<longleftrightarrow> n + m > MAX_RESPONSE_BYTES" for n m
    by (auto simp: saturating_add_def MAX_RESPONSE_BYTES_def usize_max_def)
  show ?case
  proof (cases c)
    case (Inl u)
    then show ?thesis by (auto simp: map_eq_Cons_conv)
  next
    case (Inr chunk)
    then show ?thesis
      by (auto simp: Cons.IH cap Cons_eq_map_conv not_less)
  qed
qed

text \<open>
  C34. The API is asked only with a well-formed credential, and its answer is taken only whole and
  within 256 KiB: the call succeeds exactly when the request is sent for this tenant with this
  token, the answer is a success whose declared length, if any, and whose streamed body both stay
  within the cap, and the body is JSON.
\<close>

theorem http_cases_iff:
  "http_cases H S show_uuid base token tenant = Inr v \<longleftrightarrow>
     valid_token token
     \<and> (\<exists>endpoint r bs.
          extend_path H base [lit ''api'', lit ''v1'', lit ''cases''] = Some endpoint
          \<and> send H endpoint token [(lit ''x-apme-tenant-id'', show_uuid tenant)] = Some r
          \<and> is_success r \<and> is_none_or (\<lambda>n. n \<le> 262144) (content_length r)
          \<and> chunks r = map Inr bs \<and> length (concat bs) \<le> 262144
          \<and> from_slice S (concat bs) = Some v)"
proof -
  have len: "\<not> is_some_and (\<lambda>n. n > MAX_RESPONSE_BYTES) l \<longleftrightarrow> is_none_or (\<lambda>n. n \<le> 262144) l" for l
    by (cases l) (auto simp: MAX_RESPONSE_BYTES_def)
  have read: "read_chunks [] cs = Inr out \<longleftrightarrow> (\<exists>bs. cs = map Inr bs \<and> out = concat bs \<and> length out \<le> 262144)"
    for cs out
    by (auto simp: read_chunks_ok MAX_RESPONSE_BYTES_def)
  show ?thesis
    unfolding http_cases_def validate_token_def
    by (auto simp: and_then_eq_Inr read len [symmetric])
qed

end
