(* ===== verification/Data_Plane_Tcp.thy ===== *)
theory Data_Plane_Tcp
  imports Data_Plane_Http
begin

text \<open>
  The stateful mTLS avenue (module \<^verbatim>\<open>tcp\<close> of \<^verbatim>\<open>src/data_plane.rs\<close>): one persistent channel
  that carries a frame out and takes the next frame in, per call. The state of the channel is what
  has been sent and the frames that have arrived and were not taken. What the network does during
  a call, the outcome of the send, the frames that arrive while it waits, whether the peer has
  closed, is part of the call. The serializers that serde derives for the two frame types are
  parameters. How a channel is opened is the theory \<open>Tcp_Connect\<close>.
\<close>

definition MAX_REQUEST_BYTES :: nat where
  "MAX_REQUEST_BYTES = 20 * 1024"

record tcp_config =
  tcp_address :: rstr
  tcp_server_name :: rstr
  tcp_ca_path :: rstr
  tcp_client_certificate_path :: rstr
  tcp_client_key_path :: rstr

record frame_request =
  frame_request_id :: uuid
  frame_tenant_id :: uuid
  frame_bearer_token :: rstr
  frame_operation :: rstr

record frame_response =
  response_request_id :: uuid
  response_status :: rstr
  response_payload :: "json option"
  response_error :: "rstr option"

record frame_codec =
  encode_request :: "frame_request \<Rightarrow> bytes option"
  decode_frame :: "bytes \<Rightarrow> frame_response option"

datatype tcp_error = InvalidData rstr | TimedOut rstr | OtherIo

text \<open>A send that times out may have handed its frame to the codec, which then sends it later.\<close>

datatype send_outcome = Sent | SendTimedOut bool | SendFailed

record channel =
  sent :: "bytes list"
  arrived :: "(unit + bytes) list"

record tcp_call =
  call_id :: uuid
  call_tenant :: uuid
  call_token :: rstr
  call_send :: send_outcome
  call_arrivals :: "(unit + bytes) list"
  call_closed :: bool

subsection \<open>Configuration\<close>

definition optional_env :: "(rstr \<Rightarrow> rstr option) \<Rightarrow> rstr \<Rightarrow> rstr option" where
  "optional_env env name = opt_filter (\<lambda>v. v \<noteq> []) (map_option trim (env name))"

definition tcp_required_env :: "(rstr \<Rightarrow> rstr option) \<Rightarrow> rstr \<Rightarrow> tcp_error + rstr" where
  "tcp_required_env env name =
     ok_or (InvalidData (lit ''required mTLS configuration is missing'')) (optional_env env name)"

definition tcp_config_from_env :: "(rstr \<Rightarrow> rstr option) \<Rightarrow> tcp_error + tcp_config option" where
  "tcp_config_from_env env =
     (case optional_env env (lit ''APME_API_TCP_ADDRESS'') of
        None \<Rightarrow> Inr None
      | Some address \<Rightarrow>
          and_then (tcp_required_env env (lit ''APME_API_TCP_SERVER_NAME'')) (\<lambda>server_name.
          and_then (tcp_required_env env (lit ''APME_API_TCP_CA_FILE'')) (\<lambda>ca.
          and_then (tcp_required_env env (lit ''APME_API_TCP_CLIENT_CERT_FILE'')) (\<lambda>cert.
          and_then (tcp_required_env env (lit ''APME_API_TCP_CLIENT_KEY_FILE'')) (\<lambda>key.
            Inr (Some \<lparr>tcp_address = address, tcp_server_name = server_name, tcp_ca_path = ca,
              tcp_client_certificate_path = cert, tcp_client_key_path = key\<rparr>))))))"

subsection \<open>A round trip\<close>

definition tcp_validate_token :: "rstr \<Rightarrow> tcp_error + unit" where
  "tcp_validate_token value =
     (if value = [] \<or> str_len value > 16 * 1024 \<or> list_ex is_whitespace value \<or> list_ex is_control value
      then Inl (InvalidData (lit ''invalid user token'')) else Inr ())"

text \<open>\<open>framed.next()\<close> within its time limit: the oldest frame, if one is there or arrives.\<close>

definition next_frame :: "tcp_call \<Rightarrow> channel \<Rightarrow> (tcp_error + bytes) \<times> channel" where
  "next_frame call ch =
     (case arrived ch @ call_arrivals call of
        [] \<Rightarrow>
          (Inl (if call_closed call then InvalidData (lit ''mTLS API closed connection'')
                else TimedOut (lit ''mTLS receive timed out'')), ch)
      | f # fs \<Rightarrow>
          (case f of Inl _ \<Rightarrow> Inl OtherIo | Inr bytes \<Rightarrow> Inr bytes, ch\<lparr>arrived := fs\<rparr>))"

definition judge_frame :: "frame_codec \<Rightarrow> uuid \<Rightarrow> bytes \<Rightarrow> tcp_error + json" where
  "judge_frame K request_id bytes =
     and_then (ok_or OtherIo (decode_frame K bytes)) (\<lambda>response.
       if response_request_id response \<noteq> request_id
          \<or> response_status response \<noteq> lit ''ok''
          \<or> response_error response \<noteq> None
       then Inl (InvalidData (lit ''mTLS cases response rejected''))
       else ok_or (InvalidData (lit ''mTLS cases response omitted payload'')) (response_payload response))"

definition request_of :: "tcp_call \<Rightarrow> frame_request" where
  "request_of call =
     \<lparr>frame_request_id = call_id call, frame_tenant_id = call_tenant call,
      frame_bearer_token = call_token call, frame_operation = lit ''list_cases''\<rparr>"

definition tcp_cases :: "frame_codec \<Rightarrow> tcp_call \<Rightarrow> channel \<Rightarrow> (tcp_error + json) \<times> channel" where
  "tcp_cases K call ch =
     (case and_then (tcp_validate_token (call_token call)) (\<lambda>_.
             and_then (ok_or OtherIo (encode_request K (request_of call))) (\<lambda>payload.
               if payload = [] \<or> length payload > MAX_REQUEST_BYTES
               then Inl (InvalidData (lit ''invalid request frame length''))
               else Inr payload)) of
        Inl e \<Rightarrow> (Inl e, ch)
      | Inr payload \<Rightarrow>
          (case call_send call of
             SendTimedOut buffered \<Rightarrow>
               (Inl (TimedOut (lit ''mTLS send timed out'')),
                if buffered then ch\<lparr>sent := sent ch @ [payload]\<rparr> else ch)
           | SendFailed \<Rightarrow> (Inl OtherIo, ch)
           | Sent \<Rightarrow>
               (case next_frame call (ch\<lparr>sent := sent ch @ [payload]\<rparr>) of
                  (Inl e, ch) \<Rightarrow> (Inl e, ch)
                | (Inr bytes, ch) \<Rightarrow> (judge_frame K (call_id call) bytes, ch))))"

text \<open>Calls one after the other; that the mutex around the channel allows no others is \<open>Tcp_Tasks\<close>.\<close>

fun tcp_run :: "frame_codec \<Rightarrow> tcp_call list \<Rightarrow> channel \<Rightarrow> (tcp_error + json) list \<times> channel" where
  "tcp_run K [] ch = ([], ch)"
| "tcp_run K (call # calls) ch =
     (let (result, ch) = tcp_cases K call ch; (results, ch) = tcp_run K calls ch
      in (result # results, ch))"

subsection \<open>Correlation\<close>

definition sendable :: "frame_codec \<Rightarrow> tcp_call \<Rightarrow> bytes \<Rightarrow> bool" where
  "sendable K call payload \<longleftrightarrow>
     valid_token (call_token call) \<and> encode_request K (request_of call) = Some payload
     \<and> payload \<noteq> [] \<and> length payload \<le> 20480 \<and> call_send call = Sent"

lemma tcp_validate_token_ok: "tcp_validate_token v = Inr u \<longleftrightarrow> valid_token v"
  by (auto simp: tcp_validate_token_def valid_token_def)

lemma tcp_cases_sent:
  assumes "sendable K call payload"
  shows "tcp_cases K call ch =
    (case next_frame call (ch\<lparr>sent := sent ch @ [payload]\<rparr>) of
       (Inl e, ch) \<Rightarrow> (Inl e, ch) | (Inr bytes, ch) \<Rightarrow> (judge_frame K (call_id call) bytes, ch))"
proof -
  have "tcp_validate_token (call_token call) = Inr ()"
    using assms by (simp add: sendable_def tcp_validate_token_ok)
  then show ?thesis using assms by (simp add: tcp_cases_def sendable_def MAX_REQUEST_BYTES_def)
qed

lemma tcp_cases_unsent:
  assumes "\<nexists>payload. sendable K call payload"
  shows "\<exists>e ch'. tcp_cases K call ch = (Inl e, ch')"
proof (cases "tcp_validate_token (call_token call)")
  case (Inl e)
  then show ?thesis by (simp add: tcp_cases_def)
next
  case (Inr u)
  then have "valid_token (call_token call)" using tcp_validate_token_ok by blast
  with assms Inr show ?thesis
    by (cases "encode_request K (request_of call)")
       (auto simp: tcp_cases_def sendable_def MAX_REQUEST_BYTES_def split: send_outcome.split)
qed

definition accepted_answer :: "frame_codec \<Rightarrow> uuid \<Rightarrow> json \<Rightarrow> bytes \<Rightarrow> bool" where
  "accepted_answer K i v bytes \<longleftrightarrow>
     (\<exists>r. decode_frame K bytes = Some r \<and> response_request_id r = i \<and> response_status r = lit ''ok''
        \<and> response_error r = None \<and> response_payload r = Some v)"

lemma judge_frame_ok: "judge_frame K i bytes = Inr v \<longleftrightarrow> accepted_answer K i v bytes"
  by (auto simp: judge_frame_def accepted_answer_def and_then_eq_Inr)

text \<open>
  C20. An answer over the persistent channel belongs to its request: a call returns a payload exactly
  when its frame, with a valid token and at most 20 KiB long, has been sent and the next frame in
  is a success without an error that carries the identifier of this very request; a frame with
  another identifier, such as the late answer of an earlier call, is never returned.
\<close>

theorem tcp_cases_correlated:
  "(\<exists>ch'. tcp_cases K call ch = (Inr v, ch')) \<longleftrightarrow>
     (\<exists>payload bytes fs. sendable K call payload
        \<and> arrived ch @ call_arrivals call = Inr bytes # fs \<and> accepted_answer K (call_id call) v bytes
        \<and> tcp_cases K call ch = (Inr v, \<lparr>sent = sent ch @ [payload], arrived = fs\<rparr>))"
proof (cases "\<exists>payload. sendable K call payload")
  case False
  then show ?thesis using tcp_cases_unsent [of K call ch] by auto
next
  case True
  then obtain payload where s: "sendable K call payload" by blast
  show ?thesis
  proof (cases "arrived ch @ call_arrivals call")
    case Nil
    then show ?thesis using tcp_cases_sent [OF s, of ch] by (simp add: next_frame_def)
  next
    case (Cons f fs)
    then show ?thesis
      using tcp_cases_sent [OF s, of ch] s judge_frame_ok [of K "call_id call" _ v]
      by (cases f) (cases ch, auto simp: next_frame_def)
  qed
qed

subsection \<open>The channel as a queue\<close>

definition taken_by :: "frame_codec \<Rightarrow> tcp_call \<Rightarrow> unit + bytes \<Rightarrow> tcp_error + json" where
  "taken_by K call f = (case f of Inl _ \<Rightarrow> Inl OtherIo | Inr bytes \<Rightarrow> judge_frame K (call_id call) bytes)"

text \<open>A frame is there, or arrives in time, whenever a call waits for one.\<close>

definition never_starved :: "(unit + bytes) list \<Rightarrow> tcp_call list \<Rightarrow> bool" where
  "never_starved fs calls \<longleftrightarrow>
     (\<forall>n < length calls. n < length (fs @ concat (map call_arrivals (take (Suc n) calls))))"

lemma never_starved_Cons:
  assumes "never_starved fs (call # calls)"
  obtains g gs where "fs @ call_arrivals call = g # gs" "never_starved gs calls"
proof -
  have "fs @ call_arrivals call \<noteq> []"
    using assms [unfolded never_starved_def, rule_format, of 0] by auto
  then obtain g gs where g: "fs @ call_arrivals call = g # gs" by (cases "fs @ call_arrivals call") auto
  have "n < length (gs @ concat (map call_arrivals (take (Suc n) calls)))" if "n < length calls" for n
  proof -
    have "Suc n < length ((fs @ call_arrivals call) @ concat (map call_arrivals (take (Suc n) calls)))"
      using assms [unfolded never_starved_def, rule_format, of "Suc n"] that by simp
    then show ?thesis unfolding g by simp
  qed
  then have "never_starved gs calls" unfolding never_starved_def by blast
  with g show thesis by (rule that)
qed

text \<open>
  C23. Over any number of calls the channel is a queue and nothing else: when every call can be sent
  and a frame is there whenever one waits, the \<open>n\<close>-th call takes the \<open>n\<close>-th frame, counting those
  that were there at the start, and judges it by its own identifier; every request goes out once, in
  order, and the frames not taken stay. With one answer per call a fresh channel stays in step, and
  one that starts with a stale frame stays one frame behind.
\<close>

theorem tcp_run_queue:
  assumes "list_all (\<lambda>call. \<exists>payload. sendable K call payload) calls" "never_starved (arrived ch) calls"
  shows "fst (tcp_run K calls ch) =
      map2 (taken_by K) calls (arrived ch @ concat (map call_arrivals calls))
    \<and> arrived (snd (tcp_run K calls ch)) =
      drop (length calls) (arrived ch @ concat (map call_arrivals calls))
    \<and> sent (snd (tcp_run K calls ch)) = sent ch @ map (\<lambda>call. the (encode_request K (request_of call))) calls"
  using assms
proof (induction calls arbitrary: ch)
  case Nil
  then show ?case by simp
next
  case (Cons call calls)
  obtain payload where s: "sendable K call payload" using Cons.prems(1) by auto
  obtain g gs where g: "arrived ch @ call_arrivals call = g # gs" "never_starved gs calls"
    using Cons.prems(2) by (rule never_starved_Cons)
  let ?ch = "ch\<lparr>sent := sent ch @ [payload], arrived := gs\<rparr>"
  have step: "tcp_cases K call ch = (taken_by K call g, ?ch)"
    unfolding tcp_cases_sent [OF s] using g(1) by (cases g) (simp_all add: next_frame_def taken_by_def)
  have frames: "arrived ch @ concat (map call_arrivals (call # calls)) = g # gs @ concat (map call_arrivals calls)"
    using g(1) by simp
  have "encode_request K (request_of call) = Some payload" using s by (simp add: sendable_def)
  then show ?case unfolding frames
    using Cons.IH [of ?ch] Cons.prems(1) g(2) by (simp add: step split_beta)
qed

subsection \<open>Staying in step, and falling out of it\<close>

text \<open>A server that answers every request with an identifier of its own.\<close>

definition answers :: "frame_codec \<Rightarrow> uuid \<Rightarrow> bytes \<Rightarrow> bool" where
  "answers K i bytes \<longleftrightarrow> (\<exists>r. decode_frame K bytes = Some r \<and> response_request_id r = i)"

definition prompt_call :: "frame_codec \<Rightarrow> tcp_call \<Rightarrow> bool" where
  "prompt_call K call \<longleftrightarrow>
     (\<exists>payload bytes. sendable K call payload \<and> call_arrivals call = [Inr bytes]
        \<and> answers K (call_id call) bytes)"

text \<open>
  The channel never recovers from a late answer: when the answer to a call that timed out
  arrives after all, and the server then answers every later call promptly and correctly, each of
  these calls takes the frame of its predecessor and is rejected; nothing discards the stale frame
  or reconnects.
\<close>

theorem late_answer_rejects_forever:
  assumes "arrived ch = [Inr stale]" "answers K i stale"
    and "list_all (prompt_call K) calls" "distinct (i # map call_id calls)"
  shows "fst (tcp_run K calls ch)
    = replicate (length calls) (Inl (InvalidData (lit ''mTLS cases response rejected'')))"
  using assms
proof (induction calls arbitrary: ch stale i)
  case Nil
  then show ?case by simp
next
  case (Cons call calls)
  obtain payload bytes where c: "sendable K call payload" "call_arrivals call = [Inr bytes]"
    "answers K (call_id call) bytes"
    using Cons.prems(3) by (auto simp: prompt_call_def)
  have "judge_frame K (call_id call) stale = Inl (InvalidData (lit ''mTLS cases response rejected''))"
    using Cons.prems(2,4) by (auto simp: judge_frame_def answers_def)
  then have step: "tcp_cases K call ch = (Inl (InvalidData (lit ''mTLS cases response rejected'')),
      ch\<lparr>sent := sent ch @ [payload], arrived := [Inr bytes]\<rparr>)"
    using tcp_cases_sent [OF c(1), of ch] c(2) Cons.prems(1) by (simp add: next_frame_def)
  have "fst (tcp_run K calls (ch\<lparr>sent := sent ch @ [payload], arrived := [Inr bytes]\<rparr>))
      = replicate (length calls) (Inl (InvalidData (lit ''mTLS cases response rejected'')))"
    using Cons.IH [OF _ c(3)] Cons.prems(3,4) by simp
  then show ?case by (simp add: step split_beta)
qed

definition sample_codec :: frame_codec where
  "sample_codec = \<lparr>encode_request = (\<lambda>q. Some ''q''),
     decode_frame = (\<lambda>bs. Some \<lparr>response_request_id = of_nat (length bs), response_status = lit ''ok'',
       response_payload = Some Null, response_error = None\<rparr>)\<rparr>"

definition sample_tcp_call :: "nat \<Rightarrow> tcp_call" where
  "sample_tcp_call n = \<lparr>call_id = of_nat n, call_tenant = 0, call_token = lit ''t'', call_send = Sent,
     call_arrivals = [Inr (replicate n (CHR ''a''))], call_closed = False\<rparr>"

lemma sample_tcp_call_prompt: "prompt_call sample_codec (sample_tcp_call n)"
  by (simp add: prompt_call_def sendable_def sample_codec_def sample_tcp_call_def answers_def
      valid_token_def str_len_ascii lit_Cons char_class_defs)

theorem late_answer_rejects_forever_witness:
  "fst (tcp_run sample_codec [sample_tcp_call 2, sample_tcp_call 3]
     \<lparr>sent = [], arrived = [Inr ''a'']\<rparr>)
   = [Inl (InvalidData (lit ''mTLS cases response rejected'')),
      Inl (InvalidData (lit ''mTLS cases response rejected''))]"
proof -
  have "answers sample_codec 1 ''a''" by (simp add: answers_def sample_codec_def)
  moreover have "list_all (prompt_call sample_codec) [sample_tcp_call 2, sample_tcp_call 3]"
    using sample_tcp_call_prompt by simp
  moreover have "distinct (1 # map call_id [sample_tcp_call 2, sample_tcp_call 3])"
    by (simp add: sample_tcp_call_def)
  ultimately have "fst (tcp_run sample_codec [sample_tcp_call 2, sample_tcp_call 3]
      \<lparr>sent = [], arrived = [Inr ''a'']\<rparr>)
    = replicate (length [sample_tcp_call 2, sample_tcp_call 3])
        (Inl (InvalidData (lit ''mTLS cases response rejected'')))"
    using late_answer_rejects_forever [of "\<lparr>sent = [], arrived = [Inr ''a'']\<rparr>" "''a''" sample_codec 1
        "[sample_tcp_call 2, sample_tcp_call 3]"]
    by simp
  then show ?thesis by (simp add: numeral_2_eq_2)
qed

text \<open>Two prompt calls on a fresh channel, for the queue.\<close>

theorem tcp_run_queue_witness:
  "fst (tcp_run sample_codec [sample_tcp_call 2, sample_tcp_call 3] \<lparr>sent = [], arrived = []\<rparr>)
     = [Inr Null, Inr Null]"
proof -
  have "list_all (\<lambda>call. \<exists>payload. sendable sample_codec call payload) [sample_tcp_call 2, sample_tcp_call 3]"
    using sample_tcp_call_prompt by (auto simp: prompt_call_def)
  moreover have "never_starved [] [sample_tcp_call 2, sample_tcp_call 3]"
    by (auto simp: never_starved_def sample_tcp_call_def less_Suc_eq numeral_2_eq_2)
  moreover have "taken_by sample_codec (sample_tcp_call n) (Inr (replicate n (CHR ''a''))) = Inr Null" for n
    by (simp add: taken_by_def judge_frame_def sample_codec_def sample_tcp_call_def)
  moreover have "concat (map call_arrivals [sample_tcp_call 2, sample_tcp_call 3])
      = [Inr (replicate 2 (CHR ''a'')), Inr (replicate 3 (CHR ''a''))]"
    by (simp add: sample_tcp_call_def)
  ultimately show ?thesis
    using tcp_run_queue [of sample_codec "[sample_tcp_call 2, sample_tcp_call 3]" "\<lparr>sent = [], arrived = []\<rparr>"]
    by simp
qed

end
