(* ===== verification/Data_Plane_Direct.thy ===== *)
theory Data_Plane_Direct
  imports Auth
begin

text \<open>
  The direct avenue (module \<^verbatim>\<open>direct\<close> of \<^verbatim>\<open>src/data_plane.rs\<close>): a count in a read-only
  transaction. The database is a parameter, what it answers to each statement; the model keeps the
  trace of the statements issued. A transaction that is dropped without a commit is rolled back by
  the library.
\<close>

datatype db_op = Begin | Execute rstr | QueryOne rstr uuid | Rollback

datatype db_error = DbFailed | RecordNotFound rstr

record 'row database =
  begin_ok :: bool
  execute_ok :: "rstr \<Rightarrow> bool"
  query_one :: "rstr \<Rightarrow> uuid \<Rightarrow> unit + 'row option"
  try_get_count :: "'row \<Rightarrow> int option"
  rollback_ok :: bool

definition SET_READ_ONLY :: rstr where
  "SET_READ_ONLY = lit ''SET TRANSACTION READ ONLY''"

definition COUNT_CASES :: rstr where
  "COUNT_CASES = lit ''SELECT COUNT(*)::INT8 AS case_count FROM apme_cases WHERE tenant_id = $1 AND tombstoned_at IS NULL''"

definition json_i64 :: "int \<Rightarrow> json" where
  "json_i64 n = Number (if n \<ge> 0 then PosInt (of_int n) else NegInt (of_int n))"

definition case_projection ::
  "'row database \<Rightarrow> (uuid \<Rightarrow> rstr) \<Rightarrow> uuid \<Rightarrow> (db_error + json) \<times> db_op list" where
  "case_projection D show_uuid tenant_id =
     (if \<not> begin_ok D then (Inl DbFailed, [Begin])
      else if \<not> execute_ok D SET_READ_ONLY then (Inl DbFailed, [Begin, Execute SET_READ_ONLY])
      else
        (let done = [Begin, Execute SET_READ_ONLY, QueryOne COUNT_CASES tenant_id] in
         case and_then (map_err (\<lambda>_. DbFailed) (query_one D COUNT_CASES tenant_id)) (\<lambda>found.
                and_then (ok_or (RecordNotFound (lit ''case projection row missing'')) found) (\<lambda>row.
                ok_or DbFailed (try_get_count D row))) of
           Inl e \<Rightarrow> (Inl e, done)
         | Inr case_count \<Rightarrow>
             (if \<not> rollback_ok D then Inl DbFailed
              else Inr (json_obj [(lit ''tenantId'', String (show_uuid tenant_id)),
                                  (lit ''caseCount'', json_i64 case_count),
                                  (lit ''mode'', String (lit ''direct_read_only_db''))]),
              done @ [Rollback])))"

definition read_only_script :: "uuid \<Rightarrow> db_op list" where
  "read_only_script tenant = [Begin, Execute SET_READ_ONLY, QueryOne COUNT_CASES tenant, Rollback]"


end
