(* ===== verification/Data_Plane_Nats.thy ===== *)
theory Data_Plane_Nats
  imports Data_Plane_Tcp Data_Plane_Direct
begin

text \<open>
  The durable avenue (module \<^verbatim>\<open>nats\<close> of \<^verbatim>\<open>src/data_plane.rs\<close>): the configuration and stream
  checks, and a status call, which publishes one signal and then polls for the answer until a time
  limit. The broker is a parameter: whether it connects, the streams it has, whether it accepts a
  message, what the \<open>i\<close>-th read of the answer's subject gives and what the clock says, in
  milliseconds since the start of the poll, when it is read after it. The derived serializers are
  parameters too. The poll is a partial function: that it returns is a theorem.
\<close>

definition REQUEST_SUBJECT :: rstr where
  "REQUEST_SUBJECT = lit ''apme.web_api.outbox.status''"

definition RESPONSE_SUBJECT_PREFIX :: rstr where
  "RESPONSE_SUBJECT_PREFIX = lit ''apme.web_api.inbox.status''"

definition REQUEST_SCHEMA :: rstr where
  "REQUEST_SCHEMA = lit ''apme.async-status-request.v1''"

definition RESPONSE_SCHEMA :: rstr where
  "RESPONSE_SCHEMA = lit ''apme.async-status-response.v1''"

definition MAX_SIGNAL_BYTES :: nat where
  "MAX_SIGNAL_BYTES = 4 * 1024"

definition MAX_STATUS_BYTES :: nat where
  "MAX_STATUS_BYTES = 64 * 1024"

definition ASYNC_TIMEOUT :: nat where
  "ASYNC_TIMEOUT = 10 * 1000"

datatype nats_error = NatsInvalid rstr | NatsTimedOut rstr | NatsOther

record nats_config =
  nats_url :: rstr
  credentials_path :: rstr
  request_stream :: rstr
  response_stream :: rstr

datatype storage_type = FileStorage | MemoryStorage

datatype retention_policy = Limits | Interest | WorkQueue

record stream_config =
  storage :: storage_type
  retention :: retention_policy
  subjects :: "rstr list"
  allow_direct :: bool
  duplicate_window :: nat

record status_request =
  request_schema :: rstr
  request_operation_id :: uuid

record status_response =
  response_schema :: rstr
  response_operation_id :: uuid
  status_text :: rstr
  service :: rstr
  database_ready :: bool

record broker =
  connects :: bool
  get_stream :: "rstr \<Rightarrow> stream_config option"
  publish :: "rstr \<Rightarrow> rstr \<Rightarrow> bytes \<Rightarrow> bool"
  last_for_subject :: "rstr \<Rightarrow> nat \<Rightarrow> bytes option"
  elapsed :: "nat \<Rightarrow> nat"

record status_codec =
  encode_signal :: "status_request \<Rightarrow> bytes option"
  decode_status :: "bytes \<Rightarrow> status_response option"

subsection \<open>Configuration\<close>

definition safe_topology_name :: "rstr \<Rightarrow> bool" where
  "safe_topology_name value \<longleftrightarrow>
     value \<noteq> [] \<and> str_len value \<le> 128
     \<and> list_all (\<lambda>c. is_ascii_alphanumeric c \<or> c = 95 \<or> c = 45) value"

definition nats_validate :: "nats_config \<Rightarrow> nats_error + unit" where
  "nats_validate config =
     and_then (ok_or (NatsInvalid (lit ''NATS URL must use tls://''))
         (strip_prefix (lit ''tls://'') (nats_url config))) (\<lambda>rest.
       let authority = first_segment (\<lambda>c. c = 47) rest in
       if authority = [] \<or> 64 \<in> set authority
       then Inl (NatsInvalid (lit ''NATS URL credentials are forbidden''))
       else if \<not> safe_topology_name (request_stream config) \<or> \<not> safe_topology_name (response_stream config)
       then Inl (NatsInvalid (lit ''invalid JetStream topology name''))
       else Inr ())"

definition nats_config_from_env :: "(rstr \<Rightarrow> rstr option) \<Rightarrow> nats_error + nats_config option" where
  "nats_config_from_env env =
     (case optional_env env (lit ''APME_NATS_URL'') of
        None \<Rightarrow> Inr None
      | Some url \<Rightarrow>
          and_then (ok_or (NatsInvalid (lit ''required JetStream configuration is missing''))
              (optional_env env (lit ''APME_NATS_CREDENTIALS_FILE''))) (\<lambda>credentials.
            let config = \<lparr>nats_url = url, credentials_path = credentials,
                  request_stream = unwrap_or (optional_env env (lit ''APME_NATS_REQUEST_STREAM''))
                    (lit ''APME_STATUS_OUTBOX''),
                  response_stream = unwrap_or (optional_env env (lit ''APME_NATS_RESPONSE_STREAM''))
                    (lit ''APME_STATUS_INBOX'')\<rparr>
            in and_then (nats_validate config) (\<lambda>_. Inr (Some config))))"

definition validate_request_stream :: "stream_config \<Rightarrow> nats_error + unit" where
  "validate_request_stream config =
     (if storage config \<noteq> FileStorage \<or> retention config \<noteq> WorkQueue
         \<or> \<not> list_ex (\<lambda>s. s = REQUEST_SUBJECT) (subjects config) \<or> duplicate_window config = 0
      then Inl (NatsInvalid (lit ''unsafe JetStream request stream'')) else Inr ())"

definition validate_response_stream :: "stream_config \<Rightarrow> nats_error + unit" where
  "validate_response_stream config =
     (if storage config \<noteq> FileStorage \<or> retention config \<noteq> Limits \<or> \<not> allow_direct config
         \<or> \<not> list_ex (\<lambda>s. s = RESPONSE_SUBJECT_PREFIX @ lit ''.*'') (subjects config)
         \<or> duplicate_window config = 0
      then Inl (NatsInvalid (lit ''unsafe JetStream response stream'')) else Inr ())"

definition nats_connect :: "broker \<Rightarrow> nats_config \<Rightarrow> nats_error + unit" where
  "nats_connect B config =
     and_then (nats_validate config) (\<lambda>_.
     if \<not> connects B then Inl NatsOther
     else
       and_then (ok_or NatsOther (get_stream B (request_stream config))) (\<lambda>request.
       and_then (validate_request_stream request) (\<lambda>_.
       and_then (ok_or NatsOther (get_stream B (response_stream config))) (\<lambda>response.
       validate_response_stream response))))"

subsection \<open>The status call\<close>

definition decode_response :: "status_codec \<Rightarrow> bytes \<Rightarrow> uuid \<Rightarrow> nats_error + json" where
  "decode_response K payload expected_operation_id =
     and_then (ok_or NatsOther (decode_status K payload)) (\<lambda>response.
       if response_schema response \<noteq> RESPONSE_SCHEMA
          \<or> response_operation_id response \<noteq> expected_operation_id
          \<or> status_text response \<noteq> lit ''ok''
          \<or> service response \<noteq> lit ''apme-api''
       then Inl (NatsInvalid (lit ''status response correlation mismatch''))
       else Inr (json_obj [(lit ''service'', String (service response)),
                           (lit ''databaseReady'', Bool (database_ready response)),
                           (lit ''mode'', String (lit ''durable_jetstream''))]))"

definition judge_status :: "status_codec \<Rightarrow> uuid \<Rightarrow> bytes \<Rightarrow> nats_error + json" where
  "judge_status K operation_id payload =
     (if length payload > MAX_STATUS_BYTES then Inl (NatsInvalid (lit ''status response too large''))
      else decode_response K payload operation_id)"

partial_function (option) poll ::
  "broker \<Rightarrow> status_codec \<Rightarrow> rstr \<Rightarrow> uuid \<Rightarrow> nat \<Rightarrow> (nats_error + json) option" where
  "poll B K subj operation_id i =
     (case last_for_subject B subj i of
        Some payload \<Rightarrow> Some (judge_status K operation_id payload)
      | None \<Rightarrow>
          if elapsed B i \<ge> ASYNC_TIMEOUT then Some (Inl (NatsTimedOut (lit ''status response timed out'')))
          else poll B K subj operation_id (Suc i))"

definition nats_status ::
  "broker \<Rightarrow> status_codec \<Rightarrow> (uuid \<Rightarrow> rstr) \<Rightarrow> uuid \<Rightarrow> (nats_error + json) option" where
  "nats_status B K show_uuid operation_id =
     (case encode_signal K \<lparr>request_schema = REQUEST_SCHEMA, request_operation_id = operation_id\<rparr> of
        None \<Rightarrow> Some (Inl NatsOther)
      | Some payload \<Rightarrow>
          if length payload > MAX_SIGNAL_BYTES
          then Some (Inl (NatsInvalid (lit ''status signal too large'')))
          else if \<not> publish B REQUEST_SUBJECT (lit ''apme-status-request-'' @ show_uuid operation_id) payload
          then Some (Inl NatsOther)
          else poll B K (RESPONSE_SUBJECT_PREFIX @ lit ''.'' @ show_uuid operation_id) operation_id 0)"

subsection \<open>The configuration gate\<close>

definition tls_without_credentials :: "rstr \<Rightarrow> bool" where
  "tls_without_credentials url \<longleftrightarrow>
     (\<exists>authority rest. url = lit ''tls://'' @ authority @ rest \<and> authority \<noteq> []
        \<and> 64 \<notin> set authority \<and> 47 \<notin> set authority \<and> (rest = [] \<or> hd rest = 47))"

lemma first_segment_split:
  "\<exists>rest. s = first_segment P s @ rest \<and> (rest = [] \<or> P (hd rest))"
proof -
  have "dropWhile (\<lambda>c. \<not> P c) s = [] \<or> P (hd (dropWhile (\<lambda>c. \<not> P c) s))"
    using hd_dropWhile [of "\<lambda>c. \<not> P c" s] by blast
  then show ?thesis
    by (intro exI [of _ "dropWhile (\<lambda>c. \<not> P c) s"]) (simp add: first_segment_def)
qed

lemma nats_url_ok:
  "(\<exists>rest. url = lit ''tls://'' @ rest \<and> first_segment (\<lambda>c. c = 47) rest \<noteq> []
      \<and> 64 \<notin> set (first_segment (\<lambda>c. c = 47) rest)) \<longleftrightarrow> tls_without_credentials url"
proof
  assume "\<exists>rest. url = lit ''tls://'' @ rest \<and> first_segment (\<lambda>c. c = 47) rest \<noteq> []
      \<and> 64 \<notin> set (first_segment (\<lambda>c. c = 47) rest)"
  then obtain rest where r: "url = lit ''tls://'' @ rest" "first_segment (\<lambda>c. c = 47) rest \<noteq> []"
    "64 \<notin> set (first_segment (\<lambda>c. c = 47) rest)" by blast
  moreover obtain r' where "rest = first_segment (\<lambda>c. c = 47) rest @ r'" "r' = [] \<or> hd r' = 47"
    using first_segment_split [of rest "\<lambda>c. c = 47"] by blast
  moreover have "47 \<notin> set (first_segment (\<lambda>c. c = 47) rest)"
    using first_segment_no [of "\<lambda>c. c = 47" rest] by blast
  ultimately show "tls_without_credentials url" unfolding tls_without_credentials_def by metis
next
  assume "tls_without_credentials url"
  then obtain a r where u: "url = lit ''tls://'' @ a @ r" "a \<noteq> []" "64 \<notin> set a" "47 \<notin> set a"
    "r = [] \<or> hd r = 47" by (auto simp: tls_without_credentials_def)
  have "first_segment (\<lambda>c. c = 47) (a @ r) = a"
    by (rule first_segment_append) (use u in auto)
  with u show "\<exists>rest. url = lit ''tls://'' @ rest \<and> first_segment (\<lambda>c. c = 47) rest \<noteq> []
      \<and> 64 \<notin> set (first_segment (\<lambda>c. c = 47) rest)" by metis
qed

lemma nats_validate_ok:
  "nats_validate config = Inr u \<longleftrightarrow>
     tls_without_credentials (nats_url config) \<and> safe_topology_name (request_stream config)
     \<and> safe_topology_name (response_stream config)"
  by (auto simp: nats_validate_def and_then_eq_Inr Let_def strip_prefix_eq_Some nats_url_ok [symmetric])

lemma nats_connect_ok:
  "nats_connect B config = Inr () \<longleftrightarrow>
     tls_without_credentials (nats_url config) \<and> safe_topology_name (request_stream config)
     \<and> safe_topology_name (response_stream config) \<and> connects B
     \<and> (\<exists>q. get_stream B (request_stream config) = Some q \<and> storage q = FileStorage
          \<and> retention q = WorkQueue \<and> REQUEST_SUBJECT \<in> set (subjects q) \<and> 0 < duplicate_window q)
     \<and> (\<exists>r. get_stream B (response_stream config) = Some r \<and> storage r = FileStorage
          \<and> retention r = Limits \<and> allow_direct r
          \<and> lit ''apme.web_api.inbox.status.*'' \<in> set (subjects r) \<and> 0 < duplicate_window r)"
proof -
  have "RESPONSE_SUBJECT_PREFIX @ lit ''.*'' = lit ''apme.web_api.inbox.status.*''"
    by (simp add: RESPONSE_SUBJECT_PREFIX_def lit_append [symmetric])
  then show ?thesis
    by (auto simp: nats_connect_def and_then_eq_Inr nats_validate_ok validate_request_stream_def
        validate_response_stream_def list_ex_iff split: if_splits)
qed

text \<open>
  C35. The broker is reached only over TLS and only with pre-provisioned durable streams: a
  connection is made exactly for a \<open>tls://\<close> URL whose authority is not empty and carries no
  credentials, safe stream names, and a file-backed deduplicating work queue for the requests and a
  file-backed deduplicating stream with direct reads for the answers.
\<close>

theorem nats_connect_iff:
  "nats_connect B config = Inr () \<longleftrightarrow>
     tls_without_credentials (nats_url config) \<and> safe_topology_name (request_stream config)
     \<and> safe_topology_name (response_stream config) \<and> connects B
     \<and> (\<exists>q. get_stream B (request_stream config) = Some q \<and> storage q = FileStorage
          \<and> retention q = WorkQueue \<and> REQUEST_SUBJECT \<in> set (subjects q) \<and> 0 < duplicate_window q)
     \<and> (\<exists>r. get_stream B (response_stream config) = Some r \<and> storage r = FileStorage
          \<and> retention r = Limits \<and> allow_direct r
          \<and> lit ''apme.web_api.inbox.status.*'' \<in> set (subjects r) \<and> 0 < duplicate_window r)"
  by (rule nats_connect_ok)

subsection \<open>Polling ends\<close>

lemma poll_stops:
  assumes "\<forall>m < k. last_for_subject B s (i + m) = None \<and> elapsed B (i + m) < ASYNC_TIMEOUT"
  shows "poll B K s op i = poll B K s op (i + k)"
  using assms
proof (induction k)
  case 0
  then show ?case by simp
next
  case (Suc k)
  then have "poll B K s op i = poll B K s op (i + k)" by simp
  also have "\<dots> = poll B K s op (i + Suc k)"
    using Suc.prems [rule_format, of k] by (subst poll.simps) simp
  finally show ?case .
qed

text \<open>
  C24. A status call always returns, and only with its own answer: since the loop sleeps at least 100
  milliseconds between two reads, it stops at one of the first 101 reads, at the first one that
  finds a message or that ends past the limit; it returns a value exactly when that message is at
  most 64 KiB and is a successful answer of the API for this very operation.
\<close>

theorem poll_returns:
  assumes "\<And>i. 100 * i \<le> elapsed B i"
  shows "\<exists>n \<le> 100. (\<forall>m < n. last_for_subject B subj m = None)
    \<and> poll B K subj operation_id 0 =
        Some (case last_for_subject B subj n of
                None \<Rightarrow> Inl (NatsTimedOut (lit ''status response timed out''))
              | Some payload \<Rightarrow> judge_status K operation_id payload)
    \<and> (\<forall>v. poll B K subj operation_id 0 = Some (Inr v) \<longrightarrow>
        (\<exists>payload r. last_for_subject B subj n = Some payload \<and> length payload \<le> 65536
           \<and> decode_status K payload = Some r \<and> response_operation_id r = operation_id
           \<and> status_text r = lit ''ok'' \<and> service r = lit ''apme-api''))"
proof -
  define stop where "stop = (\<lambda>n. last_for_subject B subj n \<noteq> None \<or> elapsed B n \<ge> ASYNC_TIMEOUT)"
  define n where "n = (LEAST n. stop n)"
  have "stop 100" using assms [of 100] by (simp add: stop_def ASYNC_TIMEOUT_def)
  then have n: "stop n" "n \<le> 100" "\<And>m. m < n \<Longrightarrow> \<not> stop m"
    unfolding n_def by (auto intro: LeastI Least_le dest: not_less_Least)
  have "poll B K subj operation_id 0 = poll B K subj operation_id n"
    using poll_stops [of n B subj 0 K operation_id] n(3) by (simp add: stop_def not_le)
  also have "\<dots> = Some (case last_for_subject B subj n of
      None \<Rightarrow> Inl (NatsTimedOut (lit ''status response timed out''))
    | Some payload \<Rightarrow> judge_status K operation_id payload)"
    using n(1) by (subst poll.simps) (auto simp: stop_def split: option.split)
  finally have eq: "poll B K subj operation_id 0 = \<dots>" .
  have "\<forall>m < n. last_for_subject B subj m = None" using n(3) by (simp add: stop_def)
  moreover have "\<exists>payload r. last_for_subject B subj n = Some payload \<and> length payload \<le> 65536
      \<and> decode_status K payload = Some r \<and> response_operation_id r = operation_id
      \<and> status_text r = lit ''ok'' \<and> service r = lit ''apme-api''"
    if "poll B K subj operation_id 0 = Some (Inr v)" for v
    using that unfolding eq
    by (auto simp: judge_status_def decode_response_def and_then_eq_Inr MAX_STATUS_BYTES_def
        split: option.splits if_splits)
  ultimately show ?thesis using n(2) eq by blast
qed

theorem poll_returns_witness:
  "\<exists>e. poll \<lparr>connects = True, get_stream = (\<lambda>_. None), publish = (\<lambda>_ _ _. True),
       last_for_subject = (\<lambda>_ _. None), elapsed = (\<lambda>i. 100 * i)\<rparr>
     \<lparr>encode_signal = (\<lambda>_. None), decode_status = (\<lambda>_. None)\<rparr> [] 0 0 = Some (Inl e)"
  using poll_returns [of "\<lparr>connects = True, get_stream = (\<lambda>_. None), publish = (\<lambda>_ _ _. True),
       last_for_subject = (\<lambda>_ _. None), elapsed = (\<lambda>i. 100 * i)\<rparr>" "[]"
      "\<lparr>encode_signal = (\<lambda>_. None), decode_status = (\<lambda>_. None)\<rparr>" 0]
  by auto

end
