(* ===== verification/Web_App.thy ===== *)
theory Web_App
  imports Data_Plane_Nats
begin

text \<open>
  The web server's handlers (\<^verbatim>\<open>src/main.rs\<close>): the gate in front of the four data-plane avenues,
  the in-memory items, and the WebSocket loop. Headers are looked up through a view
  (\<open>headers.get(name)\<close> followed by \<open>to_str().ok()\<close>). The verifier is a parameter here and is
  instantiated with \<open>verify_user\<close>; the backends are what the avenues answer, \<open>None\<close> for one that
  is not configured or not compiled in, and the model keeps the calls made to them. A page is
  the data it shows; its HTML is the subject of \<open>Web_Pages\<close>.
\<close>

definition TENANT_HEADER :: rstr where
  "TENANT_HEADER = lit ''x-apme-tenant-id''"

record web_error =
  error_status :: nat
  error_code :: rstr

definition web_unavailable :: web_error where
  "web_unavailable = \<lparr>error_status = 503, error_code = lit ''temporarily_unavailable''\<rparr>"

definition web_error_body :: "web_error \<Rightarrow> json" where
  "web_error_body e = json_obj [(lit ''error'', String (error_code e))]"

subsection \<open>The gate\<close>

definition bearer :: "(rstr \<Rightarrow> rstr option) \<Rightarrow> web_error + rstr" where
  "bearer hs =
     ok_or \<lparr>error_status = 401, error_code = lit ''unauthorized''\<rparr>
       (opt_filter
          (\<lambda>value. value \<noteq> [] \<and> str_len value \<le> 16 * 1024 \<and> \<not> list_ex is_whitespace value
             \<and> \<not> list_ex is_control value)
          (map_option trim
             (Option.bind (hs (lit ''authorization'')) (strip_prefix (lit ''Bearer '')))))"

definition tenant_id :: "uuid_parser \<Rightarrow> (rstr \<Rightarrow> rstr option) \<Rightarrow> web_error + uuid" where
  "tenant_id uuid hs =
     ok_or \<lparr>error_status = 422, error_code = lit ''invalid_tenant''\<rparr>
       (Option.bind (hs TENANT_HEADER) uuid)"

definition map_auth_error :: "auth_error \<Rightarrow> web_error" where
  "map_auth_error error =
     (case error of
        Unauthorized \<Rightarrow> \<lparr>error_status = 401, error_code = lit ''unauthorized''\<rparr>
      | Unavailable \<Rightarrow> web_unavailable
      | Configuration \<Rightarrow> web_unavailable)"

definition operation_of :: "rstr \<Rightarrow> operation option" where
  "operation_of avenue =
     (if avenue = lit ''direct'' then Some CaseProjection
      else if avenue = lit ''http'' then Some ApiCases
      else if avenue = lit ''tcp'' then Some StatefulCases
      else if avenue = lit ''nats'' then Some AsyncStatus
      else None)"

datatype backend_call =
    DirectCall uuid
  | HttpCall rstr uuid
  | TcpCall uuid uuid rstr
  | NatsCall uuid

record backends =
  database :: "(uuid \<Rightarrow> json option) option"
  http_transport :: "(rstr \<Rightarrow> uuid \<Rightarrow> json option) option"
  tcp_channel :: "(uuid \<Rightarrow> uuid \<Rightarrow> rstr \<Rightarrow> json option) option"
  nats_transport :: "(uuid \<Rightarrow> json option) option"

definition call_backend ::
  "backends \<Rightarrow> uuid \<Rightarrow> avenue \<Rightarrow> rstr \<Rightarrow> uuid \<Rightarrow> (web_error + json) \<times> backend_call list" where
  "call_backend W fresh avenue token tenant =
     (case avenue of
        DirectReadOnlyDatabase \<Rightarrow>
          (case database W of
             None \<Rightarrow> (Inl web_unavailable, [])
           | Some f \<Rightarrow> (ok_or web_unavailable (f tenant), [DirectCall tenant]))
      | StatelessHttp \<Rightarrow>
          (case http_transport W of
             None \<Rightarrow> (Inl web_unavailable, [])
           | Some f \<Rightarrow> (ok_or web_unavailable (f token tenant), [HttpCall token tenant]))
      | StatefulMtlsTcp \<Rightarrow>
          (case tcp_channel W of
             None \<Rightarrow> (Inl web_unavailable, [])
           | Some f \<Rightarrow> (ok_or web_unavailable (f fresh tenant token), [TcpCall fresh tenant token]))
      | DurableJetStream \<Rightarrow>
          (case nats_transport W of
             None \<Rightarrow> (Inl web_unavailable, [])
           | Some f \<Rightarrow> (ok_or web_unavailable (f fresh), [NatsCall fresh])))"

definition data_plane_request ::
  "uuid_parser \<Rightarrow> (rstr \<Rightarrow> rstr list \<Rightarrow> auth_error + verified_identity) \<Rightarrow> backends \<Rightarrow> uuid \<Rightarrow> rstr \<Rightarrow>
   (rstr \<Rightarrow> rstr option) \<Rightarrow> (web_error + json) \<times> backend_call list" where
  "data_plane_request uuid verify W fresh avenue hs =
     (case and_then (bearer hs) (\<lambda>token.
             and_then (map_err map_auth_error (verify token [CASES_READ_SCOPE])) (\<lambda>identity.
             and_then (tenant_id uuid hs) (\<lambda>requested_tenant.
               if requested_tenant \<noteq> identity_tenant identity
               then Inl \<lparr>error_status = 403, error_code = lit ''forbidden''\<rparr>
               else
                 and_then
                   (ok_or \<lparr>error_status = 404, error_code = lit ''unknown_data_plane_avenue''\<rparr>
                     (operation_of avenue))
                   (\<lambda>operation. Inr (choose_avenue operation, token, identity_tenant identity))))) of
        Inl e \<Rightarrow> (Inl e, [])
      | Inr (chosen, token, tenant) \<Rightarrow> call_backend W fresh chosen token tenant)"

subsection \<open>What passes the gate\<close>

definition intended_call :: "uuid \<Rightarrow> rstr \<Rightarrow> uuid \<Rightarrow> rstr \<Rightarrow> backend_call option" where
  "intended_call fresh token tenant avenue =
     (if avenue = lit ''direct'' then Some (DirectCall tenant)
      else if avenue = lit ''http'' then Some (HttpCall token tenant)
      else if avenue = lit ''tcp'' then Some (TcpCall fresh tenant token)
      else if avenue = lit ''nats'' then Some (NatsCall fresh) else None)"

lemma bearer_ok:
  "bearer hs = Inr token \<longleftrightarrow>
     valid_token token \<and> (\<exists>v. hs (lit ''authorization'') = Some (lit ''Bearer '' @ v) \<and> token = trim v)"
  by (auto simp: bearer_def valid_token_def bind_eq_Some_conv strip_prefix_eq_Some)

lemma call_backend_calls:
  assumes "operation_of avenue = Some op" "snd (call_backend W fresh (choose_avenue op) token tenant) \<noteq> []"
  shows "\<exists>c. snd (call_backend W fresh (choose_avenue op) token tenant) = [c]
    \<and> intended_call fresh token tenant avenue = Some c"
  using assms
  by (auto simp: operation_of_def call_backend_def intended_call_def split: if_splits option.splits)

lemma gate_passed:
  assumes "data_plane_request uuid verify W fresh avenue hs = (r, c # cs)"
  shows "\<exists>token who. bearer hs = Inr token \<and> verify token [CASES_READ_SCOPE] = Inr who
    \<and> Option.bind (hs TENANT_HEADER) uuid = Some (identity_tenant who)
    \<and> intended_call fresh token (identity_tenant who) avenue = Some c \<and> cs = []"
proof -
  obtain token who op where g: "bearer hs = Inr token" "verify token [CASES_READ_SCOPE] = Inr who"
    "tenant_id uuid hs = Inr (identity_tenant who)" "operation_of avenue = Some op"
    "call_backend W fresh (choose_avenue op) token (identity_tenant who) = (r, c # cs)"
    using assms
    by (auto simp: data_plane_request_def and_then_eq_Inr split: sum.splits prod.splits if_splits)
  have "Option.bind (hs TENANT_HEADER) uuid = Some (identity_tenant who)"
    using g(3) by (simp add: tenant_id_def)
  moreover have "intended_call fresh token (identity_tenant who) avenue = Some c \<and> cs = []"
    using call_backend_calls [OF g(4), of W fresh token "identity_tenant who"] g(5) by simp
  ultimately show ?thesis using g(1,2) by blast
qed

text \<open>What the gate asks of an authority: an identity it gives out is one it vouches for.\<close>

locale authority =
  fixes verify :: "rstr \<Rightarrow> rstr list \<Rightarrow> auth_error + verified_identity"
    and vouched :: "rstr \<Rightarrow> rstr list \<Rightarrow> verified_identity \<Rightarrow> bool"
  assumes vouches: "verify token scopes = Inr who \<Longrightarrow> vouched token scopes who"
begin

lemma gate_vouched:
  assumes "data_plane_request uuid verify W fresh avenue hs = (r, c # cs)"
  shows "cs = [] \<and> (\<exists>token who. bearer hs = Inr token \<and> vouched token [CASES_READ_SCOPE] who
    \<and> Option.bind (hs TENANT_HEADER) uuid = Some (identity_tenant who)
    \<and> intended_call fresh token (identity_tenant who) avenue = Some c)"
  using gate_passed [OF assms] vouches by blast

end

text \<open>Protected introspection vouches with an active, current, scoped answer for this token.\<close>

definition introspected ::
  "'c client_ops \<Rightarrow> uuid_parser \<Rightarrow> nat option \<Rightarrow> nat option \<Rightarrow> 'c verifier \<Rightarrow> rstr \<Rightarrow> rstr list \<Rightarrow>
   verified_identity \<Rightarrow> bool" where
  "introspected C uuid c1 c2 v token scopes who \<longleftrightarrow>
     (\<exists>i. introspect_with_requirements C (auth_client v) token (our_audience v) scopes = Inr i
        \<and> active i \<and> aud i = Some (our_audience v) \<and> iss i = Some (our_issuer v)
        \<and> current (unwrap_or c1 0) (unwrap_or c2 0) i \<and> (\<forall>s \<in> set scopes. has_scope i s)
        \<and> proves_identity uuid i who)"

interpretation shared_auth: authority "verify_user C uuid c1 c2 v" "introspected C uuid c1 c2 v"
  for C uuid c1 c2 v
  by unfold_locales (auto simp: verify_user_def introspected_def and_then_eq_Inr validate_identity_ok)

text \<open>
  C1. Nothing behind the gate is touched without authority: if a request to the data plane makes a
  call at all, it makes exactly one, on the avenue its path names, and the authority has answered
  for the bearer token of this request with an active, current introspection that has the cases
  read scope, whose tenant is the one the request names and the one the call is made for; the
  durable avenue is given neither the token nor the tenant.
\<close>

theorem data_plane_gate:
  assumes "data_plane_request uuid (verify_user C uuid c1 c2 v) W fresh avenue hs = (r, c # cs)"
  shows "cs = [] \<and> (\<exists>token i who. valid_token token
    \<and> (\<exists>t. hs (lit ''authorization'') = Some (lit ''Bearer '' @ t) \<and> token = trim t)
    \<and> introspect_with_requirements C (auth_client v) token (our_audience v) [CASES_READ_SCOPE] = Inr i
    \<and> active i \<and> aud i = Some (our_audience v) \<and> iss i = Some (our_issuer v)
    \<and> current (unwrap_or c1 0) (unwrap_or c2 0) i \<and> has_scope i CASES_READ_SCOPE
    \<and> proves_identity uuid i who
    \<and> Option.bind (hs TENANT_HEADER) uuid = Some (identity_tenant who)
    \<and> intended_call fresh token (identity_tenant who) avenue = Some c)"
  using shared_auth.gate_vouched [OF assms] unfolding introspected_def bearer_ok by fastforce

definition sample_introspection :: introspection where
  "sample_introspection = \<lparr>active = True, aud = Some (lit ''a''), iss = Some (lit ''i''), exp_claim = Some 10,
     nbf = None, subject_claim = Some (lit ''s''), has_scope = (\<lambda>_. True),
     rest_claims = [(lit ''tenant_id'', String (lit ''t''))], provider_tenant = None\<rparr>"

definition sample_client :: "unit client_ops" where
  "sample_client = \<lparr>client_try_new = (\<lambda>_. Some ()), with_max_response_bytes = (\<lambda>_ c. c),
     with_service_credential = (\<lambda>_ c. c),
     introspect_with_requirements = (\<lambda>_ _ _ _. Inr sample_introspection)\<rparr>"

definition sample_verifier :: "unit verifier" where
  "sample_verifier = \<lparr>auth_client = (), our_audience = lit ''a'', our_issuer = lit ''i''\<rparr>"

definition sample_uuid :: uuid_parser where
  "sample_uuid s = (if s = lit ''t'' then Some 2 else if s = lit ''s'' then Some 1 else None)"

definition sample_headers_view :: "rstr \<Rightarrow> rstr option" where
  "sample_headers_view k =
     (if k = lit ''authorization'' then Some (lit ''Bearer '' @ lit ''tok'')
      else if k = TENANT_HEADER then Some (lit ''t'') else None)"

definition sample_backends :: backends where
  "sample_backends = \<lparr>database = Some (\<lambda>_. Some Null), http_transport = None, tcp_channel = None,
     nats_transport = None\<rparr>"

lemma sample_gate:
  "bearer sample_headers_view = Inr (lit ''tok'')"
  "verify_user sample_client sample_uuid (Some 5) (Some 5) sample_verifier (lit ''tok'') [CASES_READ_SCOPE]
     = Inr \<lparr>subject = 1, identity_tenant = 2\<rparr>"
  "tenant_id sample_uuid sample_headers_view = Inr 2"
proof -
  have "trim (lit ''tok'') = lit ''tok''"
    by (rule trimmed_trim) (simp add: trimmed_def lit_Cons is_whitespace_def)
  moreover have "valid_token (lit ''tok'')"
    by (simp add: valid_token_def str_len_ascii lit_Cons char_class_defs)
  ultimately show "bearer sample_headers_view = Inr (lit ''tok'')"
    unfolding bearer_ok by (simp add: sample_headers_view_def)
  have "claim_ok 128 (lit ''s'')" "claim_ok 128 (lit ''t'')"
    by (simp_all add: claim_ok_def str_len_ascii lit_Cons trimmed_def char_class_defs)
  then have "proves_identity sample_uuid sample_introspection \<lparr>subject = 1, identity_tenant = 2\<rparr>"
    by (simp add: proves_identity_def sample_introspection_def tenant_claim_def bt_get_def sample_uuid_def)
  then have "validate_identity sample_uuid (Some 5) (Some 5) sample_introspection (lit ''a'') (lit ''i'')
      [CASES_READ_SCOPE] = Inr \<lparr>subject = 1, identity_tenant = 2\<rparr>"
    unfolding validate_identity_ok by (simp add: sample_introspection_def current_def)
  then show "verify_user sample_client sample_uuid (Some 5) (Some 5) sample_verifier (lit ''tok'')
      [CASES_READ_SCOPE] = Inr \<lparr>subject = 1, identity_tenant = 2\<rparr>"
    by (simp add: verify_user_def sample_client_def sample_verifier_def)
  show "tenant_id sample_uuid sample_headers_view = Inr 2"
    by (simp add: tenant_id_def sample_headers_view_def TENANT_HEADER_def sample_uuid_def)
qed

theorem data_plane_gate_witness:
  "data_plane_request sample_uuid (verify_user sample_client sample_uuid (Some 5) (Some 5) sample_verifier)
     sample_backends 9 (lit ''direct'') sample_headers_view = (Inr Null, [DirectCall 2])
   \<and> intended_call 9 (lit ''tok'') 2 (lit ''direct'') = Some (DirectCall 2)"
proof -
  have r: "data_plane_request sample_uuid (verify_user sample_client sample_uuid (Some 5) (Some 5) sample_verifier)
      sample_backends 9 (lit ''direct'') sample_headers_view = (Inr Null, [DirectCall 2])"
    by (simp add: data_plane_request_def sample_gate operation_of_def call_backend_def sample_backends_def)
  have "bearer sample_headers_view = Inr token \<Longrightarrow> token = lit ''tok''" for token
    by (simp add: sample_gate)
  moreover have "Option.bind (sample_headers_view TENANT_HEADER) sample_uuid = Some 2"
    using sample_gate(3) by (simp add: tenant_id_def)
  ultimately show ?thesis
    using r data_plane_gate [OF r] unfolding bearer_ok by (metis option.inject)
qed

text \<open>
  C40. Refusals come in order and reveal nothing of what lies behind: without a well-formed bearer a
  request is 401 before anything else is looked at, then the authority's verdict (401 or 503), then
  the tenant header (422), then the tenant itself (403), then the avenue (404); past them the only
  error left is 503.
\<close>

theorem data_plane_refusals:
  "(case bearer hs of
      Inl _ \<Rightarrow> fst (data_plane_request uuid verify W fresh avenue hs)
          = Inl \<lparr>error_status = 401, error_code = lit ''unauthorized''\<rparr>
    | Inr token \<Rightarrow>
        (case verify token [CASES_READ_SCOPE] of
           Inl e \<Rightarrow> fst (data_plane_request uuid verify W fresh avenue hs)
               = Inl (if e = Unauthorized then \<lparr>error_status = 401, error_code = lit ''unauthorized''\<rparr>
                      else web_unavailable)
         | Inr who \<Rightarrow>
             (case Option.bind (hs TENANT_HEADER) uuid of
                None \<Rightarrow> fst (data_plane_request uuid verify W fresh avenue hs)
                    = Inl \<lparr>error_status = 422, error_code = lit ''invalid_tenant''\<rparr>
              | Some t \<Rightarrow>
                  if t \<noteq> identity_tenant who
                  then fst (data_plane_request uuid verify W fresh avenue hs)
                    = Inl \<lparr>error_status = 403, error_code = lit ''forbidden''\<rparr>
                  else if avenue \<notin> lit ` {''direct'', ''http'', ''tcp'', ''nats''}
                  then fst (data_plane_request uuid verify W fresh avenue hs)
                    = Inl \<lparr>error_status = 404, error_code = lit ''unknown_data_plane_avenue''\<rparr>
                  else fst (data_plane_request uuid verify W fresh avenue hs)
                    \<in> insert (Inl web_unavailable) (range Inr))))"
proof (cases "bearer hs")
  case (Inl e)
  then have "e = \<lparr>error_status = 401, error_code = lit ''unauthorized''\<rparr>"
    by (simp add: bearer_def)
  with Inl show ?thesis by (simp add: data_plane_request_def)
next
  case token: (Inr token)
  show ?thesis
  proof (cases "verify token [CASES_READ_SCOPE]")
    case (Inl e)
    with token show ?thesis by (cases e) (simp_all add: data_plane_request_def map_auth_error_def)
  next
    case who: (Inr who)
    show ?thesis
    proof (cases "Option.bind (hs TENANT_HEADER) uuid")
      case None
      with token who show ?thesis by (simp add: data_plane_request_def tenant_id_def)
    next
      case (Some t)
      have backend: "fst (call_backend W fresh a token (identity_tenant who)) \<in> insert (Inl web_unavailable) (range Inr)"
        for a
        by (cases a) (auto simp: call_backend_def ok_or_def split: option.split)
      from token who Some backend show ?thesis
        by (auto simp: data_plane_request_def tenant_id_def operation_of_def)
    qed
  qed
qed

subsection \<open>The four avenues behind the gate\<close>

text \<open>
  What is configured: a database, an HTTP transport, a TCP channel with what the network does during
  the call, a broker. Every error of an avenue is the same to the handler.
\<close>

record 'row avenues =
  av_database :: "'row database option"
  av_http :: "(http_lib \<times> url) option"
  av_tcp :: "(frame_codec \<times> tcp_call \<times> channel) option"
  av_nats :: "(broker \<times> status_codec) option"

definition ok_value :: "'e + json \<Rightarrow> json option" where
  "ok_value r = (case r of Inr v \<Rightarrow> Some v | Inl _ \<Rightarrow> None)"

definition call_on_channel :: "tcp_call \<Rightarrow> uuid \<Rightarrow> uuid \<Rightarrow> rstr \<Rightarrow> tcp_call" where
  "call_on_channel net request_id tenant token =
     net\<lparr>call_id := request_id, call_tenant := tenant, call_token := token\<rparr>"

definition wired_backends :: "serde \<Rightarrow> (uuid \<Rightarrow> rstr) \<Rightarrow> 'row avenues \<Rightarrow> backends" where
  "wired_backends S show_uuid A =
     \<lparr>database = map_option (\<lambda>D tenant. ok_value (fst (case_projection D show_uuid tenant))) (av_database A),
      http_transport =
        map_option (\<lambda>(H, base) token tenant. ok_value (http_cases H S show_uuid base token tenant)) (av_http A),
      tcp_channel =
        map_option (\<lambda>(K, net, ch) request_id tenant token.
          ok_value (fst (tcp_cases K (call_on_channel net request_id tenant token) ch))) (av_tcp A),
      nats_transport =
        map_option (\<lambda>(B, K) operation_id.
          Option.bind (nats_status B K show_uuid operation_id) ok_value) (av_nats A)\<rparr>"

lemma ok_value_eq [simp]: "ok_value r = Some v \<longleftrightarrow> r = Inr v"
  by (cases r) (simp_all add: ok_value_def)

definition answer_from :: "serde \<Rightarrow> (uuid \<Rightarrow> rstr) \<Rightarrow> 'row avenues \<Rightarrow> backend_call \<Rightarrow> json \<Rightarrow> bool" where
  "answer_from S show_uuid A c v =
     (case c of
        DirectCall tenant \<Rightarrow>
          (\<exists>D. av_database A = Some D \<and> fst (case_projection D show_uuid tenant) = Inr v)
      | HttpCall token tenant \<Rightarrow>
          (\<exists>H base. av_http A = Some (H, base) \<and> http_cases H S show_uuid base token tenant = Inr v)
      | TcpCall request_id tenant token \<Rightarrow>
          (\<exists>K net ch. av_tcp A = Some (K, net, ch)
             \<and> fst (tcp_cases K (call_on_channel net request_id tenant token) ch) = Inr v)
      | NatsCall operation_id \<Rightarrow>
          (\<exists>B K. av_nats A = Some (B, K) \<and> nats_status B K show_uuid operation_id = Some (Inr v)))"

text \<open>What the handler asks of its backends: a value is the answer to the call that was made.\<close>

locale backend_contract =
  fixes W :: backends and answered :: "backend_call \<Rightarrow> json \<Rightarrow> bool"
  assumes direct_answer: "database W = Some f \<Longrightarrow> f tenant = Some v \<Longrightarrow> answered (DirectCall tenant) v"
    and http_answer: "http_transport W = Some g \<Longrightarrow> g token tenant = Some v \<Longrightarrow> answered (HttpCall token tenant) v"
    and tcp_answer: "tcp_channel W = Some h \<Longrightarrow> h rid tenant token = Some v \<Longrightarrow> answered (TcpCall rid tenant token) v"
    and nats_answer: "nats_transport W = Some k \<Longrightarrow> k oid = Some v \<Longrightarrow> answered (NatsCall oid) v"
begin

lemma call_answered:
  assumes "call_backend W fresh a token tenant = (Inr v, cs)"
  shows "\<exists>c. cs = [c] \<and> answered c v"
  using assms direct_answer http_answer tcp_answer nats_answer
  by (cases a) (auto simp: call_backend_def split: option.splits)

end

text \<open>Both contracts together are what the endpoint as a whole keeps.\<close>

locale data_plane = authority verify vouched + backend_contract W answered
  for verify vouched W answered
begin

lemma payload_answered:
  assumes "data_plane_request uuid verify W fresh avenue hs = (Inr v, cs)"
  shows "\<exists>token who c. cs = [c] \<and> bearer hs = Inr token \<and> vouched token [CASES_READ_SCOPE] who
    \<and> Option.bind (hs TENANT_HEADER) uuid = Some (identity_tenant who)
    \<and> intended_call fresh token (identity_tenant who) avenue = Some c \<and> answered c v"
proof -
  obtain a token tenant where "call_backend W fresh a token tenant = (Inr v, cs)"
    using assms by (auto simp: data_plane_request_def split: sum.splits prod.splits)
  then obtain c where c: "cs = [c]" "answered c v" using call_answered by blast
  from gate_vouched [OF assms [unfolded c(1)]] c show ?thesis by blast
qed

end

interpretation wired: backend_contract "wired_backends S show_uuid A" "answer_from S show_uuid A"
  for S show_uuid A
  by unfold_locales
     (auto simp: wired_backends_def answer_from_def bind_eq_Some_conv split: prod.splits)

interpretation endpoint: data_plane "verify_user C uuid c1 c2 v" "introspected C uuid c1 c2 v"
    "wired_backends S show_uuid A" "answer_from S show_uuid A"
  for C uuid c1 c2 v S show_uuid A ..

text \<open>
  A payload the data plane returns is the answer of the one avenue the path names, called for
  the tenant of the verified identity: the count of this tenant's cases from the read-only
  transaction, the API's bounded answer to a request with this tenant's header, the frame that
  carries the identifier of this request, or the broker's answer to this operation.
\<close>

theorem data_plane_answers:
  assumes "data_plane_request uuid (verify_user C uuid c1 c2 v) (wired_backends S show_uuid A) fresh avenue hs
    = (Inr payload, cs)"
  shows "\<exists>token who c. cs = [c] \<and> bearer hs = Inr token
    \<and> introspected C uuid c1 c2 v token [CASES_READ_SCOPE] who
    \<and> Option.bind (hs TENANT_HEADER) uuid = Some (identity_tenant who)
    \<and> intended_call fresh token (identity_tenant who) avenue = Some c
    \<and> answer_from S show_uuid A c payload"
  using endpoint.payload_answered [OF assms] .

definition sample_database :: "int database" where
  "sample_database = \<lparr>begin_ok = True, execute_ok = (\<lambda>_. True), query_one = (\<lambda>_ _. Inr (Some 3)),
     try_get_count = Some, rollback_ok = True\<rparr>"

theorem data_plane_answers_witness:
  "\<exists>v. data_plane_request sample_uuid
       (verify_user sample_client sample_uuid (Some 5) (Some 5) sample_verifier)
       (wired_backends null_serde (\<lambda>_. lit ''u'') \<lparr>av_database = Some sample_database, av_http = None,
          av_tcp = None, av_nats = None\<rparr>) 9 (lit ''direct'') sample_headers_view
     = (Inr v, [DirectCall 2])
   \<and> answer_from null_serde (\<lambda>_. lit ''u'') \<lparr>av_database = Some sample_database, av_http = None,
          av_tcp = None, av_nats = None\<rparr> (DirectCall 2) v"
proof -
  let ?A = "\<lparr>av_database = Some sample_database, av_http = None, av_tcp = None, av_nats = None\<rparr>"
  obtain v where "fst (case_projection sample_database (\<lambda>_. lit ''u'') 2) = Inr v"
    by (simp add: case_projection_def sample_database_def Let_def)
  then have r: "data_plane_request sample_uuid
      (verify_user sample_client sample_uuid (Some 5) (Some 5) sample_verifier)
      (wired_backends null_serde (\<lambda>_. lit ''u'') ?A) 9 (lit ''direct'') sample_headers_view
    = (Inr v, [DirectCall 2])"
    by (simp add: data_plane_request_def sample_gate operation_of_def call_backend_def wired_backends_def
        ok_value_def)
  from data_plane_answers [OF r] r show ?thesis by auto
qed

subsection \<open>Items\<close>

record item =
  item_id :: uuid
  item_title :: rstr
  item_summary :: rstr

text \<open>The shared state: the items, and how many change events were broadcast.\<close>

record app_state =
  app_items :: "item list"
  app_events :: nat

datatype page = TitleRequired | ItemsPage "item list" | IndexPage nat

definition index_page :: "app_state \<Rightarrow> page" where
  "index_page st = IndexPage (length (app_items st))"

definition items_fragment :: "app_state \<Rightarrow> page" where
  "items_fragment st = ItemsPage (app_items st)"

definition push_item :: "uuid \<Rightarrow> rstr \<Rightarrow> rstr \<Rightarrow> app_state \<Rightarrow> app_state option" where
  "push_item new_id title summary st =
     (let title = trim title in
      if title = [] then None
      else
        let item = \<lparr>item_id = new_id, item_title = title, item_summary = take 4000 summary\<rparr>
        in Some (st\<lparr>app_items := app_items st @ [item]\<rparr>))"

definition broadcast_change :: "app_state \<Rightarrow> app_state" where
  "broadcast_change st = st\<lparr>app_events := Suc (app_events st)\<rparr>"

definition create_item :: "uuid \<Rightarrow> rstr \<Rightarrow> rstr \<Rightarrow> app_state \<Rightarrow> page \<times> app_state" where
  "create_item new_id title summary st =
     (case push_item new_id title summary st of
        None \<Rightarrow> (TitleRequired, st)
      | Some st \<Rightarrow> (let st = broadcast_change st in (items_fragment st, st)))"

definition app_health :: "bool \<Rightarrow> bool \<Rightarrow> json" where
  "app_health database_configured supabase_configured =
     json_obj [(lit ''status'', String (lit ''ok'')), (lit ''service'', String (lit ''apme-web-mash'')),
               (lit ''database_configured'', Bool database_configured),
               (lit ''supabase_configured'', Bool supabase_configured)]"

text \<open>
  The server as a transition system. \<open>create_item\<close> holds the lock only while it pushes, so other
  requests may run between its push, its broadcast and the page it answers with: these are three
  steps, and the state counts the creations that have pushed but not broadcast, and those that have
  broadcast but not answered. An identifier drawn at random is not one in use.
\<close>

record server =
  app :: app_state
  pushed :: nat
  announced :: nat

inductive app_step :: "server \<Rightarrow> page option \<Rightarrow> server \<Rightarrow> bool" where
  read_index: "app_step s (Some (index_page (app s))) s"
| read_items: "app_step s (Some (items_fragment (app s))) s"
| refuse: "push_item new_id title summary (app s) = None \<Longrightarrow> app_step s (Some TitleRequired) s"
| push: "push_item new_id title summary (app s) = Some st \<Longrightarrow> new_id \<notin> item_id ` set (app_items (app s)) \<Longrightarrow>
    app_step s None (s\<lparr>app := st, pushed := Suc (pushed s)\<rparr>)"
| announce: "pushed s = Suc n \<Longrightarrow>
    app_step s None (s\<lparr>app := broadcast_change (app s), pushed := n, announced := Suc (announced s)\<rparr>)"
| answer: "announced s = Suc n \<Longrightarrow>
    app_step s (Some (items_fragment (app s))) (s\<lparr>announced := n\<rparr>)"

inductive_simps app_step_simps: "app_step s p s'"

definition empty_server :: server where
  "empty_server = \<lparr>app = \<lparr>app_items = [], app_events = 0\<rparr>, pushed = 0, announced = 0\<rparr>"

inductive reachable :: "server \<Rightarrow> bool" where
  start: "reachable empty_server"
| step: "reachable s \<Longrightarrow> app_step s p s' \<Longrightarrow> reachable s'"

definition item_ok :: "item \<Rightarrow> bool" where
  "item_ok i \<longleftrightarrow> item_title i \<noteq> [] \<and> trimmed (item_title i) \<and> length (item_summary i) \<le> 4000"

definition items_ok :: "server \<Rightarrow> bool" where
  "items_ok s \<longleftrightarrow>
     list_all item_ok (app_items (app s)) \<and> distinct (map item_id (app_items (app s)))
     \<and> app_events (app s) + pushed s = length (app_items (app s))"

lemma push_item_SomeE:
  assumes "push_item new_id title summary st = Some st'"
  obtains i where "item_ok i" "item_id i = new_id" "st' = st\<lparr>app_items := app_items st @ [i]\<rparr>"
  using assms trim_trimmed [of title]
  by (auto simp: push_item_def Let_def item_ok_def split: if_splits
      intro: that [of "\<lparr>item_id = new_id, item_title = trim title, item_summary = take 4000 summary\<rparr>"])

lemma app_step_items:
  assumes "app_step s p s'" "items_ok s"
  shows "items_ok s' \<and> (\<exists>new. app_items (app s') = app_items (app s) @ new)"
  using assms(1)
proof (cases rule: app_step.cases)
  case (push new_id title summary st)
  from push(3) show ?thesis
    by (rule push_item_SomeE) (use push(2,4) assms(2) in \<open>auto simp: items_ok_def\<close>)
qed (use assms(2) in \<open>auto simp: items_ok_def broadcast_change_def\<close>)

lemma app_step_page:
  "app_step s p s' \<Longrightarrow>
     p \<in> {None, Some TitleRequired, Some (index_page (app s')), Some (items_fragment (app s'))}"
  by (auto simp: app_step_simps)

text \<open>One creation that nobody interferes with is its three steps.\<close>

lemma create_item_steps:
  assumes "create_item new_id title summary (app s) = (p, st')" "trim title \<noteq> []"
    "new_id \<notin> item_id ` set (app_items (app s))"
  shows "\<exists>s1 s2. app_step s None s1 \<and> app_step s1 None s2 \<and> app_step s2 (Some p) (s\<lparr>app := st'\<rparr>)"
proof -
  obtain st where st: "push_item new_id title summary (app s) = Some st" "st' = broadcast_change st"
    "p = items_fragment st'"
    using assms(1,2) by (auto simp: create_item_def push_item_def Let_def)
  let ?s1 = "s\<lparr>app := st, pushed := Suc (pushed s)\<rparr>"
  let ?s2 = "s\<lparr>app := st', announced := Suc (announced s)\<rparr>"
  have "app_step s None ?s1" using st(1) assms(3) by (rule app_step.push)
  moreover have "app_step ?s1 None ?s2"
    using app_step.announce [of ?s1 "pushed s"] st(2) by simp
  moreover have "app_step ?s2 (Some p) (s\<lparr>app := st'\<rparr>)"
    using app_step.answer [of ?s2 "announced s"] st(3) by simp
  ultimately show ?thesis by blast
qed

text \<open>
  C37. In every state the server can reach, however its requests interleave, each item has a
  non-blank, trimmed title and a summary of at most 4000 characters, identifiers are unique, and
  the change events broadcast and those still owed add up to the items; no step removes or alters
  an item, and a page shows the state it is taken from.
\<close>

theorem reachable_items:
  assumes "reachable s" "app_step s p s'"
  shows "items_ok s \<and> items_ok s' \<and> (\<exists>new. app_items (app s') = app_items (app s) @ new)
    \<and> p \<in> {None, Some TitleRequired, Some (index_page (app s')), Some (items_fragment (app s'))}"
proof -
  have "items_ok s" using assms(1)
    by (induction rule: reachable.induct)
       (simp add: items_ok_def empty_server_def, use app_step_items in blast)
  then show ?thesis using app_step_items [OF assms(2)] app_step_page [OF assms(2)] by blast
qed

theorem reachable_items_witness:
  "\<exists>s. app_step empty_server None s \<and> items_ok s \<and> map item_title (app_items (app s)) = [lit ''a'']"
proof -
  have "trim (lit '' a '') = lit ''a''"
    by (simp add: lit_Cons trim_def trim_start_def trim_end_def is_whitespace_def)
  then obtain st where st: "push_item 1 (lit '' a '') (lit ''s'') (app empty_server) = Some st"
    "map item_title (app_items st) = [lit ''a'']"
    by (simp add: push_item_def Let_def empty_server_def)
  let ?s = "empty_server\<lparr>app := st, pushed := Suc (pushed empty_server)\<rparr>"
  have "app_step empty_server None ?s"
    using st(1) by (rule app_step.push) (simp add: empty_server_def)
  with reachable_items [OF reachable.start this] st(2) show ?thesis by auto
qed

subsection \<open>Interleaved creations are creations one after the other\<close>

type_synonym creation = "uuid \<times> rstr \<times> rstr"

text \<open>The specification: the handler as a whole, creation by creation.\<close>

fun create_all :: "creation list \<Rightarrow> app_state \<Rightarrow> app_state" where
  "create_all [] st = st"
| "create_all ((new_id, title, summary) # rest) st = create_all rest (snd (create_item new_id title summary st))"

lemma create_all_append: "create_all (cs @ ds) st = create_all ds (create_all cs st)"
  by (induction cs st rule: create_all.induct) simp_all

text \<open>A server's state, with the announcements it still owes.\<close>

definition settled :: "server \<Rightarrow> app_state" where
  "settled s = (app s)\<lparr>app_events := app_events (app s) + pushed s\<rparr>"

lemma settled_push:
  assumes "push_item new_id title summary (app s) = Some st"
  shows "settled (s\<lparr>app := st, pushed := Suc (pushed s)\<rparr>) = snd (create_item new_id title summary (settled s))"
  using assms
  by (auto simp: settled_def create_item_def push_item_def broadcast_change_def Let_def split: if_splits)

lemma app_step_settled:
  assumes "app_step s p s'"
  shows "\<exists>cs. length cs \<le> 1 \<and> settled s' = create_all cs (settled s)"
  using assms
proof (cases rule: app_step.cases)
  case (push new_id title summary st)
  then have "settled s' = create_all [(new_id, title, summary)] (settled s)" using settled_push by simp
  then show ?thesis by (intro exI [of _ "[(new_id, title, summary)]"]) simp
next
  case (announce n)
  then have "settled s' = settled s" by (simp add: settled_def broadcast_change_def)
  then show ?thesis by (intro exI [of _ "[]"]) simp
qed (auto simp: settled_def intro: exI [of _ "[]"])



subsection \<open>The WebSocket loop\<close>

text \<open>
  The loop is run on what \<open>select!\<close> yields, with the outcome of the send it causes, if any.
\<close>

datatype select =
    EventText rstr bool
  | EventLagged
  | EventsClosed
  | PingFrame bytes bool
  | CloseFrame
  | StreamEnd
  | StreamError
  | OtherFrame

datatype ws_message = TextMessage rstr | PongMessage bytes

fun ws_loop :: "select list \<Rightarrow> ws_message list \<times> bool" where
  "ws_loop [] = ([], True)"
| "ws_loop (EventText text sent_ok # inputs) =
     (if \<not> sent_ok then ([], False)
      else (case ws_loop inputs of (out, alive) \<Rightarrow> (TextMessage text # out, alive)))"
| "ws_loop (EventsClosed # inputs) = ([], False)"
| "ws_loop (EventLagged # inputs) = ws_loop inputs"
| "ws_loop (PingFrame data sent_ok # inputs) =
     (if \<not> sent_ok then ([], False)
      else (case ws_loop inputs of (out, alive) \<Rightarrow> (PongMessage data # out, alive)))"
| "ws_loop (CloseFrame # inputs) = ([], False)"
| "ws_loop (StreamEnd # inputs) = ([], False)"
| "ws_loop (StreamError # inputs) = ([], False)"
| "ws_loop (OtherFrame # inputs) = ws_loop inputs"

fun ends_loop :: "select \<Rightarrow> bool" where
  "ends_loop (EventText _ sent_ok) \<longleftrightarrow> \<not> sent_ok"
| "ends_loop (PingFrame _ sent_ok) \<longleftrightarrow> \<not> sent_ok"
| "ends_loop EventLagged \<longleftrightarrow> False"
| "ends_loop OtherFrame \<longleftrightarrow> False"
| "ends_loop _ \<longleftrightarrow> True"

fun reply :: "select \<Rightarrow> ws_message option" where
  "reply (EventText text _) = Some (TextMessage text)"
| "reply (PingFrame data _) = Some (PongMessage data)"
| "reply _ = None"

text \<open>
  A WebSocket client gets every event and every pong, in order and once, until the loop ends:
  what is sent is the replies to the inputs before the first one that ends the loop, which is a
  failed send, the end of the events, or a close, an error or the end of the client's stream; a
  lagging subscriber and other frames neither end it nor cause a message.
\<close>

theorem ws_loop_replies:
  "ws_loop inputs =
     (List.map_filter reply (takeWhile (\<lambda>i. \<not> ends_loop i) inputs), list_all (\<lambda>i. \<not> ends_loop i) inputs)"
  by (induction inputs rule: ws_loop.induct) (auto simp: List.map_filter_simps split: prod.splits)

end
