(* ===== verification/Tcp_Connect.thy ===== *)
theory Tcp_Connect
  imports Data_Plane_Tcp
begin

text \<open>
  Opening the mTLS channel (\<open>Channel::connect\<close> of module \<^verbatim>\<open>tcp\<close> of \<^verbatim>\<open>src/data_plane.rs\<close>). Reading a
  file, parsing PEM, and what the TLS library and the network answer are parameters, the fields of
  \<open>tls_lib\<close>; a certificate and a key are their DER bytes. The model keeps the trace of what touches
  the network. The codec is built with a four-byte length field and \<open>MAX_RESPONSE_BYTES\<close> as its
  largest frame; a new channel has sent nothing and nothing has arrived.
\<close>

datatype 'a timed = TimeLimit | Finished "unit + 'a"

record tls_lib =
  fs_read :: "rstr \<Rightarrow> bytes option"
  pem_certs :: "bytes \<Rightarrow> (unit + bytes) list"
  pem_private_key :: "bytes \<Rightarrow> unit + bytes option"
  roots_add :: "bytes \<Rightarrow> bool"
  client_config_ok :: "bytes list \<Rightarrow> bytes list \<Rightarrow> bytes \<Rightarrow> bool"
  tcp_stream_connect :: "rstr \<Rightarrow> unit timed"
  nodelay_ok :: bool
  server_name_ok :: "rstr \<Rightarrow> bool"
  handshake :: "bytes list \<Rightarrow> bytes list \<Rightarrow> bytes \<Rightarrow> rstr \<Rightarrow> unit timed"

datatype net_op =
    Dial rstr
  | SetNodelay
  | Handshake "bytes list" "bytes list" bytes rstr

definition within :: "rstr \<Rightarrow> 'a timed \<Rightarrow> tcp_error + 'a" where
  "within message t =
     (case t of
        TimeLimit \<Rightarrow> Inl (TimedOut message)
      | Finished r \<Rightarrow> map_err (\<lambda>_. OtherIo) r)"

text \<open>\<open>collect\<close> into an \<open>io::Result\<close>: the first error ends it.\<close>

fun collect_results :: "('e + 'a) list \<Rightarrow> 'e + 'a list" where
  "collect_results [] = Inr []"
| "collect_results (Inl e # rs) = Inl e"
| "collect_results (Inr x # rs) = and_then (collect_results rs) (\<lambda>xs. Inr (x # xs))"

fun add_roots :: "tls_lib \<Rightarrow> bytes list \<Rightarrow> bytes list \<Rightarrow> tcp_error + bytes list" where
  "add_roots T roots [] = Inr roots"
| "add_roots T roots (authority # authorities) =
     (if roots_add T authority then add_roots T (roots @ [authority]) authorities
      else Inl (InvalidData (lit ''invalid mTLS CA'')))"

definition load_certificates :: "tls_lib \<Rightarrow> bytes \<Rightarrow> rstr \<Rightarrow> tcp_error + bytes list" where
  "load_certificates T pem message =
     and_then (map_err (\<lambda>_. OtherIo) (collect_results (pem_certs T pem))) (\<lambda>certificates.
       if certificates = [] then Inl (InvalidData message) else Inr certificates)"

definition tls_credentials ::
  "tls_lib \<Rightarrow> tcp_config \<Rightarrow> tcp_error + bytes list \<times> bytes list \<times> bytes" where
  "tls_credentials T config =
     and_then (ok_or OtherIo (fs_read T (tcp_ca_path config))) (\<lambda>ca_bytes.
     and_then (ok_or OtherIo (fs_read T (tcp_client_certificate_path config))) (\<lambda>certificate_bytes.
     and_then (ok_or OtherIo (fs_read T (tcp_client_key_path config))) (\<lambda>key_bytes.
     and_then (load_certificates T ca_bytes (lit ''mTLS CA bundle is empty'')) (\<lambda>authorities.
     and_then (add_roots T [] authorities) (\<lambda>roots.
     and_then (load_certificates T certificate_bytes (lit ''mTLS client certificate is empty''))
       (\<lambda>certificates.
     and_then (map_err (\<lambda>_. OtherIo) (pem_private_key T key_bytes)) (\<lambda>found.
     and_then (ok_or (InvalidData (lit ''mTLS client key is missing'')) found) (\<lambda>private_key.
       if client_config_ok T roots certificates private_key
       then Inr (roots, certificates, private_key) else Inl OtherIo))))))))"

definition tcp_connect :: "tls_lib \<Rightarrow> tcp_config \<Rightarrow> (tcp_error + channel) \<times> net_op list" where
  "tcp_connect T config =
     (case tls_credentials T config of
        Inl e \<Rightarrow> (Inl e, [])
      | Inr (roots, certificates, private_key) \<Rightarrow>
          (case within (lit ''mTLS connect timed out'') (tcp_stream_connect T (tcp_address config)) of
             Inl e \<Rightarrow> (Inl e, [Dial (tcp_address config)])
           | Inr _ \<Rightarrow>
               if \<not> nodelay_ok T then (Inl OtherIo, [Dial (tcp_address config), SetNodelay])
               else if \<not> server_name_ok T (tcp_server_name config)
               then (Inl (InvalidData (lit ''invalid mTLS server name'')),
                     [Dial (tcp_address config), SetNodelay])
               else
                 (and_then
                    (within (lit ''mTLS handshake timed out'')
                       (handshake T roots certificates private_key (tcp_server_name config)))
                    (\<lambda>_. Inr \<lparr>sent = [], arrived = []\<rparr>),
                  [Dial (tcp_address config), SetNodelay,
                   Handshake roots certificates private_key (tcp_server_name config)])))"

subsection \<open>Mutual authentication\<close>

lemma collect_results_ok: "collect_results rs = Inr xs \<longleftrightarrow> rs = map Inr xs"
proof (induction rs arbitrary: xs)
  case Nil
  then show ?case by auto
next
  case (Cons r rs)
  then show ?case by (cases r) (auto simp: and_then_eq_Inr Cons_eq_map_conv)
qed

lemma add_roots_ok:
  "add_roots T roots as = Inr rs \<longleftrightarrow> list_all (roots_add T) as \<and> rs = roots @ as"
  by (induction as arbitrary: roots) auto

lemma load_certificates_ok:
  "load_certificates T pem m = Inr cs \<longleftrightarrow> pem_certs T pem = map Inr cs \<and> cs \<noteq> []"
  by (auto simp: load_certificates_def and_then_eq_Inr collect_results_ok)

lemma within_ok [simp]: "within m t = Inr x \<longleftrightarrow> t = Finished (Inr x)"
  by (cases t) (auto simp: within_def)

text \<open>
  Usable credentials: all three files are there, the CA bundle and the client chain are not empty and
  parse, every authority is accepted as a root, and the key belongs with the chain.
\<close>

definition usable_credentials ::
  "tls_lib \<Rightarrow> tcp_config \<Rightarrow> bytes list \<Rightarrow> bytes list \<Rightarrow> bytes \<Rightarrow> bool" where
  "usable_credentials T config roots certificates key \<longleftrightarrow>
     (\<exists>ca cert k. fs_read T (tcp_ca_path config) = Some ca
        \<and> fs_read T (tcp_client_certificate_path config) = Some cert
        \<and> fs_read T (tcp_client_key_path config) = Some k
        \<and> pem_certs T ca = map Inr roots \<and> roots \<noteq> [] \<and> list_all (roots_add T) roots
        \<and> pem_certs T cert = map Inr certificates \<and> certificates \<noteq> []
        \<and> pem_private_key T k = Inr (Some key)
        \<and> client_config_ok T roots certificates key)"

lemma tls_credentials_ok:
  "tls_credentials T config = Inr (roots, certificates, key)
     \<longleftrightarrow> usable_credentials T config roots certificates key"
  by (auto simp: tls_credentials_def usable_credentials_def and_then_eq_Inr load_certificates_ok
      add_roots_ok split: if_splits)

lemma tcp_connect_ok:
  "((\<exists>trace. tcp_connect T config = (Inr ch, trace)) \<longleftrightarrow>
     ch = \<lparr>sent = [], arrived = []\<rparr>
     \<and> tcp_stream_connect T (tcp_address config) = Finished (Inr ()) \<and> nodelay_ok T
     \<and> server_name_ok T (tcp_server_name config)
     \<and> (\<exists>roots chain key. usable_credentials T config roots chain key
          \<and> handshake T roots chain key (tcp_server_name config) = Finished (Inr ())))
   \<and> (snd (tcp_connect T config) = [] \<or>
      (\<exists>roots chain key n. usable_credentials T config roots chain key
         \<and> snd (tcp_connect T config) =
             take n [Dial (tcp_address config), SetNodelay,
                     Handshake roots chain key (tcp_server_name config)]))"
proof (cases "tls_credentials T config")
  case (Inl e)
  then have "\<not> usable_credentials T config r c k" for r c k
    using tls_credentials_ok [of T config r c k] by simp
  with Inl show ?thesis by (simp add: tcp_connect_def)
next
  case (Inr p)
  obtain roots chain key where p: "p = (roots, chain, key)" by (cases p) auto
  let ?script = "[Dial (tcp_address config), SetNodelay,
    Handshake roots chain key (tcp_server_name config)]"
  have u: "usable_credentials T config r c k \<longleftrightarrow> r = roots \<and> c = chain \<and> k = key" for r c k
    using Inr p tls_credentials_ok [of T config r c k] by auto
  have takes: "take 1 ?script = [Dial (tcp_address config)]"
    "take 2 ?script = [Dial (tcp_address config), SetNodelay]" "take 3 ?script = ?script"
    by (simp_all add: numeral_eq_Suc)
  have "snd (tcp_connect T config) \<in> {take 1 ?script, take 2 ?script, take 3 ?script}"
    unfolding takes using Inr p by (simp add: tcp_connect_def split: sum.split)
  moreover have "(\<exists>trace. tcp_connect T config = (Inr ch, trace)) \<longleftrightarrow>
     ch = \<lparr>sent = [], arrived = []\<rparr>
     \<and> tcp_stream_connect T (tcp_address config) = Finished (Inr ()) \<and> nodelay_ok T
     \<and> server_name_ok T (tcp_server_name config)
     \<and> handshake T roots chain key (tcp_server_name config) = Finished (Inr ())"
    using Inr p
    by (cases "within (lit ''mTLS connect timed out'') (tcp_stream_connect T (tcp_address config))")
       (auto simp: tcp_connect_def and_then_eq_Inr within_def split: timed.splits)
  ultimately show ?thesis unfolding u by blast
qed

text \<open>
  C30. The channel is authenticated both ways or not opened: the network is not touched until the
  credentials have been loaded in full; a channel is returned exactly when the dialled connection
  has finished a handshake in which the server was checked against the roots of the configured
  bundle alone, under the configured name, and the configured chain and key were presented, and
  then it is fresh and in step.
\<close>

theorem tcp_connect_iff:
  "((\<exists>trace. tcp_connect T config = (Inr ch, trace)) \<longleftrightarrow>
     ch = \<lparr>sent = [], arrived = []\<rparr>
     \<and> tcp_stream_connect T (tcp_address config) = Finished (Inr ()) \<and> nodelay_ok T
     \<and> server_name_ok T (tcp_server_name config)
     \<and> (\<exists>roots chain key. usable_credentials T config roots chain key
          \<and> handshake T roots chain key (tcp_server_name config) = Finished (Inr ())))
   \<and> (snd (tcp_connect T config) = [] \<or>
      (\<exists>roots chain key n. usable_credentials T config roots chain key
         \<and> snd (tcp_connect T config) =
             take n [Dial (tcp_address config), SetNodelay,
                     Handshake roots chain key (tcp_server_name config)]))"
  by (rule tcp_connect_ok)

end
