(* ===== verification/Web_Start.thy ===== *)
theory Web_Start
  imports Web_App Tcp_Connect
begin

text \<open>
  The start of the web server (\<open>main\<close> of \<^verbatim>\<open>src/main.rs\<close>): the start-up log, the verifier, each
  avenue that is configured, the address, the listener, in the order of the code; the first that
  fails ends the process. Connecting to the database, binding the listener and the start-up log are
  outcomes of the surroundings. Building the router and the tracing layers cannot fail and is left
  out. \<open>SocketAddr\<close> is the standard library's and is modelled.
\<close>

subsection \<open>Socket addresses\<close>

datatype socket_addr =
    V4 "nat \<times> nat \<times> nat \<times> nat" nat
  | V6 "16 word list" nat nat

definition parse_digits :: "nat \<Rightarrow> rstr \<Rightarrow> nat option" where
  "parse_digits maximum s =
     (if s = [] \<or> \<not> list_all is_ascii_digit s then None
      else opt_filter (\<lambda>n. n \<le> maximum) (digits_value 10 0 s))"

definition parse_socket_v4 :: "rstr \<Rightarrow> socket_addr option" where
  "parse_socket_v4 s =
     Option.bind (split_once 58 s) (\<lambda>(host, port).
     Option.bind (parse_ipv4 host) (\<lambda>address.
       map_option (V4 address) (parse_digits 65535 port)))"

definition parse_scope :: "rstr \<Rightarrow> (rstr \<times> nat) option" where
  "parse_scope s =
     (case split_once 37 s of
        None \<Rightarrow> Some (s, 0)
      | Some (address, scope) \<Rightarrow> map_option (Pair address) (parse_digits (2 ^ 32 - 1) scope))"

definition parse_socket_v6 :: "rstr \<Rightarrow> socket_addr option" where
  "parse_socket_v6 s =
     Option.bind (strip_prefix [91] s) (\<lambda>rest.
     Option.bind (split_once 93 rest) (\<lambda>(inside, after).
     Option.bind (parse_scope inside) (\<lambda>(address, scope).
     Option.bind (parse_ipv6 address) (\<lambda>segments.
     Option.bind (strip_prefix [58] after) (\<lambda>port.
       map_option (\<lambda>p. V6 segments p scope) (parse_digits 65535 port))))))"

definition parse_socket_addr :: "rstr \<Rightarrow> socket_addr option" where
  "parse_socket_addr s = or_else (parse_socket_v4 s) (parse_socket_v6 s)"

lemma parse_digits_show: "n \<le> m \<Longrightarrow> parse_digits m (show_dec n) = Some n"
  using show_dec_digits digits_value_show_dec [of n]
  by (auto simp: parse_digits_def list_all_iff)

lemma parse_socket_addr_show:
  "a \<le> 255 \<Longrightarrow> b \<le> 255 \<Longrightarrow> c \<le> 255 \<Longrightarrow> d \<le> 255 \<Longrightarrow> p \<le> 65535 \<Longrightarrow>
     parse_socket_addr (show_ipv4 (a, b, c, d) @ 58 # show_dec p) = Some (V4 (a, b, c, d) p)"
proof -
  assume le: "a \<le> 255" "b \<le> 255" "c \<le> 255" "d \<le> 255" "p \<le> 65535"
  have "58 \<notin> set (show_dec n)" for n
    using show_dec_digits [of 58 n] by (auto simp: is_ascii_digit_def)
  then have "58 \<notin> set (show_ipv4 (a, b, c, d))" by (simp add: show_ipv4_def)
  with le show ?thesis
    by (simp add: parse_socket_addr_def parse_socket_v4_def split_once_append parse_ipv4_show
        parse_digits_show)
qed

subsection \<open>Start-up\<close>

record web_build =
  feature_tcp :: bool
  feature_nats :: bool

text \<open>What the surroundings answer at start-up.\<close>

record 'c web_os =
  auth_ops :: "'c client_ops"
  http_ops :: http_lib
  tls_ops :: tls_lib
  broker_ops :: broker
  logger_ok :: bool
  database_connects :: "rstr \<Rightarrow> bool"
  binds :: "socket_addr \<Rightarrow> bool"

datatype start_error =
    LoggerFailed
  | AuthFailed auth_error
  | DatabaseFailed
  | HttpFailed http_error
  | TcpFailed tcp_error
  | NatsFailed nats_error
  | AddressInvalid
  | BindFailed

text \<open>
  The state the handlers share. A database is the URL it was connected to, a broker connection the
  configuration it was made with.
\<close>

record 'c web_state =
  web_items :: app_state
  web_auth :: "'c verifier"
  web_database :: "rstr option"
  web_http :: "url option"
  web_tcp :: "channel option"
  web_nats :: "nats_config option"
  web_supabase :: "rstr option"

definition connect_database :: "'c web_os \<Rightarrow> (rstr \<Rightarrow> rstr option) \<Rightarrow> start_error + rstr option" where
  "connect_database W env =
     (case env (lit ''DATABASE_URL'') of
        Some url \<Rightarrow>
          if trim url \<noteq> []
          then (if database_connects W url then Inr (Some url) else Inl DatabaseFailed)
          else Inr None
      | None \<Rightarrow> Inr None)"

definition connect_tcp ::
  "web_build \<Rightarrow> 'c web_os \<Rightarrow> (rstr \<Rightarrow> rstr option) \<Rightarrow> start_error + channel option" where
  "connect_tcp b W env =
     (if feature_tcp b then
        and_then (map_err TcpFailed (tcp_config_from_env env)) (\<lambda>found.
          case found of
            Some config \<Rightarrow>
              and_then (map_err TcpFailed (fst (tcp_connect (tls_ops W) config))) (\<lambda>ch. Inr (Some ch))
          | None \<Rightarrow> Inr None)
      else Inr None)"

definition connect_nats ::
  "web_build \<Rightarrow> 'c web_os \<Rightarrow> (rstr \<Rightarrow> rstr option) \<Rightarrow> start_error + nats_config option" where
  "connect_nats b W env =
     (if feature_nats b then
        and_then (map_err NatsFailed (nats_config_from_env env)) (\<lambda>found.
          case found of
            Some config \<Rightarrow>
              and_then (map_err NatsFailed (nats_connect (broker_ops W) config)) (\<lambda>_. Inr (Some config))
          | None \<Rightarrow> Inr None)
      else Inr None)"

definition web_start ::
  "web_build \<Rightarrow> 'c web_os \<Rightarrow> (rstr \<Rightarrow> rstr option) \<Rightarrow> start_error + 'c web_state \<times> socket_addr" where
  "web_start b W env =
     (if \<not> logger_ok W then Inl LoggerFailed
      else
        and_then (map_err AuthFailed (from_env (auth_ops W) env)) (\<lambda>auth.
        and_then (connect_database W env) (\<lambda>database.
        and_then (map_err HttpFailed (transport_from_env (http_ops W) (env (lit ''APME_API_HTTP_BASE''))))
          (\<lambda>http.
        and_then (connect_tcp b W env) (\<lambda>tcp.
        and_then (connect_nats b W env) (\<lambda>nats.
        let state = \<lparr>web_items = \<lparr>app_items = [], app_events = 0\<rparr>, web_auth = auth,
              web_database = database, web_http = http, web_tcp = tcp, web_nats = nats,
              web_supabase = env (lit ''SUPABASE_URL'')\<rparr> in
        and_then (ok_or AddressInvalid
            (parse_socket_addr (unwrap_or (env (lit ''BIND_ADDR'')) (lit ''127.0.0.1:8080''))))
          (\<lambda>addr. if binds W addr then Inr (state, addr) else Inl BindFailed)))))))"

subsection \<open>A server that serves\<close>

definition is_set :: "(rstr \<Rightarrow> rstr option) \<Rightarrow> string \<Rightarrow> bool" where
  "is_set env name \<longleftrightarrow> (\<exists>v. env (lit name) = Some v \<and> trim v \<noteq> [])"

lemma optional_env_set: "optional_env env (lit n) = None \<longleftrightarrow> \<not> is_set env n"
  by (auto simp: optional_env_def is_set_def opt_filter_eq_None)

lemma connect_database_ok:
  "connect_database W env = Inr d \<Longrightarrow>
     (case d of None \<Rightarrow> \<not> is_set env ''DATABASE_URL''
      | Some url \<Rightarrow> env (lit ''DATABASE_URL'') = Some url \<and> trim url \<noteq> [] \<and> database_connects W url)"
  by (cases "env (lit ''DATABASE_URL'')"; cases d) (simp_all add: connect_database_def is_set_def split: if_splits)

lemma transport_from_env_ok:
  "transport_from_env H (env (lit n)) = Inr t \<Longrightarrow>
     (case t of None \<Rightarrow> \<not> is_set env n | Some u \<Rightarrow> checked_base u)"
  by (auto simp: transport_from_env_def is_set_def and_then_eq_Inr opt_filter_eq_None
      transport_try_new_checked split: option.splits)

text \<open>A channel of a started server is one that \<open>connect\<close> opened with credentials that were usable.\<close>

definition opened_channel :: "tls_lib \<Rightarrow> channel \<Rightarrow> bool" where
  "opened_channel T ch \<longleftrightarrow>
     ch = \<lparr>sent = [], arrived = []\<rparr>
     \<and> (\<exists>config roots chain key. usable_credentials T config roots chain key
          \<and> handshake T roots chain key (tcp_server_name config) = Finished (Inr ()))"

lemma connect_tcp_ok:
  assumes "connect_tcp b W env = Inr t"
  shows "case t of None \<Rightarrow> \<not> (feature_tcp b \<and> is_set env ''APME_API_TCP_ADDRESS'')
    | Some ch \<Rightarrow> opened_channel (tls_ops W) ch"
proof (cases t)
  case None
  with assms show ?thesis
    using optional_env_set [of env "''APME_API_TCP_ADDRESS''"]
    by (auto simp: connect_tcp_def tcp_config_from_env_def and_then_eq_Inr split: if_splits option.splits)
next
  case (Some ch)
  with assms obtain config where c: "fst (tcp_connect (tls_ops W) config) = Inr ch"
    by (auto simp: connect_tcp_def and_then_eq_Inr split: if_splits option.splits)
  then have "\<exists>trace. tcp_connect (tls_ops W) config = (Inr ch, trace)"
    by (cases "tcp_connect (tls_ops W) config") auto
  then have "opened_channel (tls_ops W) ch"
    unfolding opened_channel_def using tcp_connect_ok [of "tls_ops W" config ch] by blast
  with Some show ?thesis by simp
qed

definition durable_broker :: "broker \<Rightarrow> nats_config \<Rightarrow> bool" where
  "durable_broker B config \<longleftrightarrow>
     tls_without_credentials (nats_url config) \<and> connects B
     \<and> (\<exists>q r. get_stream B (request_stream config) = Some q \<and> storage q = FileStorage
          \<and> retention q = WorkQueue \<and> 0 < duplicate_window q
          \<and> get_stream B (response_stream config) = Some r \<and> storage r = FileStorage
          \<and> allow_direct r \<and> 0 < duplicate_window r)"

lemma connect_nats_ok:
  assumes "connect_nats b W env = Inr t"
  shows "case t of None \<Rightarrow> \<not> (feature_nats b \<and> is_set env ''APME_NATS_URL'')
    | Some config \<Rightarrow> durable_broker (broker_ops W) config"
proof (cases t)
  case None
  with assms show ?thesis
    using optional_env_set [of env "''APME_NATS_URL''"]
    by (auto simp: connect_nats_def nats_config_from_env_def and_then_eq_Inr Let_def
        split: if_splits option.splits)
next
  case (Some config)
  with assms have "nats_connect (broker_ops W) config = Inr ()"
    by (auto simp: connect_nats_def and_then_eq_Inr split: if_splits option.splits)
  then have "durable_broker (broker_ops W) config"
    unfolding nats_connect_ok durable_broker_def by blast
  with Some show ?thesis by simp
qed

lemma web_start_closed:
  assumes "web_start b W env = Inr (st, addr)"
  shows "(\<exists>cred client. env (lit ''SHARED_AUTH_INTROSPECTION_CREDENTIAL'') = Some cred \<and> claim_ok 16384 cred
      \<and> auth_client (web_auth st) =
          with_service_credential (auth_ops W) cred (with_max_response_bytes (auth_ops W) 65536 client)
      \<and> env (lit ''SHARED_AUTH_AUDIENCE'') = Some (our_audience (web_auth st))
      \<and> env (lit ''SHARED_AUTH_ISSUER'') = Some (our_issuer (web_auth st)))
    \<and> (case web_database st of
         None \<Rightarrow> \<not> is_set env ''DATABASE_URL''
       | Some url \<Rightarrow> env (lit ''DATABASE_URL'') = Some url \<and> database_connects W url)
    \<and> (case web_http st of
         None \<Rightarrow> \<not> is_set env ''APME_API_HTTP_BASE'' | Some u \<Rightarrow> checked_base u)
    \<and> (case web_tcp st of
         None \<Rightarrow> \<not> (feature_tcp b \<and> is_set env ''APME_API_TCP_ADDRESS'')
       | Some ch \<Rightarrow> opened_channel (tls_ops W) ch)
    \<and> (case web_nats st of
         None \<Rightarrow> \<not> (feature_nats b \<and> is_set env ''APME_NATS_URL'')
       | Some config \<Rightarrow> durable_broker (broker_ops W) config)
    \<and> app_items (web_items st) = [] \<and> binds W addr"
proof -
  from assms obtain auth d h t n where s: "from_env (auth_ops W) env = Inr auth"
    "connect_database W env = Inr d"
    "transport_from_env (http_ops W) (env (lit ''APME_API_HTTP_BASE'')) = Inr h"
    "connect_tcp b W env = Inr t" "connect_nats b W env = Inr n" "binds W addr"
    "st = \<lparr>web_items = \<lparr>app_items = [], app_events = 0\<rparr>, web_auth = auth, web_database = d,
       web_http = h, web_tcp = t, web_nats = n, web_supabase = env (lit ''SUPABASE_URL'')\<rparr>"
    by (auto simp: web_start_def and_then_eq_Inr Let_def split: if_splits)
  from s(1) [unfolded from_env_ok] connect_database_ok [OF s(2)] transport_from_env_ok [where env = env, OF s(3)]
    connect_tcp_ok [OF s(4)] connect_nats_ok [OF s(5)] s(6)
  show ?thesis unfolding s(7) by (auto split: option.splits)
qed

text \<open>
  C26. The web server starts closed: if it reaches the point where it serves, it holds a verifier with
  the audience and issuer of the environment, a capped response size and the service credential;
  each avenue it holds has passed the checks of that avenue (a base URL that is encrypted or
  internal, a channel opened with mutual authentication, a broker over TLS with durable streams),
  each avenue it does not hold was not configured or not compiled in, and there are no items.
\<close>

theorem web_start_fail_closed:
  assumes "web_start b W env = Inr (st, addr)"
  shows "(\<exists>cred client. env (lit ''SHARED_AUTH_INTROSPECTION_CREDENTIAL'') = Some cred \<and> claim_ok 16384 cred
      \<and> auth_client (web_auth st) =
          with_service_credential (auth_ops W) cred (with_max_response_bytes (auth_ops W) 65536 client)
      \<and> env (lit ''SHARED_AUTH_AUDIENCE'') = Some (our_audience (web_auth st))
      \<and> env (lit ''SHARED_AUTH_ISSUER'') = Some (our_issuer (web_auth st)))
    \<and> (case web_database st of
         None \<Rightarrow> \<not> is_set env ''DATABASE_URL''
       | Some url \<Rightarrow> env (lit ''DATABASE_URL'') = Some url \<and> database_connects W url)
    \<and> (case web_http st of
         None \<Rightarrow> \<not> is_set env ''APME_API_HTTP_BASE'' | Some u \<Rightarrow> checked_base u)
    \<and> (case web_tcp st of
         None \<Rightarrow> \<not> (feature_tcp b \<and> is_set env ''APME_API_TCP_ADDRESS'')
       | Some ch \<Rightarrow> opened_channel (tls_ops W) ch)
    \<and> (case web_nats st of
         None \<Rightarrow> \<not> (feature_nats b \<and> is_set env ''APME_NATS_URL'')
       | Some config \<Rightarrow> durable_broker (broker_ops W) config)
    \<and> app_items (web_items st) = [] \<and> binds W addr"
  using assms by (rule web_start_closed)

text \<open>A deployment with every avenue configured.\<close>

definition sample_env :: "rstr \<Rightarrow> rstr option" where
  "sample_env k =
     (if k \<in> lit ` {''SHARED_AUTH_BASE_URL'', ''SHARED_AUTH_INTROSPECTION_CREDENTIAL'', ''SHARED_AUTH_AUDIENCE'',
           ''SHARED_AUTH_ISSUER'', ''DATABASE_URL'', ''APME_API_HTTP_BASE'', ''APME_API_TCP_ADDRESS'',
           ''APME_API_TCP_SERVER_NAME'', ''APME_API_TCP_CA_FILE'', ''APME_API_TCP_CLIENT_CERT_FILE'',
           ''APME_API_TCP_CLIENT_KEY_FILE'', ''APME_NATS_CREDENTIALS_FILE''}
      then Some (lit ''a'')
      else if k = lit ''APME_NATS_URL'' then Some (lit ''tls://n'')
      else None)"

definition sample_base :: url where
  "sample_base = \<lparr>scheme = lit ''https'', host_str = Some (lit ''h''), username = [], password = None,
     url_path = lit ''/'', query = None, fragment = None\<rparr>"

definition sample_os :: "unit web_os" where
  "sample_os = \<lparr>auth_ops = sample_client,
     http_ops = \<lparr>parse_url = (\<lambda>_. Some sample_base), client_builds = True, extend_path = (\<lambda>_ _. None),
       send = (\<lambda>_ _ _. None)\<rparr>,
     tls_ops = \<lparr>fs_read = (\<lambda>_. Some ''f''), pem_certs = (\<lambda>_. [Inr ''c'']),
       pem_private_key = (\<lambda>_. Inr (Some ''k'')), roots_add = (\<lambda>_. True), client_config_ok = (\<lambda>_ _ _. True),
       tcp_stream_connect = (\<lambda>_. Finished (Inr ())), nodelay_ok = True, server_name_ok = (\<lambda>_. True),
       handshake = (\<lambda>_ _ _ _. Finished (Inr ()))\<rparr>,
     broker_ops = \<lparr>connects = True,
       get_stream = (\<lambda>name. Some \<lparr>storage = FileStorage,
         retention = (if name = lit ''APME_STATUS_OUTBOX'' then WorkQueue else Limits),
         subjects = [REQUEST_SUBJECT, RESPONSE_SUBJECT_PREFIX @ lit ''.*''], allow_direct = True,
         duplicate_window = 1\<rparr>),
       publish = (\<lambda>_ _ _. False), last_for_subject = (\<lambda>_ _. None), elapsed = (\<lambda>_. 0)\<rparr>,
     logger_ok = True, database_connects = (\<lambda>_. True), binds = (\<lambda>_. True)\<rparr>"

lemma default_address:
  "parse_socket_addr (lit ''127.0.0.1:8080'') = Some (V4 (127, 0, 0, 1) 8080)"
proof -
  have "lit ''127.0.0.1:8080'' = show_ipv4 (127, 0, 0, 1) @ 58 # show_dec 8080"
    by (simp add: show_ipv4_def lit_Cons show_dec.simps)
  then show ?thesis using parse_socket_addr_show [of 127 0 0 1 8080] by simp
qed

lemma trim_a: "trim (lit ''a'') = lit ''a''" "trim (lit ''tls://n'') = lit ''tls://n''"
  by (rule trimmed_trim, simp add: trimmed_def lit_Cons is_whitespace_def)+

lemma sample_auth:
  "from_env sample_client sample_env = Inr \<lparr>auth_client = (), our_audience = lit ''a'', our_issuer = lit ''a''\<rparr>"
proof -
  have "claim_ok 16384 (lit ''a'')" "claim_ok 128 (lit ''a'')" "claim_ok 256 (lit ''a'')"
    by (simp_all add: claim_ok_def str_len_ascii lit_Cons trimmed_def char_class_defs)
  then show ?thesis unfolding from_env_ok by (simp add: sample_env_def sample_client_def)
qed

lemma sample_tcp:
  "connect_tcp \<lparr>feature_tcp = True, feature_nats = True\<rparr> sample_os sample_env
     = Inr (Some \<lparr>sent = [], arrived = []\<rparr>)"
  by (simp add: connect_tcp_def tcp_config_from_env_def tcp_required_env_def optional_env_def sample_env_def
      trim_a tcp_connect_def tls_credentials_def load_certificates_def within_def sample_os_def)

lemma sample_http:
  "\<exists>u. transport_from_env (http_ops sample_os) (sample_env (lit ''APME_API_HTTP_BASE'')) = Inr (Some u)"
  by (simp add: transport_from_env_def sample_env_def trim_a transport_try_new_def sample_os_def sample_base_def
      transport_is_acceptable_def Let_def)

lemma sample_nats:
  "\<exists>c. connect_nats \<lparr>feature_tcp = True, feature_nats = True\<rparr> sample_os sample_env = Inr (Some c)"
proof -
  have "tls_without_credentials (lit ''tls://n'')"
    unfolding tls_without_credentials_def
    by (intro exI [of _ "lit ''n''"] exI [of _ "[]"]) (simp add: lit_Cons)
  moreover have "safe_topology_name (lit ''APME_STATUS_OUTBOX'')" "safe_topology_name (lit ''APME_STATUS_INBOX'')"
    by (simp_all add: safe_topology_name_def str_len_ascii lit_Cons char_class_defs)
  ultimately have "nats_validate \<lparr>nats_url = lit ''tls://n'', credentials_path = lit ''a'',
      request_stream = lit ''APME_STATUS_OUTBOX'', response_stream = lit ''APME_STATUS_INBOX''\<rparr> = Inr ()"
    by (simp add: nats_validate_ok)
  then show ?thesis
    by (simp add: connect_nats_def nats_config_from_env_def optional_env_def sample_env_def trim_a
        nats_connect_def sample_os_def validate_request_stream_def validate_response_stream_def)
qed

lemma sample_started:
  "\<exists>st u c. web_start \<lparr>feature_tcp = True, feature_nats = True\<rparr> sample_os sample_env
       = Inr (st, V4 (127, 0, 0, 1) 8080)
     \<and> web_auth st = \<lparr>auth_client = (), our_audience = lit ''a'', our_issuer = lit ''a''\<rparr>
     \<and> web_database st = Some (lit ''a'') \<and> web_http st = Some u
     \<and> web_tcp st = Some \<lparr>sent = [], arrived = []\<rparr> \<and> web_nats st = Some c"
proof -
  obtain u c where s: "transport_from_env (http_ops sample_os) (sample_env (lit ''APME_API_HTTP_BASE'')) = Inr (Some u)"
    "connect_nats \<lparr>feature_tcp = True, feature_nats = True\<rparr> sample_os sample_env = Inr (Some c)"
    using sample_http sample_nats by blast
  have os: "logger_ok sample_os" "auth_ops sample_os = sample_client" "binds sample_os a"
    "database_connects sample_os d" "sample_env (lit ''DATABASE_URL'') = Some (lit ''a'')"
    "sample_env (lit ''BIND_ADDR'') = None" for a d
    by (simp_all add: sample_os_def sample_env_def)
  show ?thesis
    by (simp add: web_start_def os s sample_auth sample_tcp connect_database_def trim_a default_address)
qed

theorem web_start_fail_closed_witness:
  "\<exists>st u c. web_start \<lparr>feature_tcp = True, feature_nats = True\<rparr> sample_os sample_env
       = Inr (st, V4 (127, 0, 0, 1) 8080)
     \<and> web_http st = Some u \<and> checked_base u
     \<and> web_tcp st = Some \<lparr>sent = [], arrived = []\<rparr> \<and> opened_channel (tls_ops sample_os) \<lparr>sent = [], arrived = []\<rparr>
     \<and> web_nats st = Some c \<and> durable_broker (broker_ops sample_os) c"
proof -
  obtain st u c where st: "web_start \<lparr>feature_tcp = True, feature_nats = True\<rparr> sample_os sample_env
      = Inr (st, V4 (127, 0, 0, 1) 8080)" "web_http st = Some u"
    "web_tcp st = Some \<lparr>sent = [], arrived = []\<rparr>" "web_nats st = Some c"
    using sample_started by blast
  from web_start_fail_closed [OF st(1)] st show ?thesis by simp
qed

end
