(* ===== verification/Web_Router.thy ===== *)
theory Web_Router
  imports Web_Start
begin

text \<open>
  The web server as a whole: the routes of \<open>main\<close> in \<^verbatim>\<open>src/main.rs\<close>, the handlers behind them and the
  state they share, one request after the other. What a request meets, the clock, the fresh
  identifier drawn for it, the network, the database and the broker at that time, and the library's
  codecs, is the record \<open>web_env\<close>. Percent-decoding of the path and of the form is the library's:
  the path segment is decoded by a parameter, and the form of a request is its fields, if it has the
  right type and decodes; whether the request is a WebSocket handshake is a parameter too. A \<open>GET\<close> route of the library serves \<open>HEAD\<close> as well.
\<close>

subsection \<open>Routes\<close>

datatype web_target =
    ToIndex
  | ToHealth
  | ToDataPlane rstr
  | ToItems
  | ToCreate
  | ToWebSocket
  | NotAllowed
  | Unrouted

definition on_get :: "rstr \<Rightarrow> web_target \<Rightarrow> web_target" where
  "on_get m t = (if m = lit ''GET'' \<or> m = lit ''HEAD'' then t else NotAllowed)"

definition web_route :: "rstr \<Rightarrow> rstr \<Rightarrow> web_target" where
  "web_route m path =
     (if path = lit ''/'' then on_get m ToIndex
      else if path = lit ''/healthz'' \<or> path = lit ''/readyz'' then on_get m ToHealth
      else if path = lit ''/fragments/items'' then on_get m ToItems
      else if path = lit ''/items'' then (if m = lit ''POST'' then ToCreate else NotAllowed)
      else if path = lit ''/ws'' then on_get m ToWebSocket
      else
        (case strip_prefix (lit ''/api/data-plane/'') path of
           Some segment \<Rightarrow>
             if segment \<noteq> [] \<and> 47 \<notin> set segment then on_get m (ToDataPlane segment) else Unrouted
         | None \<Rightarrow> Unrouted))"

subsection \<open>Handlers\<close>

record web_request =
  web_method :: rstr
  web_path :: rstr
  web_headers :: "rstr \<Rightarrow> rstr option"
  web_form :: "(rstr \<Rightarrow> rstr option) option"

record ('c, 'row) web_env =
  env_client :: "'c client_ops"
  env_uuid :: uuid_parser
  env_show_uuid :: "uuid \<Rightarrow> rstr"
  env_serde :: serde
  env_database :: "'row database"
  env_http :: http_lib
  env_frames :: frame_codec
  env_network :: tcp_call
  env_broker :: broker
  env_status :: status_codec
  env_decode :: "rstr \<Rightarrow> rstr option"
  env_clock1 :: "nat option"
  env_clock2 :: "nat option"
  env_fresh :: uuid
  env_upgrades :: bool

datatype web_out =
    Html page
  | JsonValue json
  | Refused web_error
  | ExtractorRejected
  | Upgraded
  | MethodNotAllowed
  | NotFound

text \<open>\<open>NewItem\<close> from the fields of a form: the title is required, the summary defaults to nothing.\<close>

definition new_item :: "(rstr \<Rightarrow> rstr option) \<Rightarrow> (rstr \<times> rstr) option" where
  "new_item form =
     map_option (\<lambda>title. (title, unwrap_or (form (lit ''summary'')) [])) (form (lit ''title''))"

definition avenues_of :: "('c, 'row) web_env \<Rightarrow> 'c web_state \<Rightarrow> 'row avenues" where
  "avenues_of E st =
     \<lparr>av_database = map_option (\<lambda>_. env_database E) (web_database st),
      av_http = map_option (Pair (env_http E)) (web_http st),
      av_tcp = map_option (\<lambda>ch. (env_frames E, env_network E, ch)) (web_tcp st),
      av_nats = map_option (\<lambda>_. (env_broker E, env_status E)) (web_nats st)\<rparr>"

text \<open>A call on the TCP avenue leaves the shared channel as it is after the call.\<close>

fun after_calls :: "('c, 'row) web_env \<Rightarrow> backend_call list \<Rightarrow> 'c web_state \<Rightarrow> 'c web_state" where
  "after_calls E [] st = st"
| "after_calls E (TcpCall request_id tenant token # calls) st =
     after_calls E calls
       (st\<lparr>web_tcp := map_option
          (\<lambda>ch. snd (tcp_cases (env_frames E) (call_on_channel (env_network E) request_id tenant token) ch))
          (web_tcp st)\<rparr>)"
| "after_calls E (_ # calls) st = after_calls E calls st"

definition serve_data_plane ::
  "('c, 'row) web_env \<Rightarrow> rstr \<Rightarrow> (rstr \<Rightarrow> rstr option) \<Rightarrow> 'c web_state \<Rightarrow>
   (web_out \<times> 'c web_state) \<times> backend_call list" where
  "serve_data_plane E avenue hs st =
     (let (result, calls) =
            data_plane_request (env_uuid E)
              (verify_user (env_client E) (env_uuid E) (env_clock1 E) (env_clock2 E) (web_auth st))
              (wired_backends (env_serde E) (env_show_uuid E) (avenues_of E st)) (env_fresh E) avenue hs
      in ((case result of Inl e \<Rightarrow> Refused e | Inr v \<Rightarrow> JsonValue v, after_calls E calls st), calls))"

definition web_handle ::
  "('c, 'row) web_env \<Rightarrow> web_request \<Rightarrow> 'c web_state \<Rightarrow> (web_out \<times> 'c web_state) \<times> backend_call list" where
  "web_handle E request st =
     (case web_route (web_method request) (web_path request) of
        ToIndex \<Rightarrow> ((Html (index_page (web_items st)), st), [])
      | ToHealth \<Rightarrow> ((JsonValue (app_health (web_database st \<noteq> None) (web_supabase st \<noteq> None)), st), [])
      | ToItems \<Rightarrow> ((Html (items_fragment (web_items st)), st), [])
      | ToCreate \<Rightarrow>
          (case Option.bind (web_form request) new_item of
             None \<Rightarrow> ((ExtractorRejected, st), [])
           | Some (title, summary) \<Rightarrow>
               (let (page, items) = create_item (env_fresh E) title summary (web_items st)
                in ((Html page, st\<lparr>web_items := items\<rparr>), [])))
      | ToDataPlane segment \<Rightarrow>
          (case env_decode E segment of
             None \<Rightarrow> ((ExtractorRejected, st), [])
           | Some avenue \<Rightarrow> serve_data_plane E avenue (web_headers request) st)
      | ToWebSocket \<Rightarrow> ((if env_upgrades E then Upgraded else ExtractorRejected, st), [])
      | NotAllowed \<Rightarrow> ((MethodNotAllowed, st), [])
      | Unrouted \<Rightarrow> ((NotFound, st), []))"

fun web_run :: "(('c, 'row) web_env \<times> web_request) list \<Rightarrow> 'c web_state \<Rightarrow> 'c web_state" where
  "web_run [] st = st"
| "web_run ((E, request) # rest) st = web_run rest (snd (fst (web_handle E request st)))"

subsection \<open>Only the gate reaches a backend\<close>

lemma on_get_eq: "t \<noteq> NotAllowed \<Longrightarrow> on_get m t' = t \<longleftrightarrow> (m = lit ''GET'' \<or> m = lit ''HEAD'') \<and> t' = t"
  by (auto simp: on_get_def)

lemma web_route_data_plane:
  "web_route m path = ToDataPlane segment \<Longrightarrow>
     (m = lit ''GET'' \<or> m = lit ''HEAD'') \<and> path = lit ''/api/data-plane/'' @ segment
     \<and> segment \<noteq> [] \<and> 47 \<notin> set segment"
  by (auto simp: web_route_def on_get_eq strip_prefix_eq_Some split: if_splits option.splits)

lemma web_route_create: "web_route m path = ToCreate \<Longrightarrow> m = lit ''POST'' \<and> path = lit ''/items''"
  by (auto simp: web_route_def on_get_eq split: if_splits option.splits)

text \<open>What no request changes.\<close>

definition same_setup :: "'c web_state \<Rightarrow> 'c web_state \<Rightarrow> bool" where
  "same_setup st st' \<longleftrightarrow>
     web_auth st' = web_auth st \<and> web_database st' = web_database st \<and> web_http st' = web_http st
     \<and> web_nats st' = web_nats st \<and> web_supabase st' = web_supabase st
     \<and> (web_tcp st' = None \<longleftrightarrow> web_tcp st = None)"

lemma after_calls_setup:
  "same_setup st (after_calls E calls st) \<and> web_items (after_calls E calls st) = web_items st"
  by (induction E calls st rule: after_calls.induct) (simp_all add: same_setup_def)

lemma serve_data_plane_setup:
  "serve_data_plane E avenue hs st = ((out, st'), calls) \<Longrightarrow>
     same_setup st st' \<and> web_items st' = web_items st"
  using after_calls_setup by (auto simp: serve_data_plane_def Let_def split: prod.splits)

lemma web_handle_setup:
  assumes "web_handle E request st = ((out, st'), calls)"
  shows "same_setup st st'"
proof (cases "web_route (web_method request) (web_path request)")
  case (ToDataPlane segment)
  with assms serve_data_plane_setup show ?thesis
    by (fastforce simp: web_handle_def same_setup_def split: option.splits)
qed (use assms in \<open>auto simp: web_handle_def same_setup_def Let_def split: option.splits prod.splits\<close>)

lemma web_run_setup: "same_setup st (web_run rs st)"
proof (induction rs arbitrary: st)
  case Nil
  then show ?case by (simp add: same_setup_def)
next
  case (Cons p rs)
  obtain E request where p: "p = (E, request)" by (cases p)
  obtain out st' calls where h: "web_handle E request st = ((out, st'), calls)"
    by (cases "web_handle E request st") auto
  from web_handle_setup [OF h] Cons.IH [of st'] show ?case by (simp add: p h same_setup_def)
qed

lemma web_handle_calls:
  assumes "web_handle E request st = ((out, st'), calls)" "calls \<noteq> []"
  shows "\<exists>segment avenue. (web_method request = lit ''GET'' \<or> web_method request = lit ''HEAD'')
    \<and> web_path request = lit ''/api/data-plane/'' @ segment \<and> env_decode E segment = Some avenue
    \<and> serve_data_plane E avenue (web_headers request) st = ((out, st'), calls)"
proof (cases "web_route (web_method request) (web_path request)")
  case (ToDataPlane segment)
  with assms web_route_data_plane [OF ToDataPlane] show ?thesis
    by (auto simp: web_handle_def split: option.splits)
qed (use assms in \<open>auto simp: web_handle_def Let_def split: option.splits prod.splits\<close>)

lemma create_item_appends:
  assumes "create_item new_id title summary st = (p, st')"
  shows "app_items st' = app_items st \<or> (\<exists>i. item_ok i \<and> app_items st' = app_items st @ [i])"
proof (cases "push_item new_id title summary st")
  case None
  with assms show ?thesis by (simp add: create_item_def)
next
  case (Some st1)
  then obtain i where "item_ok i" "st1 = st\<lparr>app_items := app_items st @ [i]\<rparr>"
    by (rule push_item_SomeE)
  with Some assms show ?thesis by (auto simp: create_item_def broadcast_change_def Let_def)
qed

lemma web_handle_items:
  assumes "web_handle E request st = ((out, st'), calls)" "app_items (web_items st') \<noteq> app_items (web_items st)"
  shows "web_method request = lit ''POST'' \<and> web_path request = lit ''/items''
    \<and> (\<exists>i. item_ok i \<and> app_items (web_items st') = app_items (web_items st) @ [i])"
proof (cases "web_route (web_method request) (web_path request)")
  case (ToDataPlane segment)
  with assms serve_data_plane_setup show ?thesis
    by (fastforce simp: web_handle_def split: option.splits)
next
  case ToCreate
  with assms obtain title summary p where "create_item (env_fresh E) title summary (web_items st) = (p, web_items st')"
    by (auto simp: web_handle_def Let_def split: option.splits prod.splits)
  from create_item_appends [OF this] assms(2) web_route_create [OF ToCreate] show ?thesis by simp
qed (use assms in \<open>auto simp: web_handle_def\<close>)

lemma serve_data_plane_gated:
  assumes "serve_data_plane E avenue hs st = ((out, st'), calls)" "calls \<noteq> []"
  shows "\<exists>token who c. calls = [c] \<and> bearer hs = Inr token
    \<and> introspected (env_client E) (env_uuid E) (env_clock1 E) (env_clock2 E) (web_auth st) token [CASES_READ_SCOPE] who
    \<and> Option.bind (hs TENANT_HEADER) (env_uuid E) = Some (identity_tenant who)
    \<and> intended_call (env_fresh E) token (identity_tenant who) avenue = Some c
    \<and> (\<forall>v. out = JsonValue v \<longrightarrow> answer_from (env_serde E) (env_show_uuid E) (avenues_of E st) c v)"
proof -
  let ?v = "verify_user (env_client E) (env_uuid E) (env_clock1 E) (env_clock2 E) (web_auth st)"
  let ?W = "wired_backends (env_serde E) (env_show_uuid E) (avenues_of E st)"
  obtain r where r: "data_plane_request (env_uuid E) ?v ?W (env_fresh E) avenue hs = (r, calls)"
    "out = (case r of Inl e \<Rightarrow> Refused e | Inr v \<Rightarrow> JsonValue v)"
    using assms(1) by (auto simp: serve_data_plane_def Let_def split: prod.splits)
  obtain c cs where c: "calls = c # cs" using assms(2) by (cases calls) auto
  show ?thesis
  proof (cases r)
    case (Inl e)
    with shared_auth.gate_vouched [OF r(1) [unfolded c]] r(2) c show ?thesis by auto
  next
    case (Inr v)
    with endpoint.payload_answered [OF r(1) [unfolded Inr]] r(2) show ?thesis by auto
  qed
qed


subsection \<open>From start-up to a payload\<close>

text \<open>
  C2. What a deployed server hands out: after any sequence of requests since a successful start, a
  payload it returns from a call is the answer of the one avenue called, to a call for the tenant of
  an identity the authority vouched for with the audience and issuer of the environment; the base
  URL, where the answer came over HTTP, is encrypted or internal and without credentials, and the
  broker, where it came from there, was joined over TLS with durable streams.
\<close>

theorem served_payload:
  assumes "web_start b W env = Inr (st0, addr)" "st = web_run requests st0"
    and "web_handle E request st = ((JsonValue v, st'), c # cs)"
  shows "cs = [] \<and> (\<exists>token who.
      bearer (web_headers request) = Inr token
      \<and> introspected (env_client E) (env_uuid E) (env_clock1 E) (env_clock2 E) (web_auth st) token
          [CASES_READ_SCOPE] who
      \<and> Option.bind (web_headers request TENANT_HEADER) (env_uuid E) = Some (identity_tenant who)
      \<and> c \<in> {DirectCall (identity_tenant who), HttpCall token (identity_tenant who),
             TcpCall (env_fresh E) (identity_tenant who) token, NatsCall (env_fresh E)}
      \<and> answer_from (env_serde E) (env_show_uuid E) (avenues_of E st) c v)
    \<and> env (lit ''SHARED_AUTH_AUDIENCE'') = Some (our_audience (web_auth st))
    \<and> env (lit ''SHARED_AUTH_ISSUER'') = Some (our_issuer (web_auth st))
    \<and> (\<forall>token tenant. c = HttpCall token tenant \<longrightarrow> (\<exists>u. web_http st = Some u \<and> checked_base u))
    \<and> (\<forall>operation_id. c = NatsCall operation_id \<longrightarrow>
        (\<exists>config. web_nats st = Some config \<and> durable_broker (broker_ops W) config))"
proof -
  have same: "same_setup st0 st" using web_run_setup assms(2) by blast
  obtain segment avenue where s: "serve_data_plane E avenue (web_headers request) st = ((JsonValue v, st'), c # cs)"
    using web_handle_calls [OF assms(3)] by auto
  from serve_data_plane_gated [OF s] obtain token who where g: "cs = []" "bearer (web_headers request) = Inr token"
    "introspected (env_client E) (env_uuid E) (env_clock1 E) (env_clock2 E) (web_auth st) token [CASES_READ_SCOPE] who"
    "Option.bind (web_headers request TENANT_HEADER) (env_uuid E) = Some (identity_tenant who)"
    "intended_call (env_fresh E) token (identity_tenant who) avenue = Some c"
    "answer_from (env_serde E) (env_show_uuid E) (avenues_of E st) c v"
    by auto
  have "\<exists>u. web_http st = Some u \<and> checked_base u" if "c = HttpCall t n" for t n
    using g(6) that same web_start_closed [OF assms(1)]
    by (auto simp: answer_from_def avenues_of_def same_setup_def)
  moreover have "\<exists>config. web_nats st = Some config \<and> durable_broker (broker_ops W) config"
    if "c = NatsCall o'" for o'
    using g(6) that same web_start_closed [OF assms(1)]
    by (auto simp: answer_from_def avenues_of_def same_setup_def)
  moreover have "c \<in> {DirectCall (identity_tenant who), HttpCall token (identity_tenant who),
      TcpCall (env_fresh E) (identity_tenant who) token, NatsCall (env_fresh E)}"
    using g(5) by (auto simp: intended_call_def split: if_splits)
  moreover have "env (lit ''SHARED_AUTH_AUDIENCE'') = Some (our_audience (web_auth st))"
    "env (lit ''SHARED_AUTH_ISSUER'') = Some (our_issuer (web_auth st))"
    using web_start_closed [OF assms(1)] same by (auto simp: same_setup_def)
  ultimately show ?thesis using g by blast
qed

definition sample_web_env :: "(unit, int) web_env" where
  "sample_web_env = \<lparr>
     env_client = sample_client\<lparr>introspect_with_requirements :=
       (\<lambda>_ _ _ _. Inr (sample_introspection\<lparr>iss := Some (lit ''a'')\<rparr>))\<rparr>,
     env_uuid = sample_uuid, env_show_uuid = (\<lambda>_. lit ''u''), env_serde = null_serde,
     env_database = sample_database, env_http = http_ops sample_os, env_frames = sample_codec,
     env_network = sample_tcp_call 1, env_broker = broker_ops sample_os,
     env_status = \<lparr>encode_signal = (\<lambda>_. None), decode_status = (\<lambda>_. None)\<rparr>, env_decode = Some,
     env_clock1 = Some 5, env_clock2 = Some 5, env_fresh = 9, env_upgrades = False\<rparr>"

definition sample_web_request :: web_request where
  "sample_web_request = \<lparr>web_method = lit ''GET'', web_path = lit ''/api/data-plane/direct'',
     web_headers = sample_headers_view, web_form = None\<rparr>"

lemma sample_web_handle:
  assumes "web_auth st = \<lparr>auth_client = (), our_audience = lit ''a'', our_issuer = lit ''a''\<rparr>"
    and "web_database st = Some url"
  shows "\<exists>v. web_handle sample_web_env sample_web_request st = ((JsonValue v, st), [DirectCall 2])"
proof -
  have "web_route (lit ''GET'') (lit ''/api/data-plane/direct'') = ToDataPlane (lit ''direct'')"
  proof -
    have "strip_prefix (lit ''/api/data-plane/'') (lit ''/api/data-plane/direct'') = Some (lit ''direct'')"
      by (simp add: strip_prefix_eq_Some lit_append [symmetric])
    then show ?thesis by (simp add: web_route_def on_get_def) (simp add: lit_Cons)
  qed
  moreover have "verify_user (env_client sample_web_env) sample_uuid (Some 5) (Some 5) (web_auth st) (lit ''tok'')
      [CASES_READ_SCOPE] = Inr \<lparr>subject = 1, identity_tenant = 2\<rparr>"
  proof -
    have "validate_identity sample_uuid (Some 5) (Some 5) sample_introspection (lit ''a'') (lit ''i'')
        [CASES_READ_SCOPE] = Inr \<lparr>subject = 1, identity_tenant = 2\<rparr>"
      using sample_gate(2) by (simp add: verify_user_def sample_client_def sample_verifier_def)
    then have "validate_identity sample_uuid (Some 5) (Some 5) (sample_introspection\<lparr>iss := Some (lit ''a'')\<rparr>)
        (lit ''a'') (lit ''a'') [CASES_READ_SCOPE] = Inr \<lparr>subject = 1, identity_tenant = 2\<rparr>"
      unfolding validate_identity_ok
      by (simp add: sample_introspection_def current_def proves_identity_def tenant_claim_def bt_get_def)
    then show ?thesis using assms(1) by (simp add: verify_user_def sample_web_env_def)
  qed
  moreover obtain v where "fst (case_projection sample_database (\<lambda>_. lit ''u'') 2) = Inr v"
    by (simp add: case_projection_def sample_database_def Let_def)
  ultimately show ?thesis
    using assms(2) sample_gate(1,3)
    by (simp add: web_handle_def sample_web_request_def serve_data_plane_def data_plane_request_def operation_of_def
        call_backend_def wired_backends_def ok_value_def avenues_of_def sample_web_env_def)
qed

theorem served_payload_witness:
  "\<exists>st v. web_handle sample_web_env sample_web_request st = ((JsonValue v, st), [DirectCall 2])
     \<and> sample_env (lit ''SHARED_AUTH_AUDIENCE'') = Some (our_audience (web_auth st))
     \<and> answer_from null_serde (\<lambda>_. lit ''u'') (avenues_of sample_web_env st) (DirectCall 2) v"
proof -
  obtain st where st: "web_start \<lparr>feature_tcp = True, feature_nats = True\<rparr> sample_os sample_env
      = Inr (st, V4 (127, 0, 0, 1) 8080)" "web_database st = Some (lit ''a'')"
    "web_auth st = \<lparr>auth_client = (), our_audience = lit ''a'', our_issuer = lit ''a''\<rparr>"
    using sample_started by blast
  obtain v where v: "web_handle sample_web_env sample_web_request st = ((JsonValue v, st), [DirectCall 2])"
    using sample_web_handle [OF st(3,2)] by blast
  have "st = web_run [] st" by simp
  from served_payload [OF st(1) this v] v show ?thesis by (auto simp: sample_web_env_def)
qed


end
