(* ===== verification/Web_Live.thy ===== *)
theory Web_Live
  imports Web_App
begin

text \<open>
  Items and WebSocket sessions together (\<open>AppState.events\<close>, \<open>create_item\<close>, \<open>ws_upgrade\<close> and
  \<open>ws_loop\<close> of \<^verbatim>\<open>src/main.rs\<close>): the server's steps, the broadcast channel between them and one
  loop per client. The channel is the library's: its operations are the parameter \<open>broadcast_lib\<close>,
  and what the code relies on is \<open>broadcast_laws\<close>, the documented behaviour of a channel that holds
  \<open>EVENT_CAPACITY\<close> values per receiver and drops the oldest, telling the receiver, when one lags.
  The model adds to a session how many events there were when it subscribed and how many items when
  it was last sent a text.
\<close>

definition EVENT_CAPACITY :: nat where
  "EVENT_CAPACITY = 256"

definition record_changed :: "serde \<Rightarrow> rstr" where
  "record_changed S =
     unwrap_or (to_string S (json_obj [(lit ''event_type'', String (lit ''record.changed''))])) []"

subsection \<open>The broadcast channel\<close>

datatype received = Received rstr | Lagged | Waiting

record 'q broadcast_lib =
  channel_new :: "nat \<Rightarrow> 'q"
  send_event :: "rstr \<Rightarrow> 'q \<Rightarrow> 'q"
  subscribe :: "'q \<Rightarrow> nat \<times> 'q"
  recv :: "nat \<Rightarrow> 'q \<Rightarrow> received \<times> 'q"

text \<open>What a receiver has before it: whether it has missed values, and the values it will get.\<close>

type_synonym 'q backlog = "'q \<Rightarrow> nat \<Rightarrow> (bool \<times> rstr list) option"

fun queue_value :: "nat \<Rightarrow> rstr \<Rightarrow> bool \<times> rstr list \<Rightarrow> bool \<times> rstr list" where
  "queue_value n m (missed, ms) = (if length ms < n then (missed, ms @ [m]) else (True, tl ms @ [m]))"

fun take_value :: "bool \<times> rstr list \<Rightarrow> received \<times> bool \<times> rstr list" where
  "take_value (True, ms) = (Lagged, False, ms)"
| "take_value (False, []) = (Waiting, False, [])"
| "take_value (False, m # ms) = (Received m, False, ms)"

definition broadcast_laws :: "'q broadcast_lib \<Rightarrow> nat \<Rightarrow> 'q backlog \<Rightarrow> bool" where
  "broadcast_laws L n backlog \<longleftrightarrow>
     (\<forall>i. backlog (channel_new L n) i = None)
     \<and> (\<forall>m q i. backlog (send_event L m q) i = map_option (queue_value n m) (backlog q i))
     \<and> (\<forall>q i q'. subscribe L q = (i, q') \<longrightarrow>
          backlog q i = None \<and> backlog q' = (backlog q)(i \<mapsto> (False, [])))
     \<and> (\<forall>q i p r q'. backlog q i = Some p \<longrightarrow> recv L i q = (r, q') \<longrightarrow>
          r = fst (take_value p) \<and> backlog q' = (backlog q)(i \<mapsto> snd (take_value p)))"

subsection \<open>The server with its sessions\<close>

record session =
  joined :: nat
  told :: nat
  to_client :: "ws_message list"
  alive :: bool

record 'q live =
  web :: server
  hub :: 'q
  sessions :: "nat \<Rightarrow> session option"

definition live_start :: "'q broadcast_lib \<Rightarrow> 'q live" where
  "live_start L = \<lparr>web = empty_server, hub = channel_new L EVENT_CAPACITY, sessions = (\<lambda>_. None)\<rparr>"

text \<open>What a pass of the loop does to its session, on the input \<open>select!\<close> yields.\<close>

definition pass :: "nat \<Rightarrow> select \<Rightarrow> session \<Rightarrow> session" where
  "pass items input ses =
     (let (out, go_on) = ws_loop [input] in
      ses\<lparr>to_client := to_client ses @ out, alive := go_on,
          told := (if \<exists>text. TextMessage text \<in> set out then items else told ses)\<rparr>)"

definition item_count :: "'q live \<Rightarrow> nat" where
  "item_count s = length (app_items (app (web s)))"

definition event_count :: "'q live \<Rightarrow> nat" where
  "event_count s = app_events (app (web s))"

text \<open>The inputs of a loop that come from the client and not from the channel.\<close>

fun from_client :: "select \<Rightarrow> bool" where
  "from_client (EventText _ _) \<longleftrightarrow> False"
| "from_client EventLagged \<longleftrightarrow> False"
| "from_client EventsClosed \<longleftrightarrow> False"
| "from_client _ \<longleftrightarrow> True"

inductive live_step :: "serde \<Rightarrow> 'q broadcast_lib \<Rightarrow> 'q live \<Rightarrow> 'q live \<Rightarrow> bool" for S L where
  quiet: "app_step (web s) p w \<Longrightarrow> app_events (app w) = event_count s \<Longrightarrow> live_step S L s (s\<lparr>web := w\<rparr>)"
| notify: "app_step (web s) None w \<Longrightarrow> app_events (app w) = Suc (event_count s) \<Longrightarrow>
    live_step S L s (s\<lparr>web := w, hub := send_event L (record_changed S) (hub s)\<rparr>)"
| upgrade: "subscribe L (hub s) = (i, h) \<Longrightarrow>
    live_step S L s (s\<lparr>hub := h,
      sessions := (sessions s)(i \<mapsto> \<lparr>joined = event_count s, told = 0, to_client = [], alive = True\<rparr>)\<rparr>)"
| event: "sessions s i = Some ses \<Longrightarrow> alive ses \<Longrightarrow> recv L i (hub s) = (Received text, h) \<Longrightarrow>
    live_step S L s (s\<lparr>hub := h,
      sessions := (sessions s)(i \<mapsto> pass (item_count s) (EventText text sent_ok) ses)\<rparr>)"
| lag: "sessions s i = Some ses \<Longrightarrow> alive ses \<Longrightarrow> recv L i (hub s) = (Lagged, h) \<Longrightarrow>
    live_step S L s (s\<lparr>hub := h, sessions := (sessions s)(i \<mapsto> pass (item_count s) EventLagged ses)\<rparr>)"
| client: "sessions s i = Some ses \<Longrightarrow> alive ses \<Longrightarrow> from_client input \<Longrightarrow>
    live_step S L s (s\<lparr>sessions := (sessions s)(i \<mapsto> pass (item_count s) input ses)\<rparr>)"

inductive live_reachable :: "serde \<Rightarrow> 'q broadcast_lib \<Rightarrow> 'q live \<Rightarrow> bool" for S L where
  start: "live_reachable S L (live_start L)"
| step: "live_reachable S L s \<Longrightarrow> live_step S L s s' \<Longrightarrow> live_reachable S L s'"

subsection \<open>No change is lost\<close>

text \<open>
  A session that has taken everything from the channel has been told of the last change, at a moment
  when the list already held every item announced since.
\<close>

definition caught_up :: "nat \<Rightarrow> session \<Rightarrow> bool" where
  "caught_up events ses \<longleftrightarrow> joined ses = events \<or> events \<le> told ses \<and> (\<exists>text. TextMessage text \<in> set (to_client ses))"

definition only_changes :: "serde \<Rightarrow> session \<Rightarrow> bool" where
  "only_changes S ses \<longleftrightarrow> (\<forall>text. TextMessage text \<in> set (to_client ses) \<longrightarrow> text = record_changed S)"

definition session_ok :: "serde \<Rightarrow> nat \<Rightarrow> bool \<times> rstr list \<Rightarrow> session \<Rightarrow> bool" where
  "session_ok S events p ses \<longleftrightarrow>
     set (snd p) \<subseteq> {record_changed S} \<and> only_changes S ses \<and> (fst p \<longrightarrow> snd p \<noteq> [])
     \<and> (alive ses \<and> snd p = [] \<longrightarrow> caught_up events ses)"

definition live_ok :: "serde \<Rightarrow> 'q backlog \<Rightarrow> 'q live \<Rightarrow> bool" where
  "live_ok S backlog s \<longleftrightarrow>
     items_ok (web s)
     \<and> (\<forall>i ses. sessions s i = Some ses \<longrightarrow>
          (\<exists>p. backlog (hub s) i = Some p \<and> session_ok S (event_count s) p ses))"

lemma pass_out:
  "to_client (pass items input ses) = to_client ses @ fst (ws_loop [input])"
  "alive (pass items input ses) = snd (ws_loop [input])"
  "joined (pass items input ses) = joined ses"
  "told (pass items input ses) =
     (if \<exists>text. TextMessage text \<in> set (fst (ws_loop [input])) then items else told ses)"
  by (simp_all add: pass_def split_beta)

lemma from_client_out: "from_client input \<Longrightarrow> TextMessage text \<notin> set (fst (ws_loop [input]))"
  by (cases input) auto

lemma session_ok_notify:
  "session_ok S e p ses \<Longrightarrow> 0 < n \<Longrightarrow> session_ok S e' (queue_value n (record_changed S) p) ses"
  by (cases p) (auto simp: session_ok_def dest: list.set_sel(2) [rotated])

lemma session_ok_client:
  "session_ok S e p ses \<Longrightarrow> from_client input \<Longrightarrow> alive ses \<Longrightarrow> session_ok S e p (pass n input ses)"
  using from_client_out [of input]
  by (auto simp: session_ok_def caught_up_def only_changes_def pass_out)

lemma session_ok_event:
  assumes "session_ok S e p ses" "fst (take_value p) = Received text" "e \<le> n"
  shows "session_ok S e (snd (take_value p)) (pass n (EventText text sent_ok) ses)"
  using assms
  by (cases p rule: take_value.cases)
     (auto simp: session_ok_def caught_up_def only_changes_def pass_out)

lemma session_ok_lag:
  assumes "session_ok S e p ses" "fst (take_value p) = Lagged" "alive ses"
  shows "session_ok S e (snd (take_value p)) (pass n EventLagged ses)"
  using assms
  by (cases p rule: take_value.cases)
     (auto simp: session_ok_def caught_up_def only_changes_def pass_out)

text \<open>Every step of the server is one of the two kinds: quiet, or the announcement of a change.\<close>

lemma app_step_events:
  "app_step w p w' \<Longrightarrow>
     app_events (app w') = app_events (app w) \<or> p = None \<and> app_events (app w') = Suc (app_events (app w))"
  by (auto simp: app_step_simps broadcast_change_def push_item_def Let_def split: if_splits)

lemma items_ok_events: "items_ok w \<Longrightarrow> app_events (app w) \<le> length (app_items (app w))"
  by (simp add: items_ok_def)

lemma live_ok_session:
  "live_ok S backlog s \<Longrightarrow> sessions s i = Some ses \<Longrightarrow>
     \<exists>p. backlog (hub s) i = Some p \<and> session_ok S (event_count s) p ses"
  unfolding live_ok_def by blast

lemma live_step_ok:
  assumes "live_step S L s s'" "broadcast_laws L EVENT_CAPACITY backlog" "live_ok S backlog s"
  shows "live_ok S backlog s'"
  using assms(1)
proof cases
  case (quiet p w)
  with assms(3) app_step_items [OF quiet(2)] show ?thesis
    by (simp add: live_ok_def event_count_def)
next
  case (notify w)
  let ?h = "send_event L (record_changed S) (hub s)"
  have "\<exists>p. backlog ?h i = Some p \<and> session_ok S (app_events (app w)) p ses"
    if ses: "sessions s i = Some ses" for i ses
  proof -
    obtain p where p: "backlog (hub s) i = Some p" "session_ok S (event_count s) p ses"
      using live_ok_session [OF assms(3) ses] by blast
    from assms(2) p(1) have "backlog ?h i = Some (queue_value EVENT_CAPACITY (record_changed S) p)"
      by (simp add: broadcast_laws_def)
    then show ?thesis using session_ok_notify [OF p(2)] by (simp add: EVENT_CAPACITY_def)
  qed
  moreover have "items_ok w" using app_step_items [OF notify(2)] assms(3) by (simp add: live_ok_def)
  ultimately show ?thesis using notify(1) by (simp add: live_ok_def event_count_def)
next
  case (upgrade i h)
  then have "backlog h = (backlog (hub s))(i \<mapsto> (False, []))"
    using assms(2) by (simp add: broadcast_laws_def)
  with assms(3) upgrade(1) show ?thesis
    by (auto simp: live_ok_def session_ok_def caught_up_def only_changes_def event_count_def)
next
  case (event i ses message h sent_ok)
  then obtain p where p: "backlog (hub s) i = Some p" "session_ok S (event_count s) p ses"
    using live_ok_session [OF assms(3)] by blast
  with assms(2) event(4) have h: "fst (take_value p) = Received message"
    "backlog h = (backlog (hub s))(i \<mapsto> snd (take_value p))"
    by (metis broadcast_laws_def)+
  have "event_count s \<le> item_count s"
    using assms(3) items_ok_events by (simp add: live_ok_def event_count_def item_count_def)
  from session_ok_event [OF p(2) h(1) this] assms(3) event(1) h(2) show ?thesis
    by (simp add: live_ok_def event_count_def del: split_paired_Ex)
next
  case (lag i ses h)
  then obtain p where p: "backlog (hub s) i = Some p" "session_ok S (event_count s) p ses"
    using live_ok_session [OF assms(3)] by blast
  with assms(2) lag(4) have h: "fst (take_value p) = Lagged"
    "backlog h = (backlog (hub s))(i \<mapsto> snd (take_value p))"
    by (metis broadcast_laws_def)+
  from session_ok_lag [OF p(2) h(1) lag(3)] assms(3) lag(1) h(2) show ?thesis
    by (simp add: live_ok_def event_count_def del: split_paired_Ex)
next
  case (client i ses input)
  with assms(3) session_ok_client [OF _ client(4,3)] show ?thesis
    by (fastforce simp: live_ok_def event_count_def)
qed

lemma live_reachable_ok:
  assumes "live_reachable S L s" "broadcast_laws L EVENT_CAPACITY backlog"
  shows "live_ok S backlog s"
  using assms
proof induction
  case start
  then show ?case by (simp add: live_ok_def live_start_def items_ok_def empty_server_def)
next
  case step
  then show ?case using live_step_ok by blast
qed

text \<open>
  C4. No change is lost to a client: in every state the server can reach, however creations, sessions
  and slow clients interleave and whatever was dropped from a full channel, a session whose loop has
  nothing left to take has been sent a text after the list held every item announced since it
  subscribed (so a client that fetches the list on each text has seen them all), and no client is
  ever sent a text other than the notice of a change.
\<close>

theorem no_change_lost:
  assumes "broadcast_laws L EVENT_CAPACITY backlog" "live_reachable S L s" "sessions s i = Some ses"
  shows "(alive ses \<and> fst (recv L i (hub s)) = Waiting \<longrightarrow>
      event_count s = joined ses
      \<or> event_count s \<le> told ses \<and> TextMessage (record_changed S) \<in> set (to_client ses))
    \<and> (\<forall>text. TextMessage text \<in> set (to_client ses) \<longrightarrow> text = record_changed S)"
proof -
  obtain p where p: "backlog (hub s) i = Some p" "session_ok S (event_count s) p ses"
    using live_ok_session [OF live_reachable_ok [OF assms(2,1)] assms(3)] by blast
  have "fst (recv L i (hub s)) = fst (take_value p)"
    using assms(1) p(1) by (metis broadcast_laws_def prod.collapse)
  moreover have "snd p = []" if "fst (take_value p) = Waiting"
    using that by (cases p rule: take_value.cases) auto
  ultimately show ?thesis
    using p(2) by (auto simp: session_ok_def caught_up_def only_changes_def)
qed

text \<open>A channel with these laws, for the witness: a counter and each receiver's backlog.\<close>

definition list_channel :: "(nat \<times> nat \<times> (nat \<Rightarrow> (bool \<times> rstr list) option)) broadcast_lib" where
  "list_channel =
     \<lparr>channel_new = (\<lambda>n. (n, 0, \<lambda>_. None)),
      send_event = (\<lambda>m (n, k, b). (n, k, \<lambda>i. map_option (queue_value 256 m) (b i))),
      subscribe = (\<lambda>(n, k, b). (k, n, Suc k, b(k \<mapsto> (False, [])))),
      recv = (\<lambda>i (n, k, b). case b i of None \<Rightarrow> (Waiting, n, k, b)
         | Some p \<Rightarrow> (fst (take_value p), n, k, b(i \<mapsto> snd (take_value p))))\<rparr>"

definition list_backlog :: "(nat \<times> nat \<times> (nat \<Rightarrow> (bool \<times> rstr list) option)) backlog" where
  "list_backlog = (\<lambda>(n, k, b) i. if i < k then b i else None)"

lemma list_channel_laws: "broadcast_laws list_channel EVENT_CAPACITY list_backlog"
  by (auto simp: broadcast_laws_def list_channel_def list_backlog_def EVENT_CAPACITY_def fun_eq_iff
      split: if_splits option.splits)

text \<open>One client, one creation: it subscribes, the item is pushed, announced and heard of.\<close>

definition heard :: "(nat \<times> nat \<times> (nat \<Rightarrow> (bool \<times> rstr list) option)) live" where
  "heard = \<lparr>web = \<lparr>app = \<lparr>app_items = [\<lparr>item_id = 1, item_title = lit ''a'', item_summary = []\<rparr>],
       app_events = 1\<rparr>, pushed = 0, announced = 1\<rparr>,
     hub = (256, 1, [0 \<mapsto> (False, [])]),
     sessions = [0 \<mapsto> \<lparr>joined = 0, told = 1, to_client = [TextMessage []], alive = True\<rparr>]\<rparr>"

lemma list_channel_send:
  "send_event list_channel m (256, 1, [0 \<mapsto> (False, [])]) = (256, 1, [0 \<mapsto> (False, [m])])"
  "send_event list_channel m (256, Suc 0, [0 \<mapsto> (False, [])]) = (256, Suc 0, [0 \<mapsto> (False, [m])])"
  by (auto simp: list_channel_def)

lemma heard_reachable: "live_reachable null_serde list_channel heard"
proof -
  let ?item = "\<lparr>item_id = 1, item_title = lit ''a'', item_summary = []\<rparr> :: item"
  let ?ses = "\<lparr>joined = 0, told = 0, to_client = [], alive = True\<rparr> :: session"
  let ?pushed = "\<lparr>app = \<lparr>app_items = [?item], app_events = 0\<rparr>, pushed = 1, announced = 0\<rparr> :: server"
  let ?announced = "\<lparr>app = \<lparr>app_items = [?item], app_events = 1\<rparr>, pushed = 0, announced = 1\<rparr> :: server"
  let ?open = "\<lparr>web = empty_server, hub = (256, 1, [0 \<mapsto> (False, [])]), sessions = [0 \<mapsto> ?ses]\<rparr>
    :: (nat \<times> nat \<times> (nat \<Rightarrow> (bool \<times> rstr list) option)) live"
  have message: "record_changed null_serde = []" by (simp add: record_changed_def null_serde_def)
  have "trim (lit ''a'') = lit ''a''"
    by (rule trimmed_trim) (simp add: trimmed_def lit_Cons is_whitespace_def)
  then have "push_item 1 (lit ''a'') [] (app empty_server) = Some \<lparr>app_items = [?item], app_events = 0\<rparr>"
    by (simp add: push_item_def Let_def empty_server_def)
  then have push: "app_step empty_server None ?pushed"
    using app_step.push [of 1 "lit ''a''" "[]" empty_server] by (simp add: empty_server_def)
  have announce: "app_step ?pushed None ?announced"
    using app_step.announce [of ?pushed 0] by (simp add: broadcast_change_def)
  have "live_step null_serde list_channel (live_start list_channel) ?open"
    using live_step.upgrade [where L = list_channel and s = "live_start list_channel" and S = null_serde]
    by (simp add: live_start_def list_channel_def EVENT_CAPACITY_def event_count_def empty_server_def)
  moreover have "live_step null_serde list_channel ?open (?open\<lparr>web := ?pushed\<rparr>)"
    using live_step.quiet [where L = list_channel and S = null_serde and s = ?open and p = None and w = ?pushed] push by (simp add: event_count_def empty_server_def)
  moreover have "live_step null_serde list_channel (?open\<lparr>web := ?pushed\<rparr>)
      (?open\<lparr>web := ?announced, hub := (256, 1, [0 \<mapsto> (False, [[]])])\<rparr>)"
    using live_step.notify [where L = list_channel and S = null_serde and s = "?open\<lparr>web := ?pushed\<rparr>" and w = ?announced]
      announce
    by (simp add: event_count_def list_channel_send message)
  moreover have "live_step null_serde list_channel
      (?open\<lparr>web := ?announced, hub := (256, 1, [0 \<mapsto> (False, [[]])])\<rparr>) heard"
    using live_step.event [where L = list_channel and S = null_serde and i = 0 and ses = ?ses and sent_ok = True
        and s = "?open\<lparr>web := ?announced, hub := (256, 1, [0 \<mapsto> (False, [[]])])\<rparr>"]
    by (simp add: heard_def list_channel_def pass_def item_count_def)
  ultimately show ?thesis by (meson live_reachable.intros)
qed

theorem no_change_lost_witness:
  "\<exists>ses. sessions heard 0 = Some ses \<and> event_count heard = 1 \<and> joined ses = 0
     \<and> event_count heard \<le> told ses \<and> TextMessage (record_changed null_serde) \<in> set (to_client ses)"
proof -
  have "fst (recv list_channel 0 (hub heard)) = Waiting" by (simp add: heard_def list_channel_def)
  moreover have "event_count heard = 1" by (simp add: heard_def event_count_def)
  ultimately show ?thesis
    using no_change_lost [OF list_channel_laws heard_reachable, of 0] by (simp add: heard_def)
qed

end
