(* ===== verification/Web_Main.thy ===== *)
theory Web_Main
  imports Web_Start
begin

text \<open>
  The whole of \<open>main\<close> of \<^verbatim>\<open>src/main.rs\<close> with what it reports: the start-up event of
  \<open>init_ores_logger\<close>, the notice that the server listens, and the event of a server that stopped
  serving. Sending the start-up event can fail and ends the process; a failure to send the last
  event is ignored. How \<open>axum::serve\<close> ends is a parameter: it returns an error, or returns.
\<close>

datatype ores_level = LevelInfo | LevelError

record ores_event =
  level :: ores_level
  messages :: "json list"
  event_fields :: "(rstr \<times> json) list"
  trace_id :: rstr
  routine_id :: rstr

definition starting_event :: ores_event where
  "starting_event = \<lparr>
     level = LevelInfo,
     messages = [String (lit ''service.starting'')],
     event_fields = bt_from
       [(lit ''auth.mode'', String (lit ''protected_introspection'')),
        (lit ''transport.modes'', Array
          [String (lit ''direct_read_only_db''), String (lit ''stateless_http''),
           String (lit ''stateful_mtls_tcp''), String (lit ''durable_jetstream'')])],
     trace_id = lit ''ores-trace-KiMOTzRq6Mo9LkD_Na7Yi'',
     routine_id = lit ''ores-routine-jqrtfbNVVRrBRDP6nxCSQ''\<rparr>"

definition serve_failed_event :: ores_event where
  "serve_failed_event = \<lparr>
     level = LevelError,
     messages = [String (lit ''service.serve.failed'')],
     event_fields = [],
     trace_id = lit ''ores-trace-QhgEv26r6_BFZP0ueikBP'',
     routine_id = lit ''ores-routine-yD12QJQcfvVEon7VjWpt_''\<rparr>"

datatype web_report = Ores ores_event | ListeningInfo socket_addr

datatype web_main_error = NotStarted start_error | ServeFailed

definition web_main ::
  "web_build \<Rightarrow> 'c web_os \<Rightarrow> (rstr \<Rightarrow> rstr option) \<Rightarrow> ('c web_state \<Rightarrow> socket_addr \<Rightarrow> bool) \<Rightarrow>
   (web_main_error + unit) \<times> web_report list" where
  "web_main b W env serves =
     (case web_start b W env of
        Inl e \<Rightarrow> (Inl (NotStarted e), [Ores starting_event])
      | Inr (state, addr) \<Rightarrow>
          if serves state addr then (Inr (), [Ores starting_event, ListeningInfo addr])
          else (Inl ServeFailed, [Ores starting_event, ListeningInfo addr, Ores serve_failed_event]))"

subsection \<open>What is reported\<close>

lemma starting_not_failed [simp]:
  "starting_event \<noteq> serve_failed_event" "serve_failed_event \<noteq> starting_event"
  by (simp_all add: starting_event_def serve_failed_event_def)

lemma web_main_cases:
  assumes "web_main b W env serves = (result, reports)"
  obtains (not_started) e where "web_start b W env = Inl e" "result = Inl (NotStarted e)"
      "reports = [Ores starting_event]"
    | (served) st addr where "web_start b W env = Inr (st, addr)" "serves st addr" "result = Inr ()"
        "reports = [Ores starting_event, ListeningInfo addr]"
    | (failed) st addr where "web_start b W env = Inr (st, addr)" "\<not> serves st addr" "result = Inl ServeFailed"
        "reports = [Ores starting_event, ListeningInfo addr, Ores serve_failed_event]"
  using assms by (auto simp: web_main_def split: sum.splits if_splits)

lemma web_start_address:
  assumes "web_start b W env = Inr (st, addr)"
  shows "parse_socket_addr (unwrap_or (env (lit ''BIND_ADDR'')) (lit ''127.0.0.1:8080'')) = Some addr"
  using assms by (auto simp: web_start_def and_then_eq_Inr Let_def split: if_splits)

text \<open>
  C27. The process reports how it ended and nothing of its configuration but the address: it returns
  without an error exactly if it started and serving did not fail, the address it announces is the
  one \<open>BIND_ADDR\<close> names, announced only once it is bound, the failure event is reported exactly for
  a server that had announced itself and then failed; and what is reported is a function of the
  outcome and of that address alone, so that two environments with the same address that end alike
  are reported alike, whatever their credentials are.
\<close>

theorem web_main_reports:
  assumes "web_main b W env serves = (result, reports)"
  shows "(result = Inr () \<longleftrightarrow> (\<exists>st addr. web_start b W env = Inr (st, addr) \<and> serves st addr))
    \<and> (\<forall>addr. ListeningInfo addr \<in> set reports \<longrightarrow> binds W addr
        \<and> parse_socket_addr (unwrap_or (env (lit ''BIND_ADDR'')) (lit ''127.0.0.1:8080'')) = Some addr)
    \<and> (Ores serve_failed_event \<in> set reports \<longleftrightarrow> result = Inl ServeFailed)
    \<and> (\<forall>b' (W' :: 'd web_os) env' serves' reports'.
         env' (lit ''BIND_ADDR'') = env (lit ''BIND_ADDR'') \<and> web_main b' W' env' serves' = (result, reports')
         \<longrightarrow> reports' = reports)"
proof -
  have same: "reports' = reports"
    if "env' (lit ''BIND_ADDR'') = env (lit ''BIND_ADDR'')" "web_main b' W' env' serves' = (result, reports')"
    for b' and W' :: "'d web_os" and env' serves' reports'
    using that(2)
    by (rule web_main_cases; use assms in \<open>rule web_main_cases\<close>)
       (auto dest!: web_start_address simp: that(1))
  from assms show ?thesis
    by (rule web_main_cases) (auto dest: web_start_address web_start_closed same)
qed

theorem web_main_reports_witness:
  "\<exists>reports. web_main \<lparr>feature_tcp = True, feature_nats = True\<rparr> sample_os sample_env (\<lambda>_ _. False)
       = (Inl ServeFailed, reports)
     \<and> Ores serve_failed_event \<in> set reports
     \<and> ListeningInfo (V4 (127, 0, 0, 1) 8080) \<in> set reports \<and> binds sample_os (V4 (127, 0, 0, 1) 8080)"
proof -
  have "web_main \<lparr>feature_tcp = True, feature_nats = True\<rparr> sample_os sample_env (\<lambda>_ _. False)
      = (Inl ServeFailed,
         [Ores starting_event, ListeningInfo (V4 (127, 0, 0, 1) 8080), Ores serve_failed_event])"
    using sample_started by (auto simp: web_main_def)
  with web_main_reports [OF this] show ?thesis by (metis list.set_intros)
qed

end
