(* ===== verification/Web_Pages.thy ===== *)
theory Web_Pages
  imports Web_App
begin

text \<open>
  The HTML of the web server: the page (\<open>layout\<close>), the list of items (\<open>items_fragment\<close>) and the
  refusal of an empty title, all of \<^verbatim>\<open>src/main.rs\<close>. The \<open>html!\<close> templates are values of a markup
  type, element by element. The template library that prints them is outside the repository:
  \<open>render\<close> and its \<open>escape\<close> are parameters, and \<open>maud_prints\<close> states what its documentation
  promises: tags and attributes are printed as written, every text and attribute value, spliced or
  literal, is escaped, and escaping removes the characters \<open><\<close>, \<open>>\<close> and the double quote and leaves
  alone a text that has no special character.
\<close>

subsection \<open>Templates\<close>

type_synonym attribute = "rstr \<times> rstr option"

datatype markup =
    DOCTYPE
  | Escaped rstr
  | Element rstr "attribute list" "markup list"
  | Void rstr "attribute list"

definition attr :: "string \<Rightarrow> string \<Rightarrow> attribute" where
  "attr name value = (lit name, Some (lit value))"

definition style_sheet :: rstr where
  "style_sheet = lit (''body{font-family:system-ui;max-width:72rem;margin:auto;padding:2rem;background:#f5f5f5}''
     @ ''main{background:white;padding:2rem;border-radius:1rem}''
     @ ''input,textarea,button{display:block;width:100%;box-sizing:border-box;margin:.5rem 0;padding:.75rem}''
     @ ''li{padding:.6rem;border-bottom:1px solid #ddd}.muted{color:#666}'')"

definition refresh_script :: rstr where
  "refresh_script = lit (''document.body.addEventListener('htmx:wsAfterMessage',()=>''
     @ ''document.body.dispatchEvent(new Event('record-changed')));'')"

definition layout :: "nat \<Rightarrow> markup list" where
  "layout count =
     [DOCTYPE,
      Element (lit ''html'') [attr ''lang'' ''en'']
        [Element (lit ''head'') []
           [Void (lit ''meta'') [attr ''charset'' ''utf-8''],
            Void (lit ''meta'') [attr ''name'' ''viewport'', attr ''content'' ''width=device-width,initial-scale=1''],
            Element (lit ''title'') [] [Escaped (lit ''Apostille Me'')],
            Element (lit ''script'') [attr ''src'' ''https://unpkg.com/htmx.org@2.0.4''] [],
            Element (lit ''script'') [attr ''src'' ''https://unpkg.com/htmx-ext-ws@2.0.2''] [],
            Element (lit ''style'') [] [Escaped style_sheet]],
         Element (lit ''body'') [attr ''hx-ext'' ''ws'', attr ''ws-connect'' ''/ws'']
           [Element (lit ''main'') []
              [Element (lit ''h1'') [] [Escaped (lit ''Apostille Me'')],
               Element (lit ''p'') [] [Escaped (lit ''Case operations for visa and apostille consulting.'')],
               Element (lit ''p'') [attr ''class'' ''muted'', attr ''id'' ''live-status'']
                 [Escaped (lit ''WebSocket connected changes will refresh the list.'')],
               Element (lit ''form'')
                 [attr ''hx-post'' ''/items'', attr ''hx-target'' ''#items'', attr ''hx-swap'' ''innerHTML'']
                 [Element (lit ''label'') [attr ''for'' ''title''] [Escaped (lit ''Title'')],
                  Void (lit ''input'')
                    [attr ''id'' ''title'', attr ''name'' ''title'', attr ''maxlength'' ''256'',
                     (lit ''required'', None)],
                  Element (lit ''label'') [attr ''for'' ''summary''] [Escaped (lit ''Summary'')],
                  Element (lit ''textarea'')
                    [attr ''id'' ''summary'', attr ''name'' ''summary'', attr ''maxlength'' ''4000''] [],
                  Element (lit ''button'') [attr ''type'' ''submit''] [Escaped (lit ''Create bootstrap record'')]],
               Element (lit ''p'') [] [Escaped (lit ''Current records: ''), Escaped (show_dec count)],
               Element (lit ''section'')
                 [attr ''id'' ''items'', attr ''hx-get'' ''/fragments/items'',
                  attr ''hx-trigger'' ''load, record-changed from:body''] []],
            Element (lit ''script'') [] [Escaped refresh_script]]]]"

definition item_markup :: "(uuid \<Rightarrow> rstr) \<Rightarrow> item \<Rightarrow> markup" where
  "item_markup show_uuid item =
     Element (lit ''li'') [(lit ''data-id'', Some (show_uuid (item_id item)))]
       [Element (lit ''strong'') [] [Escaped (item_title item)],
        Element (lit ''p'') [] [Escaped (item_summary item)]]"

definition items_markup :: "(uuid \<Rightarrow> rstr) \<Rightarrow> item list \<Rightarrow> markup list" where
  "items_markup show_uuid items = [Element (lit ''ul'') [] (map (item_markup show_uuid) items)]"

definition title_required :: rstr where
  "title_required = lit ''<p role=alert>title is required</p>''"

text \<open>The text a page is sent as.\<close>

definition page_html :: "(markup list \<Rightarrow> rstr) \<Rightarrow> (uuid \<Rightarrow> rstr) \<Rightarrow> page \<Rightarrow> rstr" where
  "page_html render show_uuid p =
     (case p of
        TitleRequired \<Rightarrow> title_required
      | ItemsPage items \<Rightarrow> render (items_markup show_uuid items)
      | IndexPage count \<Rightarrow> render (layout count))"

subsection \<open>What the template library promises\<close>

definition special :: "rchar set" where
  "special = {34, 38, 60, 62}"

fun print_attribute :: "(rstr \<Rightarrow> rstr) \<Rightarrow> attribute \<Rightarrow> rstr" where
  "print_attribute escape (name, None) = 32 # name"
| "print_attribute escape (name, Some value) = 32 # name @ [61, 34] @ escape value @ [34]"

definition start_tag :: "(rstr \<Rightarrow> rstr) \<Rightarrow> rstr \<Rightarrow> attribute list \<Rightarrow> rstr" where
  "start_tag escape name as = 60 # name @ concat (map (print_attribute escape) as) @ [62]"

definition end_tag :: "rstr \<Rightarrow> rstr" where
  "end_tag name = [60, 47] @ name @ [62]"

definition escapes :: "(rstr \<Rightarrow> rstr) \<Rightarrow> bool" where
  "escapes escape \<longleftrightarrow>
     (\<forall>t. set (escape t) \<inter> {34, 60, 62} = {}) \<and> (\<forall>t. set t \<inter> special = {} \<longrightarrow> escape t = t)"

definition maud_prints :: "(rstr \<Rightarrow> rstr) \<Rightarrow> (markup list \<Rightarrow> rstr) \<Rightarrow> bool" where
  "maud_prints escape render \<longleftrightarrow>
     escapes escape \<and> render [] = []
     \<and> (\<forall>m ms. render (m # ms) = render [m] @ render ms)
     \<and> render [DOCTYPE] = lit ''<!DOCTYPE html>''
     \<and> (\<forall>t. render [Escaped t] = escape t)
     \<and> (\<forall>name as. render [Void name as] = start_tag escape name as)
     \<and> (\<forall>name as ms. render [Element name as ms] = start_tag escape name as @ render ms @ end_tag name)"

subsection \<open>The tags of a page\<close>

text \<open>
  What a browser sees of the structure of a page: its tags, without the text between them and
  without the values of quoted attributes.
\<close>

datatype scanning = InText | InTag | InValue

fun tags :: "scanning \<Rightarrow> rstr \<Rightarrow> rstr" where
  "tags _ [] = []"
| "tags InText (c # cs) = (if c = 60 then c # tags InTag cs else tags InText cs)"
| "tags InTag (c # cs) =
     c # tags (if c = 62 then InText else if c = 34 then InValue else InTag) cs"
| "tags InValue (c # cs) = (if c = 34 then c # tags InTag cs else tags InValue cs)"

text \<open>The same, read off the template: the values of attributes and the texts do not occur.\<close>

fun attribute_shape :: "attribute \<Rightarrow> rstr" where
  "attribute_shape (name, None) = 32 # name"
| "attribute_shape (name, Some value) = 32 # name @ [61, 34, 34]"

definition tag_shape :: "rstr \<Rightarrow> attribute list \<Rightarrow> rstr" where
  "tag_shape name as = 60 # name @ concat (map attribute_shape as) @ [62]"

fun shape :: "markup \<Rightarrow> rstr" where
  "shape DOCTYPE = lit ''<!DOCTYPE html>''"
| "shape (Escaped t) = []"
| "shape (Void name as) = tag_shape name as"
| "shape (Element name as ms) = tag_shape name as @ concat (map shape ms) @ end_tag name"

definition plain_name :: "rstr \<Rightarrow> bool" where
  "plain_name name \<longleftrightarrow> set name \<inter> special = {}"

fun plain_names :: "markup \<Rightarrow> bool" where
  "plain_names DOCTYPE = True"
| "plain_names (Escaped t) = True"
| "plain_names (Void name as) = (plain_name name \<and> list_all (\<lambda>a. plain_name (fst a)) as)"
| "plain_names (Element name as ms) =
     (plain_name name \<and> list_all (\<lambda>a. plain_name (fst a)) as \<and> list_all plain_names ms)"

lemma tags_text: "60 \<notin> set t \<Longrightarrow> tags InText (t @ cs) = tags InText cs"
  by (induction t) auto

lemma tags_name: "set t \<inter> special = {} \<Longrightarrow> tags InTag (t @ cs) = t @ tags InTag cs"
  by (induction t) (auto simp: special_def)

lemma tags_value: "34 \<notin> set t \<Longrightarrow> tags InValue (t @ cs) = tags InValue cs"
  by (induction t) auto

lemma tags_attribute:
  "escapes escape \<Longrightarrow> plain_name (fst a) \<Longrightarrow>
     tags InTag (print_attribute escape a @ cs) = attribute_shape a @ tags InTag cs"
  by (cases a; cases "snd a") (auto simp: plain_name_def escapes_def tags_name tags_value)

lemma tags_attributes:
  "escapes escape \<Longrightarrow> list_all (\<lambda>a. plain_name (fst a)) as \<Longrightarrow>
     tags InTag (concat (map (print_attribute escape) as) @ cs) = concat (map attribute_shape as) @ tags InTag cs"
  by (induction as) (simp_all add: tags_attribute)

lemma tags_start_tag:
  "escapes escape \<Longrightarrow> plain_name name \<Longrightarrow> list_all (\<lambda>a. plain_name (fst a)) as \<Longrightarrow>
     tags InText (start_tag escape name as @ cs) = tag_shape name as @ tags InText cs"
  by (simp add: start_tag_def tag_shape_def tags_name tags_attributes plain_name_def)

lemma tags_end_tag: "plain_name name \<Longrightarrow> tags InText (end_tag name @ cs) = end_tag name @ tags InText cs"
  by (simp add: end_tag_def tags_name plain_name_def)

lemma maud_printsD:
  assumes "maud_prints escape render"
  shows "escapes escape" "render [] = []" "render (m # ms) = render [m] @ render ms"
    "render [DOCTYPE] = lit ''<!DOCTYPE html>''" "render [Escaped t] = escape t"
    "render [Void name as] = start_tag escape name as"
    "render [Element name as ms] = start_tag escape name as @ render ms @ end_tag name"
  using assms unfolding maud_prints_def by blast+

lemma tags_render_each:
  assumes "maud_prints escape render"
    and "\<And>m cs. m \<in> set ms \<Longrightarrow> tags InText (render [m] @ cs) = shape m @ tags InText cs"
  shows "tags InText (render ms @ cs) = concat (map shape ms) @ tags InText cs"
  using assms(2)
proof (induction ms)
  case Nil
  then show ?case by (simp add: maud_printsD(2) [OF assms(1)])
next
  case (Cons m ms)
  then show ?case unfolding maud_printsD(3) [OF assms(1), of m ms] by simp
qed

lemma tags_render_one:
  assumes "maud_prints escape render" "plain_names m"
  shows "tags InText (render [m] @ cs) = shape m @ tags InText cs"
  using assms(2)
proof (induction m arbitrary: cs)
  case DOCTYPE
  then show ?case by (simp add: maud_printsD(4) [OF assms(1)] lit_Cons)
next
  case (Escaped t)
  have "60 \<notin> set (escape t)" using maud_printsD(1) [OF assms(1)] by (auto simp: escapes_def)
  then show ?case by (simp add: maud_printsD(5) [OF assms(1)] tags_text)
next
  case (Void name as)
  then show ?case by (simp add: maud_printsD(1,6) [OF assms(1)] tags_start_tag)
next
  case (Element name as ms)
  then have "tags InText (render ms @ cs) = concat (map shape ms) @ tags InText cs" for cs
    by (intro tags_render_each [OF assms(1)]) (simp add: list_all_iff)
  with Element.prems show ?case
    by (simp add: maud_printsD(1,7) [OF assms(1)] tags_start_tag tags_end_tag)
qed

lemma tags_render:
  assumes "maud_prints escape render" "list_all plain_names ms"
  shows "tags InText (render ms) = concat (map shape ms)"
  using tags_render_each [OF assms(1) tags_render_one [OF assms(1)], where cs = "[]"] assms(2)
  by (simp add: list_all_iff)

subsection \<open>No markup from a client\<close>

lemma plain_lit: "list_all (\<lambda>c. of_char c \<notin> special) s \<Longrightarrow> plain_name (lit s)"
  by (auto simp: plain_name_def lit_def list_all_iff)

lemma items_plain: "list_all plain_names (items_markup show_uuid items)"
  by (simp add: items_markup_def item_markup_def list_all_iff plain_name_def lit_Cons special_def)

lemma layout_plain: "list_all plain_names (layout count)"
  by (simp add: layout_def attr_def plain_name_def lit_Cons special_def)

definition page_shape :: "page \<Rightarrow> rstr" where
  "page_shape p =
     (case p of
        TitleRequired \<Rightarrow> lit ''<p role=alert></p>''
      | ItemsPage items \<Rightarrow>
          lit ''<ul>''
          @ concat (replicate (length items) (lit ''<li data-id=\"\"><strong></strong><p></p></li>''))
          @ lit ''</ul>''
      | IndexPage count \<Rightarrow> concat (map shape (layout 0)))"

lemma items_shape:
  "concat (map shape (items_markup show_uuid items)) = page_shape (ItemsPage items)"
proof -
  have "shape (item_markup show_uuid i) = lit ''<li data-id=\"\"><strong></strong><p></p></li>''" for i
    by (simp add: item_markup_def tag_shape_def end_tag_def lit_Cons)
  then have "concat (map (\<lambda>i. shape (item_markup show_uuid i)) items)
      = concat (replicate (length items) (lit ''<li data-id=\"\"><strong></strong><p></p></li>''))"
    by (simp add: map_replicate_const)
  then show ?thesis
    by (simp add: items_markup_def page_shape_def tag_shape_def end_tag_def lit_Cons comp_def)
qed

text \<open>
  C6. A client cannot put markup into a page: whatever titles and summaries were submitted, the tags
  of every page the server sends are those of its template, for the list of items one list entry
  per item with its fixed elements, and for the index page the same whatever the number it shows.
\<close>

theorem no_markup_injection:
  assumes "maud_prints escape render"
  shows "tags InText (page_html render show_uuid p) = page_shape p"
proof (cases p)
  case TitleRequired
  then show ?thesis by (simp add: page_html_def page_shape_def title_required_def lit_Cons)
next
  case (ItemsPage items)
  then show ?thesis
    using tags_render [OF assms items_plain] items_shape by (simp add: page_html_def)
next
  case (IndexPage count)
  have "map shape (layout count) = map shape (layout 0)" by (simp add: layout_def)
  with IndexPage show ?thesis
    using tags_render [OF assms layout_plain] by (simp add: page_html_def page_shape_def)
qed

text \<open>A printer that keeps the promises.\<close>

fun sample_escape :: "rstr \<Rightarrow> rstr" where
  "sample_escape [] = []"
| "sample_escape (c # cs) =
     (if c = 38 then lit ''&amp;'' else if c = 60 then lit ''&lt;'' else if c = 62 then lit ''&gt;''
      else if c = 34 then lit ''&quot;'' else [c]) @ sample_escape cs"

fun sample_print :: "markup \<Rightarrow> rstr" where
  "sample_print DOCTYPE = lit ''<!DOCTYPE html>''"
| "sample_print (Escaped t) = sample_escape t"
| "sample_print (Void name as) = start_tag sample_escape name as"
| "sample_print (Element name as ms) =
     start_tag sample_escape name as @ concat (map sample_print ms) @ end_tag name"

definition sample_render :: "markup list \<Rightarrow> rstr" where
  "sample_render ms = concat (map sample_print ms)"

lemma sample_maud: "maud_prints sample_escape sample_render"
proof -
  have "set (sample_escape t) \<inter> {34, 60, 62} = {}" for t
    by (induction t) (auto simp: lit_Cons)
  moreover have "set t \<inter> special = {} \<Longrightarrow> sample_escape t = t" for t
    by (induction t) (auto simp: special_def)
  ultimately show ?thesis by (simp add: maud_prints_def escapes_def sample_render_def)
qed

theorem no_markup_injection_witness:
  "tags InText (page_html sample_render (\<lambda>_. lit ''1'')
      (ItemsPage [\<lparr>item_id = 1, item_title = lit ''<b>'', item_summary = []\<rparr>]))
    = lit ''<ul><li data-id=\"\"><strong></strong><p></p></li></ul>''"
  by (simp add: no_markup_injection [OF sample_maud] page_shape_def lit_Cons)

subsection \<open>The live refresh\<close>

lemma render_two:
  "maud_prints escape render \<Longrightarrow> render [m, m'] = render [m] @ render [m']"
  using maud_printsD(3) [of escape render m "[m']"] by simp

lemma page_ends_with_script:
  assumes "maud_prints escape render"
  shows "\<exists>before. page_html render show_uuid (IndexPage count)
    = before @ lit ''<script>'' @ escape refresh_script @ lit ''</script></body></html>''"
proof -
  note law = maud_printsD(5,7) [OF assms] render_two [OF assms]
  obtain as head bs main where
    "layout count = [DOCTYPE, Element (lit ''html'') as
       [head, Element (lit ''body'') bs [main, Element (lit ''script'') [] [Escaped refresh_script]]]]"
    unfolding layout_def by blast
  moreover have script: "start_tag escape (lit ''script'') [] = lit ''<script>''"
    by (simp add: start_tag_def lit_Cons)
  ultimately have "page_html render show_uuid (IndexPage count)
    = (render [DOCTYPE] @ start_tag escape (lit ''html'') as @ render [head]
        @ start_tag escape (lit ''body'') bs @ render [main])
      @ lit ''<script>'' @ escape refresh_script @ lit ''</script></body></html>''"
    by (simp add: page_html_def law script end_tag_def) (simp add: lit_Cons)
  then show ?thesis by blast
qed

text \<open>
  C0. The script that refreshes the list on a change is sent through the escaping of texts, which a
  browser does not undo inside a script element: the page holds the text \<open>escape refresh_script\<close>
  between the tags of the script, and that is never the script that was written, which has an arrow
  in it. The style sheet, which has no special character, is sent as written.
\<close>

theorem refresh_script_altered:
  assumes "maud_prints escape render"
  shows "(\<exists>before. page_html render show_uuid (IndexPage count)
        = before @ lit ''<script>'' @ escape refresh_script @ lit ''</script></body></html>'')
    \<and> escape refresh_script \<noteq> refresh_script \<and> escape style_sheet = style_sheet"
proof -
  have "62 \<in> set refresh_script" by (simp add: refresh_script_def lit_Cons)
  moreover have "62 \<notin> set (escape refresh_script)"
    using maud_printsD(1) [OF assms] by (auto simp: escapes_def)
  moreover have "set style_sheet \<inter> special = {}"
    by (simp add: style_sheet_def lit_Cons special_def)
  then have "escape style_sheet = style_sheet"
    using maud_printsD(1) [OF assms] by (simp add: escapes_def)
  ultimately show ?thesis using page_ends_with_script [OF assms] by auto
qed

theorem refresh_script_altered_witness:
  "sample_escape refresh_script \<noteq> refresh_script"
  using refresh_script_altered [OF sample_maud] by blast

end
