(* ===== verification/Fn_Tests.thy ===== *)
theory Fn_Tests
  imports Fn_Framing Fn_Socket
begin

text \<open>
  The unit tests that the Oracle Functions adapter carries (\<open>mod tests\<close> of
  \<^verbatim>\<open>oracle_fn/http_stream.rs\<close> and of \<^verbatim>\<open>oracle_fn/socket.rs\<close>), each as the predicate its assertions
  make of the model, and proved. They compare the model with what the authors expect of the code.
\<close>

subsection \<open>The request reader\<close>

definition parses_content_length_request :: bool where
  \<open>parses_content_length_request =
     (let input = ''POST /call HTTP/1.1'' @ CRLF @ ''Fn-Call-Id: call-1'' @ CRLF
            @ ''Content-Length: 19'' @ CRLF @ CRLF @ ''{"document_id":"1"}''
      in case read_request \<lparr>pending = input, broken = False\<rparr> 1024 of
           Inr (Some (request, _)) \<Rightarrow>
             bt_get (parsed_headers request) (lit ''fn-call-id'') = Some (lit ''call-1'')
             \<and> parsed_body request = ''{"document_id":"1"}''
         | _ \<Rightarrow> False)\<close>

definition parses_chunked_request :: bool where
  \<open>parses_chunked_request =
     (let input = ''POST /call HTTP/1.1'' @ CRLF @ ''Transfer-Encoding: chunked'' @ CRLF @ CRLF
            @ ''4'' @ CRLF @ ''{"a"'' @ CRLF @ ''3'' @ CRLF @ '':1}'' @ CRLF @ ''0'' @ CRLF @ CRLF
      in case read_request \<lparr>pending = input, broken = False\<rparr> 1024 of
           Inr (Some (request, _)) \<Rightarrow> parsed_body request = ''{"a":1}''
         | _ \<Rightarrow> False)\<close>

definition rejects_excessive_header_count :: bool where
  "rejects_excessive_header_count =
     (let input = ''POST /call HTTP/1.1'' @ CRLF
            @ concat (map (\<lambda>index. utf8_encode (lit ''X-'' @ show_dec index @ lit '': value'') @ CRLF)
                [0..<MAX_HEADER_LINES])
            @ CRLF
      in read_request \<lparr>pending = input, broken = False\<rparr> 1024
           = Inl (BadRequest (lit ''too_many_headers'')))"

lemma sample_line_print: "http_line sample_line = ''POST /call HTTP/1.1'' @ CRLF"
proof -
  have "utf8_encode (lit ''POST /call HTTP/1.1'') = ''POST /call HTTP/1.1''"
    by (rule utf8_encode_lit) (simp add: ascii_text_def lit_Cons)
  then show ?thesis by (simp add: http_line_def sample_line_def)
qed

lemma ascii_line: "ascii_text (lit s) \<Longrightarrow> http_line (lit s) = s @ CRLF"
  by (simp add: http_line_def utf8_encode_lit)

lemma fn_call_headers:
  "print_headers [(lit ''Fn-Call-Id'', lit ''call-1''), (lit ''Content-Length'', lit ''19'')]
     = ''Fn-Call-Id: call-1'' @ CRLF @ ''Content-Length: 19'' @ CRLF"
  "collect_headers [(lit ''Fn-Call-Id'', lit ''call-1''), (lit ''Content-Length'', lit ''19'')] []
     = [(lit ''content-length'', lit ''19''), (lit ''fn-call-id'', lit ''call-1'')]"
proof -
  have "http_line (header_line (lit ''Fn-Call-Id'', lit ''call-1'')) = ''Fn-Call-Id: call-1'' @ CRLF"
    using ascii_line [of "''Fn-Call-Id: call-1''"] by (simp add: header_line_def ascii_text_def lit_Cons)
  moreover have "http_line (header_line (lit ''Content-Length'', lit ''19'')) = ''Content-Length: 19'' @ CRLF"
    using ascii_line [of "''Content-Length: 19''"] by (simp add: header_line_def ascii_text_def lit_Cons)
  ultimately show "print_headers [(lit ''Fn-Call-Id'', lit ''call-1''), (lit ''Content-Length'', lit ''19'')]
      = ''Fn-Call-Id: call-1'' @ CRLF @ ''Content-Length: 19'' @ CRLF"
    by (simp add: print_headers_def)
  show "collect_headers [(lit ''Fn-Call-Id'', lit ''call-1''), (lit ''Content-Length'', lit ''19'')] []
     = [(lit ''content-length'', lit ''19''), (lit ''fn-call-id'', lit ''call-1'')]"
    by (simp add: collect_headers_def add_header_def bt_modify_or_insert_def bt_get_def
        to_ascii_lowercase_def lit_Cons char_class_defs)
qed

lemma parses_content_length_request_holds: parses_content_length_request
proof -
  let ?hs = "[(lit ''Fn-Call-Id'', lit ''call-1''), (lit ''Content-Length'', lit ''19'')]"
  let ?body = \<open>''{"document_id":"1"}''\<close>
  have ok: "header_ok (lit ''Fn-Call-Id'', lit ''call-1'')" "header_ok (lit ''Content-Length'', lit ''19'')"
    "str_len (header_line (lit ''Fn-Call-Id'', lit ''call-1'')) = 18"
    "str_len (header_line (lit ''Content-Length'', lit ''19'')) = 18"
    using ascii_header_ok [of "lit ''Fn-Call-Id''" "lit ''call-1''"]
      ascii_header_ok [of "lit ''Content-Length''" "lit ''19''"]
    by (simp_all add: ascii_text_def lit_Cons header_name_char_def char_class_defs trimmed_def)
  then have head: "head_ok sample_line ?hs"
    using sample_line_ok
    by (simp add: head_ok_def header_size_def MAX_HEADER_LINES_def MAX_HEADER_BYTES_def)
  have input: "''POST /call HTTP/1.1'' @ CRLF @ ''Fn-Call-Id: call-1'' @ CRLF @ ''Content-Length: 19'' @ CRLF
      @ CRLF @ ?body = print_head sample_line ?hs @ ?body"
    by (simp add: print_head_def sample_line_print fn_call_headers)
  have "lit ''19'' = show_dec 19" by (simp add: lit_Cons show_dec.simps)
  then have "parse_usize (trim (lit ''19'')) = Some 19"
    by (simp add: parse_usize_show usize_max_def trimmed_trim)
  moreover have "\<not> chunked_coding (collect_headers ?hs [])"
    by (simp add: fn_call_headers chunked_coding_def bt_get_def)
  moreover have "bt_get (collect_headers ?hs []) (lit ''content-length'') = Some (lit ''19'')"
    "bt_get (collect_headers ?hs []) (lit ''fn-call-id'') = Some (lit ''call-1'')"
    by (simp_all add: fn_call_headers bt_get_def)
  ultimately show ?thesis
    using head unfolding parses_content_length_request_def Let_def input
    by (simp add: read_request_print_head read_body_of_cases read_exact_def)
qed

lemma parses_chunked_request_holds: parses_chunked_request
proof -
  let ?hs = "[(lit ''Transfer-Encoding'', lit ''chunked'')]"
  let ?cs = \<open>[(lit ''4'', ''{"a"''), (lit ''3'', '':1}'')]\<close>
  have "http_line (header_line (lit ''Transfer-Encoding'', lit ''chunked'')) = ''Transfer-Encoding: chunked'' @ CRLF"
    using ascii_line [of "''Transfer-Encoding: chunked''"]
    by (simp add: header_line_def ascii_text_def lit_Cons)
  moreover have "http_line (lit ''4'') = ''4'' @ CRLF" "http_line (lit ''3'') = ''3'' @ CRLF"
    "http_line (lit ''0'') = ''0'' @ CRLF"
    by (rule ascii_line, simp add: ascii_text_def lit_Cons)+
  ultimately have input: "''POST /call HTTP/1.1'' @ CRLF @ ''Transfer-Encoding: chunked'' @ CRLF @ CRLF
      @ ''4'' @ CRLF @ ''{\"a\"'' @ CRLF @ ''3'' @ CRLF @ '':1}'' @ CRLF @ ''0'' @ CRLF @ CRLF
      = print_head sample_line ?hs @ print_chunked ?cs (lit ''0'') []"
    by (simp add: print_head_def print_headers_def sample_line_print print_chunked_def print_chunk_def)
  have "chunk_size (lit ''4'') = Some 4" "chunk_size (lit ''3'') = Some 3" "chunk_size (lit ''0'') = Some 0"
    by (simp_all add: chunk_size_def first_segment_def lit_Cons trim_def trim_start_def trim_end_def
        is_whitespace_def from_str_radix_def digit_value_def char_class_defs usize_max_def)
  moreover have "line_ok (lit ''4'')" "line_ok (lit ''3'')" "line_ok (lit ''0'')"
    by (simp_all add: line_ok_def ascii_text_valid lit_Cons valid_small)
  ultimately show ?thesis
    unfolding parses_chunked_request_def Let_def input
    using sample_head_ok [of "lit ''Transfer-Encoding''" "lit ''chunked''"]
      read_chunked_body_print [of ?cs "lit ''0''" "[]" 1024 "[]"
        "\<lparr>pending = print_chunked ?cs (lit ''0'') [], broken = False\<rparr>" "[]"]
    by (simp add: read_request_print_head sample_headers sample_coding
        read_body_of_cases chunk_ok_def chunked_data_def usize_max_def)
qed

lemma rejects_excessive_header_count_holds: rejects_excessive_header_count
proof -
  let ?name = "\<lambda>index. lit ''X-'' @ show_dec index"
  let ?hs = "map (\<lambda>index. (?name index, lit ''value'')) [0..<MAX_HEADER_LINES]"
  have h: "header_ok (?name index, lit ''value'') \<and> str_len (header_line (?name index, lit ''value'')) \<le> 12"
    if "index < MAX_HEADER_LINES" for index
  proof -
    have "length (show_dec index) \<le> 3"
      using that by (intro length_show_dec) (simp_all add: MAX_HEADER_LINES_def)
    moreover have "ascii_text (?name index)" "\<forall>c \<in> set (?name index). header_name_char c"
      by (auto simp: ascii_text_def lit_Cons header_name_char_def char_class_defs dest!: show_dec_digits)
    moreover have "ascii_text (lit ''value'')" "trimmed (lit ''value'')" "\<forall>c \<in> set (lit ''value''). \<not> is_control c"
      by (simp_all add: ascii_text_def lit_Cons trimmed_def char_class_defs)
    ultimately show ?thesis using ascii_header_ok [of "?name index" "lit ''value''"] by simp
  qed
  then have "header_size (map (\<lambda>index. (?name index, lit ''value'')) is) \<le> length is * 12"
    if "\<forall>index \<in> set is. index < MAX_HEADER_LINES" for "is"
    using that by (induction "is") (fastforce simp: header_size_def)+
  from this [of "[0..<MAX_HEADER_LINES]"]
  have size: "header_size ?hs \<le> 1536" by (simp add: MAX_HEADER_LINES_def)
  have ok: "list_all header_ok ?hs" using h by (auto simp: list_all_iff)
  have input: "''POST /call HTTP/1.1'' @ CRLF
      @ concat (map (\<lambda>index. utf8_encode (lit ''X-'' @ show_dec index @ lit '': value'') @ CRLF)
          [0..<MAX_HEADER_LINES]) @ CRLF = http_line sample_line @ print_headers ?hs @ CRLF"
    unfolding append_assoc [symmetric] sample_line_print
    by (simp add: print_headers_def comp_def http_line_def header_line_def lit_Cons)
  show ?thesis
    unfolding rejects_excessive_header_count_def Let_def input
    by (rule read_request_too_many_headers)
       (use ok size sample_line_ok in \<open>simp_all add: MAX_HEADER_BYTES_def\<close>)
qed

subsection \<open>The listener socket\<close>

definition parses_fn_listener_uris :: bool where
  "parses_fn_listener_uris \<longleftrightarrow>
     parse_listener_uri (lit ''unix:///tmp/fn.sock'') = Inr (lit ''/tmp/fn.sock'')
     \<and> parse_listener_uri (lit ''unix:/tmp/fn.sock'') = Inr (lit ''/tmp/fn.sock'')
     \<and> (\<exists>e. parse_listener_uri (lit ''tcp://127.0.0.1:8080'') = Inl e)
     \<and> (\<exists>e. parse_listener_uri (lit ''unix:relative.sock'') = Inl e)"

text \<open>\<open>root\<close> is the directory the test makes for itself; its two files are removed in the end.\<close>

definition binds_the_fn_compatible_phony_socket :: "os_faults \<Rightarrow> path \<Rightarrow> file_system \<Rightarrow> bool" where
  "binds_the_fn_compatible_phony_socket F root fs =
     (let public_path = root @ [lit ''lsnr.sock''];
          phony = root @ [lit ''phonylsnr.sock''];
          (listener, fs) = bind_listener F public_path fs
      in (case listener of Inl _ \<Rightarrow> False | Inr _ \<Rightarrow> True)
         \<and> (case nodes fs public_path of Some (Symlink _) \<Rightarrow> True | _ \<Rightarrow> False)
         \<and> (case nodes fs phony of Some (Socket _) \<Rightarrow> True | _ \<Rightarrow> False)
         \<and> fst (then_do (unlink F public_path fs) (\<lambda>_ fs. unlink F phony fs)) = Inr ())"

lemma trim_token: "\<forall>c \<in> set s. \<not> is_whitespace c \<Longrightarrow> trim s = s"
  by (rule trimmed_trim) (auto simp: trimmed_def)

lemma parses_fn_listener_uris_holds: parses_fn_listener_uris
  by (simp add: parses_fn_listener_uris_def parse_listener_uri_def trim_token is_whitespace_def
      strip_prefix_def starts_with_def lit_Cons or_else_def ok_or_def)

lemma binds_the_fn_compatible_phony_socket_holds:
  assumes "nodes fs (root @ [lit ''lsnr.sock'']) = None" "nodes fs (root @ [lit ''phonylsnr.sock'']) = None"
  shows "binds_the_fn_compatible_phony_socket no_faults root fs"
proof -
  let ?p = "root @ [lit ''lsnr.sock'']"
  have phony: "phony_path ?p = root @ [lit ''phonylsnr.sock'']" by (simp add: phony_path_def lit_Cons)
  obtain fs' where b: "bind_listener no_faults ?p fs = (Inr (phony_path ?p), fs')"
    using bind_listener_no_faults [of ?p fs] assms phony by auto
  from bind_listener_success(7) [OF b] b show ?thesis
    by (simp add: binds_the_fn_compatible_phony_socket_def phony unlink_def no_faults_def then_do_def)
qed

end
