(* ===== verification/Route_Tests.thy ===== *)
theory Route_Tests
  imports Aws_Adapter Http_Adapter Fn_Tests
begin

text \<open>
  The unit tests of \<^verbatim>\<open>src/lambdas/src/lib.rs\<close>, each as the predicate its assertions make of the
  model, and proved. Where a test runs the JSON codec, what the codec does on the values of the test
  is a hypothesis: \<open>display\<close> is the text of a JSON value and \<open>encode\<close> its bytes.
\<close>

subsection \<open>The tests\<close>

definition SPEC :: RouteSpec where
  "SPEC = route_spec_new (lit ''heavy_document_render'') (lit ''POST'') (lit ''/api/heavy/document-render'')
     (lit ''document_id'')"

definition status_is :: "json \<Rightarrow> nat \<Rightarrow> bool" where
  "status_is response n \<longleftrightarrow> value_get (lit ''statusCode'') response = Some (json_uint n)"

definition aws_payload :: "(json \<Rightarrow> rstr) \<Rightarrow> rstr \<Rightarrow> rstr \<Rightarrow> json \<Rightarrow> json" where
  "aws_payload display method path body =
     json_obj [(lit ''rawPath'', String path),
               (lit ''requestContext'', json_obj [(lit ''http'', json_obj [(lit ''method'', String method)])]),
               (lit ''body'', String (display body)), (lit ''isBase64Encoded'', Bool False)]"

definition valid_body :: json where
  "valid_body = json_obj [(lit ''document_id'', String (lit ''ci-document-1''))]"

definition accepts_aws_api_gateway_v1_and_v2 ::
  "serde \<Rightarrow> (json \<Rightarrow> rstr) \<Rightarrow> build \<Rightarrow> nat \<Rightarrow> nat option \<Rightarrow> bool" where
  "accepts_aws_api_gateway_v1_and_v2 S display b pid clock \<longleftrightarrow>
     status_is (fst (dispatch S b pid clock (aws_payload display (spec_method SPEC) (spec_path SPEC) valid_body)
       (lit ''request-1'') SPEC [])) 202
     \<and> status_is (fst (dispatch S b pid clock
         (json_obj [(lit ''path'', String (spec_path SPEC)), (lit ''httpMethod'', String (spec_method SPEC)),
                    (lit ''body'', String (display valid_body))])
         (lit ''request-2'') SPEC [])) 202"

definition provider_neutral_dispatch_requires_exact_route :: "build \<Rightarrow> bool" where
  "provider_neutral_dispatch_requires_exact_route b \<longleftrightarrow>
     (let response = fst (dispatch_request b
            \<lparr>req_method = spec_method SPEC, req_path = spec_path SPEC, req_body = valid_body,
             request_id = lit ''request-3'', event_bytes = 64\<rparr> SPEC []);
          wrong = fst (dispatch_request b
            \<lparr>req_method = spec_method SPEC, req_path = lit ''/'', req_body = valid_body,
             request_id = lit ''request-4'', event_bytes = 64\<rparr> SPEC [])
      in status_code response = 202
         \<and> value_get (lit ''handler'') (resp_body response) = Some (String (handler SPEC))
         \<and> bt_get (headers response) (lit ''x-request-id'') = Some (lit ''request-3'')
         \<and> status_code wrong = 404)"

definition ce_event :: json where
  "ce_event =
     json_obj [(lit ''specversion'', String (lit ''1.0'')), (lit ''id'', String (lit ''ce-1'')),
               (lit ''source'', String (lit ''urn:scintilla:test'')), (lit ''type'', String (lit ''scintilla.test'')),
               (lit ''data'', valid_body)]"

definition structured_headers :: "(rstr, rstr) btree" where
  "structured_headers = bt_from [(lit ''content-type'', lit ''application/cloudevents+json; charset=utf-8'')]"

definition binary_headers :: "(rstr, rstr) btree" where
  "binary_headers = bt_from
     [(lit ''ce-id'', lit ''ce-2''), (lit ''ce-source'', lit ''urn:scintilla:test''),
      (lit ''ce-type'', lit ''scintilla.test''), (lit ''ce-specversion'', lit ''1.0'')]"

definition decodes_structured_and_binary_cloud_events :: "serde \<Rightarrow> (json \<Rightarrow> bytes) \<Rightarrow> bool" where
  "decodes_structured_and_binary_cloud_events S encode \<longleftrightarrow>
     decode_http_payload S (bt_get structured_headers) (encode ce_event)
       = Inr (valid_body, Some (lit ''ce-1''))
     \<and> decode_http_payload S (bt_get binary_headers) (encode valid_body) = Inr (valid_body, Some (lit ''ce-2''))"

definition test_status :: "build \<Rightarrow> rstr \<Rightarrow> rstr \<Rightarrow> json \<Rightarrow> nat \<Rightarrow> RouteSpec \<Rightarrow> nat" where
  "test_status b method path body bytes spec =
     status_code (fst (dispatch_request b
       \<lparr>req_method = method, req_path = path, req_body = body, request_id = lit ''r'', event_bytes = bytes\<rparr>
       spec []))"

definition set_member :: "rstr \<Rightarrow> json \<Rightarrow> json \<Rightarrow> json" where
  "set_member k v j = (case j of Object m \<Rightarrow> Object (bt_insert k v m) | _ \<Rightarrow> j)"

definition rejects_route_method_missing_field_base64_and_oversize ::
  "serde \<Rightarrow> (json \<Rightarrow> rstr) \<Rightarrow> build \<Rightarrow> nat \<Rightarrow> nat option \<Rightarrow> bool" where
  "rejects_route_method_missing_field_base64_and_oversize S display b pid clock \<longleftrightarrow>
     test_status b (spec_method SPEC) (lit ''/wrong'') valid_body 10 SPEC = 404
     \<and> test_status b (lit ''GET'') (spec_path SPEC) valid_body 10 SPEC = 405
     \<and> test_status b (spec_method SPEC) (spec_path SPEC) (json_obj []) 10 SPEC = 422
     \<and> status_is (fst (dispatch S b pid clock
         (set_member (lit ''isBase64Encoded'') (Bool True)
           (aws_payload display (spec_method SPEC) (spec_path SPEC) valid_body)) (lit ''r'') SPEC [])) 415
     \<and> test_status b (spec_method SPEC) (spec_path SPEC) valid_body 9 (SPEC\<lparr>max_event_bytes := 8\<rparr>) = 413"

definition resolves_azure_port_before_generic_port :: bool where
  "resolves_azure_port_before_generic_port \<longleftrightarrow>
     resolve_port (Some (lit ''8082'')) (Some (lit ''8081'')) = Inr 8082
     \<and> resolve_port None (Some (lit ''8081'')) = Inr 8081
     \<and> resolve_port None None = Inr 8080
     \<and> (\<exists>e. resolve_port (Some (lit ''0'')) None = Inl e)
     \<and> (\<exists>e. resolve_port None (Some (lit ''not-a-port'')) = Inl e)"

definition sanitizes_untrusted_correlation_ids :: bool where
  "sanitizes_untrusted_correlation_ids \<longleftrightarrow>
     sanitize_request_id (lit '' request'' @ [13, 10] @ lit ''id/1 '') = Some (lit ''requestid/1'')
     \<and> sanitize_request_id (lit ''  '') = None"

subsection \<open>They hold\<close>

lemma valid_body_eq: "valid_body = Object [(lit ''document_id'', String (lit ''ci-document-1''))]"
  by (simp add: valid_body_def json_obj_def bt_from_def)

lemma valid_body_required: "has_required_value valid_body (required_field SPEC)"
  by (auto simp: has_required_value_iff valid_body_eq SPEC_def route_spec_new_def bt_get_def non_blank_def
      lit_Cons is_whitespace_def)

lemma SPEC_sel [simp]:
  "spec_method SPEC = lit ''POST''" "spec_path SPEC = lit ''/api/heavy/document-render''"
  "max_event_bytes SPEC = DEFAULT_MAX_EVENT_BYTES" "required_field SPEC = lit ''document_id''"
  by (simp_all add: SPEC_def route_spec_new_def)

lemma test_status_eq:
  "test_status b method path body bytes spec =
     (if bytes > max_event_bytes spec then 413
      else if path \<noteq> spec_path spec then 404
      else if \<not> eq_ignore_ascii_case method (spec_method spec) then 405
      else if \<not> has_required_value body (required_field spec) then 422
      else 202)"
  by (simp add: test_status_def dispatch_request_status)

lemma provider_neutral_dispatch_requires_exact_route_holds: "provider_neutral_dispatch_requires_exact_route b"
  using valid_body_required
  by (simp add: provider_neutral_dispatch_requires_exact_route_def dispatch_request_def Let_def
      eq_ignore_ascii_case_def DEFAULT_MAX_EVENT_BYTES_def response_headers value_get_obj)

lemma dispatch_base64: "aws_base64 payload \<Longrightarrow> status_is (fst (dispatch S b pid clock payload i spec log)) 415"
  by (simp add: status_is_def dispatch_def Let_def)

lemma dispatch_aws_status:
  "\<not> aws_base64 payload \<Longrightarrow> acceptable spec (aws_request S payload (aws_id (pid, clock, payload, i))) \<Longrightarrow>
     status_is (fst (dispatch S b pid clock payload i spec log)) 202"
  using dispatch_request_202 [of b "aws_request S payload (aws_id (pid, clock, payload, i))" spec log]
  by (simp add: status_is_def dispatch_def Let_def split_beta)

lemma rejects_route_method_missing_field_base64_and_oversize_holds:
  "rejects_route_method_missing_field_base64_and_oversize S display b pid clock"
proof -
  have "aws_base64 (set_member (lit ''isBase64Encoded'') (Bool True) (aws_payload display m p v))" for m p v
    by (simp add: aws_base64_def aws_payload_def set_member_def json_obj_def value_get_def bt_get_insert)
  moreover have "\<not> has_required_value (json_obj []) (lit ''document_id'')"
    by (simp add: has_required_value_iff json_obj_def bt_from_def bt_get_def)
  moreover have "\<not> eq_ignore_ascii_case (lit ''GET'') (lit ''POST'')"
    by (simp add: eq_ignore_ascii_case_def to_ascii_lowercase_def lit_Cons char_class_defs)
  ultimately show ?thesis
    by (simp add: rejects_route_method_missing_field_base64_and_oversize_def test_status_eq dispatch_base64
        eq_ignore_ascii_case_def DEFAULT_MAX_EVENT_BYTES_def)
qed

text \<open>The two events of the test, and what the codec does with them.\<close>

definition test_events :: "(json \<Rightarrow> rstr) \<Rightarrow> json set" where
  "test_events display =
     {aws_v1_event (spec_method SPEC) (spec_path SPEC) (String (display valid_body)),
      aws_v2_event (spec_method SPEC) (spec_path SPEC) (String (display valid_body))}"

definition codec_on_tests :: "serde \<Rightarrow> (json \<Rightarrow> rstr) \<Rightarrow> (json \<Rightarrow> bytes) \<Rightarrow> bool" where
  "codec_on_tests S display encode \<longleftrightarrow>
     from_str S (display valid_body) = Some valid_body
     \<and> (\<forall>event \<in> test_events display. to_vec S event = Some (encode event)
          \<and> length (encode event) \<le> DEFAULT_MAX_EVENT_BYTES)
     \<and> (\<forall>v \<in> {valid_body, ce_event}. from_slice S (encode v) = Some v \<and> encode v \<noteq> [])"

lemma accepts_aws_api_gateway_v1_and_v2_holds:
  assumes "codec_on_tests S display encode"
  shows "accepts_aws_api_gateway_v1_and_v2 S display b pid clock"
proof -
  have "\<not> aws_base64 event \<and> acceptable SPEC (aws_request S event rid)" if "event \<in> test_events display" for event rid
    using that assms valid_body_required
    by (auto simp: codec_on_tests_def test_events_def aws_v1_event_def aws_v2_event_def aws_base64_def
        aws_request_def value_get_obj decode_json_value_def acceptable_iff eq_ignore_ascii_case_def)
  then show ?thesis
    unfolding accepts_aws_api_gateway_v1_and_v2_def aws_payload_def
    by (intro conjI dispatch_aws_status) (simp_all add: test_events_def aws_v1_event_def aws_v2_event_def)
qed

lemma decodes_structured_and_binary_cloud_events_holds:
  assumes "codec_on_tests S display encode"
  shows "decodes_structured_and_binary_cloud_events S encode"
proof -
  have mode: "structured_mode (bt_get structured_headers)" "\<not> structured_mode (bt_get binary_headers)"
    by (simp_all add: structured_mode_def structured_headers_def binary_headers_def bt_get_laws starts_with_def
        to_ascii_lowercase_def lit_def char_class_defs)
  have event: "structured_event ce_event" "value_get (lit ''data'') ce_event = Some valid_body"
    "value_get (lit ''id'') ce_event = Some (String (lit ''ce-1''))"
    by (auto simp: structured_event_def event_attribute_def ce_event_def value_get_obj blank_text_def lit_Cons
        is_whitespace_def)
  have attributes: "first_header (bt_get binary_headers) [lit ''ce-specversion''] = Some (lit ''1.0'')"
    "first_header (bt_get binary_headers) [lit ''ce-id''] = Some (lit ''ce-2'')"
    "first_header (bt_get binary_headers) [lit ''ce-source''] = Some (lit ''urn:scintilla:test'')"
    "first_header (bt_get binary_headers) [lit ''ce-type''] = Some (lit ''scintilla.test'')"
    by (simp_all add: first_header_one binary_headers_def bt_get_laws trim_token lit_Cons is_whitespace_def)
  have "decode_http_payload S (bt_get structured_headers) (encode ce_event) = Inr (valid_body, Some (lit ''ce-1''))"
    unfolding structured_payload_decoded [OF mode(1)] using assms event by (simp add: codec_on_tests_def)
  moreover have "decode_http_payload S (bt_get binary_headers) (encode valid_body)
      = Inr (valid_body, Some (lit ''ce-2''))"
    unfolding direct_payload_decoded [OF mode(2)]
    using assms by (simp add: codec_on_tests_def attributes binary_attributes_ok_def)
  ultimately show ?thesis by (simp add: decodes_structured_and_binary_cloud_events_def)
qed

lemma resolves_azure_port_before_generic_port_holds: resolves_azure_port_before_generic_port
proof -
  have "resolve_port (Some (show_dec n)) g = (if n = 0 then Inl (port_error (lit ''FUNCTIONS_CUSTOMHANDLER_PORT'')) else Inr n)"
    "resolve_port None (Some (show_dec n)) = (if n = 0 then Inl (port_error (lit ''PORT'')) else Inr n)"
    if "n \<le> 65535" for n g
    using that by (simp_all add: resolve_port_def trimmed_trim parse_u16_show)
  moreover have "parse_u16 (lit ''not-a-port'') = None"
    by (simp add: parse_u16_def from_str_radix_def lit_Cons digit_value_def char_class_defs)
  then have "resolve_port None (Some (lit ''not-a-port'')) = Inl (port_error (lit ''PORT''))"
    by (simp add: resolve_port_def trim_token is_whitespace_def lit_Cons)
  moreover have "lit ''8082'' = show_dec 8082" "lit ''8081'' = show_dec 8081" "lit ''0'' = show_dec 0"
    by (simp_all add: lit_Cons show_dec.simps)
  moreover have "resolve_port None None = Inr 8080" by (simp add: resolve_port_def DEFAULT_HTTP_PORT_def)
  ultimately show ?thesis by (simp add: resolves_azure_port_before_generic_port_def)
qed

lemma sanitizes_untrusted_correlation_ids_holds: sanitizes_untrusted_correlation_ids
  by (simp add: sanitizes_untrusted_correlation_ids_def sanitize_request_id_def lit_Cons trim_def trim_start_def
      trim_end_def is_whitespace_def request_id_char_def char_class_defs Let_def)

end
