(* ===== verification/Tcp_Tasks.thy ===== *)
theory Tcp_Tasks
  imports Data_Plane_Tcp
begin

text \<open>
  The handlers that share the persistent channel (\<open>AppState.tcp\<close> of \<^verbatim>\<open>src/main.rs\<close>, an
  \<open>Arc<Mutex<Channel>>\<close>), step by step. A handler locks the mutex, sends its frame and waits for the
  next one, all under the guard; frames come in at any time; and the server drops the future of a
  handler whose client has gone, at any of its \<open>await\<close> points, which releases the guard. A handler is
  known by the identifier it draws for its request. What the peer does is the parameter \<open>peer\<close>: which
  frame it may send next, given the requests it has not answered.
\<close>

subsection \<open>Steps\<close>

definition prepared :: "frame_codec \<Rightarrow> tcp_call \<Rightarrow> tcp_error + bytes" where
  "prepared K call =
     and_then (tcp_validate_token (call_token call)) (\<lambda>_.
     and_then (ok_or OtherIo (encode_request K (request_of call))) (\<lambda>payload.
       if payload = [] \<or> length payload > MAX_REQUEST_BYTES
       then Inl (InvalidData (lit ''invalid request frame length''))
       else Inr payload))"

datatype phase = Locked | Waiting

datatype verdict = Answered "tcp_error + json" | Dropped

record tcp_tasks =
  lane :: channel
  guard :: "(uuid \<times> phase) option"
  asked :: "uuid list"
  verdicts :: "uuid \<Rightarrow> verdict option"

definition no_tasks :: tcp_tasks where
  "no_tasks = \<lparr>lane = \<lparr>sent = [], arrived = []\<rparr>, guard = None, asked = [], verdicts = (\<lambda>_. None)\<rparr>"

definition finish :: "uuid \<Rightarrow> verdict \<Rightarrow> tcp_tasks \<Rightarrow> tcp_tasks" where
  "finish t v s = s\<lparr>guard := None, verdicts := (verdicts s)(t \<mapsto> v)\<rparr>"

definition hand_over :: "uuid \<Rightarrow> bytes \<Rightarrow> tcp_tasks \<Rightarrow> tcp_tasks" where
  "hand_over t payload s =
     s\<lparr>lane := (lane s)\<lparr>sent := sent (lane s) @ [payload]\<rparr>, asked := asked s @ [t]\<rparr>"

type_synonym peer = "uuid list \<Rightarrow> unit + bytes \<Rightarrow> uuid list \<Rightarrow> bool"

inductive tcp_step :: "frame_codec \<Rightarrow> (uuid \<Rightarrow> tcp_call) \<Rightarrow> peer \<Rightarrow> tcp_tasks \<Rightarrow> tcp_tasks \<Rightarrow> bool"
  for K job peer where
  lock: "guard s = None \<Longrightarrow> verdicts s t = None \<Longrightarrow> tcp_step K job peer s (s\<lparr>guard := Some (t, Locked)\<rparr>)"
| refuse: "guard s = Some (t, Locked) \<Longrightarrow> prepared K (job t) = Inl e \<Longrightarrow>
    tcp_step K job peer s (finish t (Answered (Inl e)) s)"
| send: "guard s = Some (t, Locked) \<Longrightarrow> prepared K (job t) = Inr payload \<Longrightarrow>
    tcp_step K job peer s ((hand_over t payload s)\<lparr>guard := Some (t, Waiting)\<rparr>)"
| send_failed: "guard s = Some (t, Locked) \<Longrightarrow> prepared K (job t) = Inr payload \<Longrightarrow>
    tcp_step K job peer s (finish t (Answered (Inl OtherIo)) s)"
| send_late: "guard s = Some (t, Locked) \<Longrightarrow> prepared K (job t) = Inr payload \<Longrightarrow>
    tcp_step K job peer s (finish t (Answered (Inl (TimedOut (lit ''mTLS send timed out''))))
      (if buffered then hand_over t payload s else s))"
| frame: "peer (asked s) f rest \<Longrightarrow>
    tcp_step K job peer s (s\<lparr>lane := (lane s)\<lparr>arrived := arrived (lane s) @ [f]\<rparr>, asked := rest\<rparr>)"
| receive: "guard s = Some (t, Waiting) \<Longrightarrow> arrived (lane s) = f # fs \<Longrightarrow>
    tcp_step K job peer s (finish t (Answered (taken_by K (job t) f)) (s\<lparr>lane := (lane s)\<lparr>arrived := fs\<rparr>\<rparr>))"
| starve: "guard s = Some (t, Waiting) \<Longrightarrow> arrived (lane s) = [] \<Longrightarrow>
    tcp_step K job peer s (finish t (Answered (Inl
      (if closed then InvalidData (lit ''mTLS API closed connection'')
       else TimedOut (lit ''mTLS receive timed out'')))) s)"

text \<open>A client may go while its handler waits for the lock, holds it, or waits for its answer.\<close>

inductive drop_step :: "frame_codec \<Rightarrow> (uuid \<Rightarrow> tcp_call) \<Rightarrow> tcp_tasks \<Rightarrow> tcp_tasks \<Rightarrow> bool"
  for K job where
  drop_queued: "verdicts s t = None \<Longrightarrow> \<forall>p. guard s \<noteq> Some (t, p) \<Longrightarrow>
    drop_step K job s (s\<lparr>verdicts := (verdicts s)(t \<mapsto> Dropped)\<rparr>)"
| drop_locked: "guard s = Some (t, Locked) \<Longrightarrow> drop_step K job s (finish t Dropped s)"
| drop_sending: "guard s = Some (t, Locked) \<Longrightarrow> prepared K (job t) = Inr payload \<Longrightarrow>
    drop_step K job s (finish t Dropped (hand_over t payload s))"
| drop_waiting: "guard s = Some (t, Waiting) \<Longrightarrow> drop_step K job s (finish t Dropped s)"

inductive_cases tcp_stepE: "tcp_step K job peer s s'"
inductive_cases drop_stepE: "drop_step K job s s'"

subsection \<open>The mutex serializes the calls\<close>

definition well_named :: "(uuid \<Rightarrow> tcp_call) \<Rightarrow> bool" where
  "well_named job \<longleftrightarrow> (\<forall>t. call_id (job t) = t)"

lemma tcp_cases_prepared:
  "tcp_cases K call ch =
     (case prepared K call of
        Inl e \<Rightarrow> (Inl e, ch)
      | Inr payload \<Rightarrow>
          (case call_send call of
             SendTimedOut buffered \<Rightarrow>
               (Inl (TimedOut (lit ''mTLS send timed out'')),
                if buffered then ch\<lparr>sent := sent ch @ [payload]\<rparr> else ch)
           | SendFailed \<Rightarrow> (Inl OtherIo, ch)
           | Sent \<Rightarrow>
               (case next_frame call (ch\<lparr>sent := sent ch @ [payload]\<rparr>) of
                  (Inl e, ch) \<Rightarrow> (Inl e, ch)
                | (Inr bytes, ch) \<Rightarrow> (judge_frame K (call_id call) bytes, ch))))"
  by (simp add: tcp_cases_def prepared_def)

lemma prepared_cong:
  "request_of call = request_of call' \<Longrightarrow> prepared K call = prepared K call'"
  by (simp add: prepared_def request_of_def)

lemma tcp_run_snoc:
  "tcp_run K calls ch = (results, ch1) \<Longrightarrow> tcp_cases K c ch1 = (r, ch2) \<Longrightarrow>
     tcp_run K (calls @ [c]) ch = (results @ [r], ch2)"
  by (induction calls arbitrary: ch results) (auto split: prod.splits)

lemma tcp_run_length: "length (fst (tcp_run K calls ch)) = length calls"
  by (induction calls arbitrary: ch) (auto simp: split_beta)

lemma single_map_add: "m k = None \<Longrightarrow> [k \<mapsto> v] ++ m = m(k \<mapsto> v)"
  by (auto simp: fun_eq_iff map_add_def split: option.splits)

text \<open>The calls that have ended, in the order in which they held the lock, and how they ended.\<close>

definition ended :: "frame_codec \<Rightarrow> (uuid \<Rightarrow> tcp_call) \<Rightarrow> tcp_call list \<Rightarrow> (tcp_error + json) list \<Rightarrow>
    channel \<Rightarrow> (uuid \<Rightarrow> verdict option) \<Rightarrow> bool" where
  "ended K job calls results ch vs \<longleftrightarrow>
     distinct (map call_id calls) \<and> list_all (\<lambda>c. request_of c = request_of (job (call_id c))) calls
     \<and> tcp_run K calls \<lparr>sent = [], arrived = []\<rparr> = (results, ch)
     \<and> vs = map_of (zip (map call_id calls) (map Answered results))"

lemma ended_snoc:
  assumes "ended K job calls results ch vs" "vs (call_id c) = None"
    and "request_of c = request_of (job (call_id c))" "tcp_cases K c ch = (r, ch')"
  shows "ended K job (calls @ [c]) (results @ [r]) ch' (vs(call_id c \<mapsto> Answered r))"
proof -
  have run: "tcp_run K calls \<lparr>sent = [], arrived = []\<rparr> = (results, ch)" using assms(1) by (simp add: ended_def)
  then have len: "length results = length calls" using tcp_run_length [of K calls] by (metis fst_conv)
  have vs: "vs = map_of (zip (map call_id calls) (map Answered results))" using assms(1) by (simp add: ended_def)
  have fresh: "map_of (zip (map call_id calls) (map Answered results)) (call_id c) = None"
    using assms(2) by (simp only: vs)
  then have new: "call_id c \<notin> set (map call_id calls)"
    using len by (simp add: map_of_zip_is_None)
  have "vs(call_id c \<mapsto> Answered r)
      = map_of (zip (map call_id (calls @ [c])) (map Answered (results @ [r])))"
    using len single_map_add [of vs "call_id c" "Answered r"] assms(2) by (simp add: vs)
  with assms new show ?thesis
    by (auto simp: ended_def intro!: tcp_run_snoc [OF run])
qed

definition serial :: "frame_codec \<Rightarrow> (uuid \<Rightarrow> tcp_call) \<Rightarrow> tcp_tasks \<Rightarrow> bool" where
  "serial K job s \<longleftrightarrow>
     (\<forall>t p. guard s = Some (t, p) \<longrightarrow> verdicts s t = None)
     \<and> (\<exists>calls results ch extra. ended K job calls results ch (verdicts s)
          \<and> arrived (lane s) = arrived ch @ extra
          \<and> (case guard s of
               Some (t, Waiting) \<Rightarrow> \<exists>payload. prepared K (job t) = Inr payload \<and> sent (lane s) = sent ch @ [payload]
             | _ \<Rightarrow> sent (lane s) = sent ch))"

lemma serialI:
  assumes "\<And>t p. guard s = Some (t, p) \<Longrightarrow> verdicts s t = None" "ended K job calls results ch (verdicts s)"
    and "arrived (lane s) = arrived ch @ extra"
    and "case guard s of
           Some (t, Waiting) \<Rightarrow> \<exists>payload. prepared K (job t) = Inr payload \<and> sent (lane s) = sent ch @ [payload]
         | _ \<Rightarrow> sent (lane s) = sent ch"
  shows "serial K job s"
  using assms unfolding serial_def by blast

lemma serial_finish:
  assumes "ended K job calls results ch (verdicts s)" "guard s = Some (t, p)" "verdicts s t = None"
    and "well_named job" "tcp_cases K ((job t)\<lparr>call_send := o', call_arrivals := fs, call_closed := b\<rparr>) ch = (r, ch')"
    and "arrived (lane s') = arrived ch' @ extra" "sent (lane s') = sent ch'" "verdicts s' = verdicts s"
  shows "serial K job (finish t (Answered r) s')"
proof -
  let ?c = "(job t)\<lparr>call_send := o', call_arrivals := fs, call_closed := b\<rparr>"
  have c: "call_id ?c = t" "request_of ?c = request_of (job (call_id ?c))"
    using assms(4) by (simp_all add: well_named_def request_of_def)
  have "ended K job (calls @ [?c]) (results @ [r]) ch' ((verdicts s)(t \<mapsto> Answered r))"
    using ended_snoc [OF assms(1) _ c(2) assms(5)] assms(3) c(1) by simp
  then show ?thesis
    using assms(6-8) by (intro serialI) (auto simp: finish_def)
qed

lemma serial_step:
  assumes "tcp_step K job peer s s'" "serial K job s" "well_named job"
  shows "serial K job s'"
proof -
  obtain calls results ch extra where e: "ended K job calls results ch (verdicts s)"
    and arr: "arrived (lane s) = arrived ch @ extra"
    and snt: "case guard s of
           Some (t, Waiting) \<Rightarrow> \<exists>payload. prepared K (job t) = Inr payload \<and> sent (lane s) = sent ch @ [payload]
         | _ \<Rightarrow> sent (lane s) = sent ch"
    using assms(2) unfolding serial_def by blast
  have free: "verdicts s t = None" if "guard s = Some (t, p)" for t p
    using assms(2) that by (simp add: serial_def)
  note fin = serial_finish [OF e _ free assms(3)]
  let ?call = "\<lambda>t o' fs b. (job t)\<lparr>call_send := o', call_arrivals := fs, call_closed := b\<rparr>"
  have prep: "prepared K (?call t o' fs b) = prepared K (job t)" for t o' fs b
    by (rule prepared_cong) (simp add: request_of_def)
  from assms(1) show ?thesis
  proof cases
    case (lock t)
    then show ?thesis using e arr snt by (intro serialI) auto
  next
    case (refuse t err)
    then have "tcp_cases K (?call t Sent [] False) ch = (Inl err, ch)"
      by (simp add: tcp_cases_prepared prep)
    then show ?thesis unfolding refuse(1) using refuse(2) snt arr by (intro fin) auto
  next
    case (send t payload)
    then show ?thesis using e arr snt free by (intro serialI) (auto simp: hand_over_def)
  next
    case (send_failed t payload)
    then have "tcp_cases K (?call t SendFailed [] False) ch = (Inl OtherIo, ch)"
      by (simp add: tcp_cases_prepared prep)
    then show ?thesis unfolding send_failed(1) using send_failed(2) snt arr by (intro fin) auto
  next
    case (send_late t payload buffered)
    then have "tcp_cases K (?call t (SendTimedOut buffered) [] False) ch
        = (Inl (TimedOut (lit ''mTLS send timed out'')), if buffered then ch\<lparr>sent := sent ch @ [payload]\<rparr> else ch)"
      by (simp add: tcp_cases_prepared prep)
    from fin [OF send_late(2) send_late(2) this, where extra = extra] show ?thesis
      unfolding send_late(1) using send_late(2) snt arr by (cases buffered) (simp_all add: hand_over_def)
  next
    case (frame f rest)
    then show ?thesis using e arr snt free
      by (intro serialI [where extra = "extra @ [f]"]) (auto split: option.splits phase.splits)
  next
    case (receive t f fs)
    obtain payload where p: "prepared K (job t) = Inr payload" "sent (lane s) = sent ch @ [payload]"
      using snt receive(2) by auto
    have "tcp_cases K (?call t Sent extra False) ch
        = (taken_by K (job t) f, ch\<lparr>sent := sent ch @ [payload], arrived := fs\<rparr>)"
      using receive(3) arr p(1) assms(3)
      by (cases f) (simp_all add: tcp_cases_prepared prep next_frame_def taken_by_def well_named_def)
    then show ?thesis unfolding receive(1) using receive(2) p(2) by (intro fin) auto
  next
    case (starve t closed)
    obtain payload where p: "prepared K (job t) = Inr payload" "sent (lane s) = sent ch @ [payload]"
      using snt starve(2) by auto
    have "tcp_cases K (?call t Sent [] closed) ch
        = (Inl (if closed then InvalidData (lit ''mTLS API closed connection'')
                else TimedOut (lit ''mTLS receive timed out'')), ch\<lparr>sent := sent ch @ [payload]\<rparr>)"
      using starve(3) arr p(1) by (simp add: tcp_cases_prepared prep next_frame_def)
    from fin [OF starve(2) starve(2) this, where extra = extra] show ?thesis
      unfolding starve(1) using p(2) arr starve(3) by simp
  qed
qed

text \<open>
  C21. The mutex makes the concurrent calls sequential: however the steps of the handlers and of the
  peer interleave, as long as no handler is dropped, the handlers that are done ended exactly as if
  their calls had been made one after the other in some order, each by \<open>tcp_cases\<close> on the state the
  one before it left, and if no handler holds the lock, the frames sent are those of that sequence.
\<close>

theorem tcp_tasks_serialize:
  assumes "(tcp_step K job peer)\<^sup>*\<^sup>* no_tasks s" "well_named job"
  shows "\<exists>calls results ch. distinct (map call_id calls)
    \<and> list_all (\<lambda>c. request_of c = request_of (job (call_id c))) calls
    \<and> tcp_run K calls \<lparr>sent = [], arrived = []\<rparr> = (results, ch)
    \<and> verdicts s = map_of (zip (map call_id calls) (map Answered results))
    \<and> (guard s = None \<longrightarrow> sent (lane s) = sent ch \<and> (\<exists>extra. arrived (lane s) = arrived ch @ extra))"
proof -
  have "serial K job s"
    using assms(1)
  proof (induction rule: rtranclp_induct)
    case base
    show ?case
      by (rule serialI [where calls = "[]" and results = "[]" and ch = "\<lparr>sent = [], arrived = []\<rparr>" and extra = "[]"])
         (simp_all add: no_tasks_def ended_def)
  next
    case (step s s')
    from serial_step [OF step.hyps(2) step.IH assms(2)] show ?case .
  qed
  then show ?thesis unfolding serial_def ended_def by (auto split: option.splits)
qed

subsection \<open>A dropped handler puts the channel out of step\<close>

text \<open>A peer that answers every request it gets, in order, with an answer to that request.\<close>

definition answer_to :: "frame_codec \<Rightarrow> uuid \<Rightarrow> unit + bytes \<Rightarrow> bool" where
  "answer_to K i f \<longleftrightarrow> (\<exists>bytes. f = Inr bytes \<and> answers K i bytes)"

definition fifo_peer :: "frame_codec \<Rightarrow> peer" where
  "fifo_peer K pending f rest \<longleftrightarrow> (\<exists>i. pending = i # rest \<and> answer_to K i f)"

definition any_step :: "frame_codec \<Rightarrow> (uuid \<Rightarrow> tcp_call) \<Rightarrow> tcp_tasks \<Rightarrow> tcp_tasks \<Rightarrow> bool" where
  "any_step K job s s' \<longleftrightarrow> tcp_step K job (fifo_peer K) s s' \<or> drop_step K job s s'"

text \<open>
  \<open>owed K s old\<close>: the answers on their way, those that arrived and those the peer still owes, are first
  those to the requests \<open>old\<close>, whose handlers are gone, and then the one the holder waits for.
\<close>

definition owed :: "frame_codec \<Rightarrow> tcp_tasks \<Rightarrow> uuid list \<Rightarrow> bool" where
  "owed K s old \<longleftrightarrow>
     (\<exists>ids. list_all2 (answer_to K) ids (arrived (lane s))
        \<and> ids @ asked s = old @ (case guard s of Some (t, Waiting) \<Rightarrow> [t] | _ \<Rightarrow> []))
     \<and> (\<forall>i \<in> set old. verdicts s i \<noteq> None)
     \<and> (\<forall>t p. guard s = Some (t, p) \<longrightarrow> verdicts s t = None)"

lemma owedI:
  assumes "list_all2 (answer_to K) ids (arrived (lane s))"
    and "ids @ asked s = old @ (case guard s of Some (t, Waiting) \<Rightarrow> [t] | _ \<Rightarrow> [])"
    and "\<And>i. i \<in> set old \<Longrightarrow> verdicts s i \<noteq> None"
    and "\<And>t p. guard s = Some (t, p) \<Longrightarrow> verdicts s t = None"
  shows "owed K s old"
  using assms unfolding owed_def by blast

lemma taken_by_other:
  assumes "answer_to K i f" "call_id call \<noteq> i"
  shows "taken_by K call f = Inl (InvalidData (lit ''mTLS cases response rejected''))"
  using assms by (auto simp: answer_to_def answers_def taken_by_def judge_frame_def)

text \<open>A step by which the wait of the holder ends and no frame is taken.\<close>

definition gives_up :: "tcp_tasks \<Rightarrow> tcp_tasks \<Rightarrow> bool" where
  "gives_up s s' \<longleftrightarrow>
     (\<exists>t. guard s = Some (t, Waiting)) \<and> guard s' = None \<and> arrived (lane s') = arrived (lane s)"

lemma owed_tcp_step:
  assumes "tcp_step K job (fifo_peer K) s s'" "owed K s old" "well_named job"
  shows "\<exists>old'. owed K s' old' \<and> (old \<noteq> [] \<or> gives_up s s' \<longrightarrow> old' \<noteq> []
    \<and> (\<forall>u v. verdicts s' u = Some (Answered (Inr v)) \<longrightarrow> verdicts s u = Some (Answered (Inr v))))"
proof -
  obtain ids where ids: "list_all2 (answer_to K) ids (arrived (lane s))"
    and q: "ids @ asked s = old @ (case guard s of Some (t, Waiting) \<Rightarrow> [t] | _ \<Rightarrow> [])"
    and done_: "\<And>i. i \<in> set old \<Longrightarrow> verdicts s i \<noteq> None"
    and free: "\<And>t p. guard s = Some (t, p) \<Longrightarrow> verdicts s t = None"
    using assms(2) unfolding owed_def by blast
  from assms(1) show ?thesis
  proof cases
    case (lock t)
    then have "owed K s' old" using ids q done_ by (intro owedI [where ids = ids]) auto
    with lock show ?thesis by (intro exI [of _ old]) (simp add: gives_up_def)
  next
    case (refuse t e)
    then have "owed K s' old" using ids q done_ by (intro owedI [where ids = ids]) (auto simp: finish_def)
    with refuse show ?thesis by (intro exI [of _ old]) (simp add: finish_def gives_up_def)
  next
    case (send t payload)
    then have "owed K s' old" using ids q done_ free
      by (intro owedI [where ids = ids]) (auto simp: hand_over_def simp flip: append_assoc)
    with send show ?thesis by (intro exI [of _ old]) (simp add: hand_over_def gives_up_def)
  next
    case (send_failed t payload)
    then have "owed K s' old" using ids q done_ by (intro owedI [where ids = ids]) (auto simp: finish_def)
    with send_failed show ?thesis by (intro exI [of _ old]) (simp add: finish_def gives_up_def)
  next
    case (send_late t payload buffered)
    then have "owed K s' (if buffered then old @ [t] else old)" using ids q done_
      by (intro owedI [where ids = ids]) (cases buffered; auto simp: finish_def hand_over_def simp flip: append_assoc)+
    with send_late show ?thesis by (intro exI [of _ "if buffered then old @ [t] else old"]) (simp add: finish_def hand_over_def gives_up_def)
  next
    case (frame f rest)
    then obtain i where i: "asked s = i # rest" "answer_to K i f" by (auto simp: fifo_peer_def)
    then have "owed K s' old" using frame(1) ids q done_ free
      by (intro owedI [where ids = "ids @ [i]"]) (auto simp: list_all2_appendI)
    with frame show ?thesis by (intro exI [of _ old]) (simp add: gives_up_def)
  next
    case (receive t f fs)
    then obtain i ids' where i: "ids = i # ids'" "answer_to K i f" "list_all2 (answer_to K) ids' fs"
      using ids by (auto simp: list_all2_Cons2)
    show ?thesis
    proof (cases old)
      case Nil
      then have "owed K s' []" using receive q i by (intro owedI [where ids = ids']) (auto simp: finish_def)
      moreover have "\<not> gives_up s s'" using receive by (simp add: gives_up_def finish_def)
      ultimately show ?thesis using Nil by blast
    next
      case (Cons j old')
      then have j: "j = i" "ids' @ asked s = old' @ [t]" using q i(1) receive(2) by simp_all
      have "t \<noteq> i" using done_ [of j] free [OF receive(2)] Cons j(1) by auto
      then have no: "taken_by K (job t) f = Inl (InvalidData (lit ''mTLS cases response rejected''))"
        using taken_by_other [OF i(2)] assms(3) by (simp add: well_named_def)
      have "owed K s' (old' @ [t])" using receive(1) i(3) j(2) done_ Cons
        by (intro owedI [where ids = ids']) (auto simp: finish_def)
      then show ?thesis using receive(1) no by (intro exI [of _ "old' @ [t]"]) (simp add: finish_def gives_up_def)
    qed
  next
    case (starve t closed)
    then have "owed K s' (old @ [t])" using ids q done_ by (intro owedI [where ids = ids]) (auto simp: finish_def)
    with starve show ?thesis by (intro exI [of _ "old @ [t]"]) (simp add: finish_def gives_up_def)
  qed
qed

lemma owed_drop_step:
  assumes "drop_step K job s s'" "owed K s old"
  shows "\<exists>old'. owed K s' old' \<and> (old \<noteq> [] \<or> gives_up s s' \<longrightarrow> old' \<noteq> []
    \<and> (\<forall>u v. verdicts s' u = Some (Answered (Inr v)) \<longrightarrow> verdicts s u = Some (Answered (Inr v))))"
proof -
  obtain ids where ids: "list_all2 (answer_to K) ids (arrived (lane s))"
    and q: "ids @ asked s = old @ (case guard s of Some (t, Waiting) \<Rightarrow> [t] | _ \<Rightarrow> [])"
    and done_: "\<And>i. i \<in> set old \<Longrightarrow> verdicts s i \<noteq> None"
    and free: "\<And>t p. guard s = Some (t, p) \<Longrightarrow> verdicts s t = None"
    using assms(2) unfolding owed_def by blast
  from assms(1) show ?thesis
  proof cases
    case (drop_queued t)
    then have "owed K s' old" using ids q done_ free by (intro owedI [where ids = ids]) auto
    with drop_queued show ?thesis by (intro exI [of _ old]) (auto simp: gives_up_def)
  next
    case (drop_locked t)
    then have "owed K s' old" using ids q done_ by (intro owedI [where ids = ids]) (auto simp: finish_def)
    with drop_locked show ?thesis by (intro exI [of _ old]) (auto simp: finish_def gives_up_def)
  next
    case (drop_sending t payload)
    then have "owed K s' (old @ [t])" using ids q done_
      by (intro owedI [where ids = ids]) (auto simp: finish_def hand_over_def simp flip: append_assoc)
    with drop_sending show ?thesis by (intro exI [of _ "old @ [t]"]) (auto simp: finish_def hand_over_def gives_up_def)
  next
    case (drop_waiting t)
    then have "owed K s' (old @ [t])" using ids q done_ by (intro owedI [where ids = ids]) (auto simp: finish_def)
    with drop_waiting show ?thesis by (intro exI [of _ "old @ [t]"]) (auto simp: finish_def gives_up_def)
  qed
qed

lemma owed_any_step:
  assumes "any_step K job s s'" "owed K s old" "well_named job"
  shows "\<exists>old'. owed K s' old' \<and> (old \<noteq> [] \<or> gives_up s s' \<longrightarrow> old' \<noteq> []
    \<and> (\<forall>u v. verdicts s' u = Some (Answered (Inr v)) \<longrightarrow> verdicts s u = Some (Answered (Inr v))))"
  using assms owed_tcp_step [of K job s s' old] owed_drop_step [of K job s s' old]
  by (auto simp: any_step_def)

lemma owed_reachable:
  assumes "(any_step K job)\<^sup>*\<^sup>* no_tasks s" "well_named job"
  shows "\<exists>old. owed K s old"
  using assms(1)
proof (induction rule: rtranclp_induct)
  case base
  have "owed K no_tasks []" by (rule owedI [where ids = "[]"]) (simp_all add: no_tasks_def)
  then show ?case ..
next
  case (step s s')
  from step.IH owed_any_step [OF step.hyps(2) _ assms(2)] show ?case by blast
qed

lemma behind_stays:
  assumes "(any_step K job)\<^sup>*\<^sup>* s s'" "owed K s old" "old \<noteq> []" "well_named job"
  shows "(\<exists>old'. owed K s' old' \<and> old' \<noteq> [])
    \<and> (\<forall>u v. verdicts s' u = Some (Answered (Inr v)) \<longrightarrow> verdicts s u = Some (Answered (Inr v)))"
  using assms(1)
proof (induction rule: rtranclp_induct)
  case base
  then show ?case using assms(2,3) by blast
next
  case (step s1 s2)
  then obtain old1 where "owed K s1 old1" "old1 \<noteq> []" by blast
  from owed_any_step [OF step.hyps(2) this(1) assms(4)] this(2) step.IH show ?case by blast
qed

text \<open>
  C22. One wait that ends without its frame ends the service of the channel for everyone: when the
  client of a waiting handler goes away and its future is dropped, or the wait times out, then from
  there on, whatever the handlers, their clients and the network do, and although the peer answers
  every request in order and correctly, no call that has not ended yet ever gets a payload, since
  the answer nobody waits for stays in the stream in front of all others.
\<close>

theorem abandoned_wait_poisons_channel:
  assumes "(any_step K job)\<^sup>*\<^sup>* no_tasks s" "any_step K job s s1" "gives_up s s1"
    and "(any_step K job)\<^sup>*\<^sup>* s1 s2" "verdicts s u = None" "well_named job"
  shows "verdicts s2 u \<noteq> Some (Answered (Inr v))"
proof -
  obtain old where "owed K s old" using owed_reachable [OF assms(1,6)] by blast
  from owed_any_step [OF assms(2) this assms(6)] assms(3,5) obtain old1
    where old1: "owed K s1 old1" "old1 \<noteq> []" "\<forall>v. verdicts s1 u \<noteq> Some (Answered (Inr v))"
    by fastforce
  from behind_stays [OF assms(4) old1(1,2) assms(6)] old1(3) show ?thesis by blast
qed

definition sample_job :: "uuid \<Rightarrow> tcp_call" where
  "sample_job t = (sample_tcp_call 0)\<lparr>call_id := t\<rparr>"

lemma sample_job_prepared: "prepared sample_codec (sample_job t) = Inr ''q''"
  by (simp add: prepared_def sample_job_def sample_tcp_call_def sample_codec_def request_of_def
      MAX_REQUEST_BYTES_def tcp_validate_token_def str_len_ascii lit_Cons char_class_defs)

lemma sample_job_named: "well_named sample_job"
  by (simp add: well_named_def sample_job_def)

text \<open>Handler 1 sends and is dropped, handler 2 sends, and the answer to 1 comes in and is taken by 2.\<close>

definition sample_waiting :: "uuid \<Rightarrow> tcp_tasks \<Rightarrow> tcp_tasks" where
  "sample_waiting t s = (hand_over t ''q'' s)\<lparr>guard := Some (t, Waiting)\<rparr>"

definition sample_arrival :: "bytes \<Rightarrow> uuid list \<Rightarrow> tcp_tasks \<Rightarrow> tcp_tasks" where
  "sample_arrival bytes rest s =
     s\<lparr>lane := (lane s)\<lparr>arrived := arrived (lane s) @ [Inr bytes]\<rparr>, asked := rest\<rparr>"

definition sample_taken :: "uuid \<Rightarrow> bytes \<Rightarrow> tcp_tasks \<Rightarrow> tcp_tasks" where
  "sample_taken t bytes s =
     finish t (Answered (taken_by sample_codec (sample_job t) (Inr bytes))) (s\<lparr>lane := (lane s)\<lparr>arrived := []\<rparr>\<rparr>)"

lemma sample_sends:
  assumes "guard s = None" "verdicts s t = None"
  shows "(tcp_step sample_codec sample_job peer)\<^sup>*\<^sup>* s (sample_waiting t s)"
proof -
  have "tcp_step sample_codec sample_job peer s (s\<lparr>guard := Some (t, Locked)\<rparr>)"
    using assms by (rule tcp_step.lock)
  moreover have "tcp_step sample_codec sample_job peer (s\<lparr>guard := Some (t, Locked)\<rparr>) (sample_waiting t s)"
    using tcp_step.send [of "s\<lparr>guard := Some (t, Locked)\<rparr>" t sample_codec sample_job "''q''" peer]
    by (simp add: sample_job_prepared sample_waiting_def hand_over_def)
  ultimately show ?thesis by (meson converse_rtranclp_into_rtranclp r_into_rtranclp)
qed

lemma sample_takes:
  assumes "peer (asked s) (Inr bytes) rest" "guard s = Some (t, Waiting)" "arrived (lane s) = []"
  shows "(tcp_step sample_codec sample_job peer)\<^sup>*\<^sup>* s (sample_taken t bytes (sample_arrival bytes rest s))"
proof -
  have "tcp_step sample_codec sample_job peer s (sample_arrival bytes rest s)"
    using tcp_step.frame [of peer s "Inr bytes" rest] assms(1) by (simp add: sample_arrival_def)
  moreover have "tcp_step sample_codec sample_job peer (sample_arrival bytes rest s)
      (sample_taken t bytes (sample_arrival bytes rest s))"
    unfolding sample_taken_def using assms(2,3) by (intro tcp_step.receive) (simp_all add: sample_arrival_def)
  ultimately show ?thesis by (meson converse_rtranclp_into_rtranclp r_into_rtranclp)
qed

lemma tcp_steps_any: "(tcp_step K job (fifo_peer K))\<^sup>*\<^sup>* s s' \<Longrightarrow> (any_step K job)\<^sup>*\<^sup>* s s'"
  by (erule rtranclp_mono [THEN predicate2D, rotated]) (auto simp: any_step_def)

abbreviation sample_dropped :: tcp_tasks where
  "sample_dropped \<equiv> finish 1 Dropped (sample_waiting 1 no_tasks)"

abbreviation sample_poisoned :: tcp_tasks where
  "sample_poisoned \<equiv> sample_taken 2 ''a'' (sample_arrival ''a'' [2] (sample_waiting 2 sample_dropped))"

lemmas sample_defs = sample_waiting_def sample_arrival_def sample_taken_def finish_def hand_over_def no_tasks_def

theorem abandoned_wait_poisons_channel_witness:
  "verdicts sample_poisoned 2 = Some (Answered (Inl (InvalidData (lit ''mTLS cases response rejected''))))
   \<and> verdicts sample_poisoned 2 \<noteq> Some (Answered (Inr Null))"
proof
  show "verdicts sample_poisoned 2 = Some (Answered (Inl (InvalidData (lit ''mTLS cases response rejected''))))"
    by (simp add: sample_defs taken_by_def judge_frame_def sample_codec_def sample_job_def)
  let ?peer = "fifo_peer sample_codec"
  have "answer_to sample_codec 1 (Inr ''a'')" by (simp add: answer_to_def answers_def sample_codec_def)
  then have peer: "?peer [1, 2] (Inr ''a'') [2]" by (simp add: fifo_peer_def)
  have a: "(any_step sample_codec sample_job)\<^sup>*\<^sup>* no_tasks (sample_waiting 1 no_tasks)"
    by (rule tcp_steps_any, rule sample_sends) (simp_all add: no_tasks_def)
  have b: "drop_step sample_codec sample_job (sample_waiting 1 no_tasks) sample_dropped"
    by (rule drop_step.drop_waiting) (simp add: sample_defs)
  have "(any_step sample_codec sample_job)\<^sup>*\<^sup>* sample_dropped (sample_waiting 2 sample_dropped)"
    by (rule tcp_steps_any, rule sample_sends) (simp_all add: sample_defs)
  moreover have "(any_step sample_codec sample_job)\<^sup>*\<^sup>* (sample_waiting 2 sample_dropped) sample_poisoned"
    by (rule tcp_steps_any, rule sample_takes) (use peer in \<open>simp_all add: sample_defs\<close>)
  ultimately have c: "(any_step sample_codec sample_job)\<^sup>*\<^sup>* sample_dropped sample_poisoned" by simp
  show "verdicts sample_poisoned 2 \<noteq> Some (Answered (Inr Null))"
    by (rule abandoned_wait_poisons_channel [OF a _ _ c _ sample_job_named])
       (use b in \<open>simp_all add: any_step_def gives_up_def sample_defs\<close>)
qed

theorem tcp_tasks_serialize_witness:
  "\<exists>calls results ch. distinct (map call_id calls)
    \<and> tcp_run sample_codec calls \<lparr>sent = [], arrived = []\<rparr> = (results, ch)
    \<and> [1 \<mapsto> Answered (Inr Null)] = map_of (zip (map call_id calls) (map Answered results))"
proof -
  let ?peer = "fifo_peer sample_codec"
  let ?s = "sample_taken 1 ''a'' (sample_arrival ''a'' [] (sample_waiting 1 no_tasks))"
  have "(tcp_step sample_codec sample_job ?peer)\<^sup>*\<^sup>* no_tasks (sample_waiting 1 no_tasks)"
    by (rule sample_sends) (simp_all add: no_tasks_def)
  moreover have "?peer [1] (Inr ''a'') []"
    by (simp add: fifo_peer_def answer_to_def answers_def sample_codec_def)
  then have "(tcp_step sample_codec sample_job ?peer)\<^sup>*\<^sup>* (sample_waiting 1 no_tasks) ?s"
    by (intro sample_takes) (simp_all add: sample_defs)
  ultimately have run: "(tcp_step sample_codec sample_job ?peer)\<^sup>*\<^sup>* no_tasks ?s" by simp
  have v: "verdicts ?s = [1 \<mapsto> Answered (Inr Null)]"
    by (simp add: sample_defs taken_by_def judge_frame_def sample_codec_def sample_job_def fun_eq_iff)
  from tcp_tasks_serialize [OF run sample_job_named] show ?thesis unfolding v by blast
qed

end
