(* ===== verification/Fn_Client.thy ===== *)
theory Fn_Client
  imports Fn_Handler
begin

text \<open>
  The HTTP client of the integration test of the Oracle Functions binaries (\<open>invoke\<close> and
  \<open>parse_response\<close> of \<^verbatim>\<open>src/lambdas/tests/oracle_fn_process.rs\<close>): the bytes it sends for a request
  and how it reads a response. A panic of the test is \<open>None\<close>.
\<close>

subsection \<open>Reading a response\<close>

record ParsedResponse =
  outer_status :: nat
  seen_headers :: "(rstr, rstr) btree"
  seen_body :: json

text \<open>\<open>bytes.windows(4).position(|window| window == b"\r\n\r\n")\<close>.\<close>

fun head_end :: "bytes \<Rightarrow> nat option" where
  "head_end [] = None"
| "head_end (c # bs) = (if take 4 (c # bs) = CRLF @ CRLF then Some 0 else map_option Suc (head_end bs))"

text \<open>\<open>head.split("\r\n")\<close>.\<close>

fun split_crlf :: "rstr \<Rightarrow> rstr list" where
  "split_crlf [] = [[]]"
| "split_crlf (c # s) =
     (if c = 13 \<and> s \<noteq> [] \<and> hd s = 10 then [] # split_crlf (tl s)
      else (case split_crlf s of w # ws \<Rightarrow> (c # w) # ws | [] \<Rightarrow> [[c]]))"

fun response_lines :: "rstr list \<Rightarrow> (rstr, rstr) btree \<Rightarrow> (rstr, rstr) btree option" where
  "response_lines [] hs = Some hs"
| "response_lines (line # lines) hs =
     Option.bind (split_once 58 line) (\<lambda>(name, value).
       response_lines lines (bt_insert (to_ascii_lowercase (trim name)) (trim value) hs))"

definition parse_response :: "serde \<Rightarrow> bytes \<Rightarrow> ParsedResponse option" where
  "parse_response S bytes =
     Option.bind (head_end bytes) (\<lambda>split.
     Option.bind (utf8_decode (take split bytes)) (\<lambda>head.
       (let body_bytes = drop (split + 4) bytes; lines = split_crlf head; words = split_whitespace (hd lines)
        in Option.bind (if 1 < length words then parse_u16 (words ! 1) else None) (\<lambda>outer_status.
           Option.bind (response_lines (tl lines) []) (\<lambda>hs.
           Option.bind (Option.bind (bt_get hs (lit ''content-length'')) parse_usize) (\<lambda>declared.
             if declared \<noteq> length body_bytes then None
             else Option.bind (from_slice S body_bytes) (\<lambda>body.
               Some \<lparr>outer_status = outer_status, seen_headers = hs, seen_body = body\<rparr>)))))))"

subsection \<open>Sending a request\<close>

definition invoke_bytes :: "(rstr \<times> rstr) list \<Rightarrow> bytes \<Rightarrow> bytes option" where
  "invoke_bytes hs body =
     (if list_ex (\<lambda>(name, value). list_ex (\<lambda>c. c = 13 \<or> c = 10) name \<or> list_ex (\<lambda>c. c = 13 \<or> c = 10) value) hs
      then None
      else Some (utf8_encode (lit ''POST /call HTTP/1.1'' @ [13, 10] @ lit ''Host: localhost'' @ [13, 10])
        @ concat (map (\<lambda>(name, value). utf8_encode (name @ lit '': '' @ value @ [13, 10])) hs)
        @ utf8_encode (lit ''Content-Length: '' @ show_dec (length body) @ [13, 10]
            @ lit ''Connection: close'' @ [13, 10, 13, 10])
        @ body))"

subsection \<open>Responses of the server are read back\<close>

definition plain_line :: "rstr \<Rightarrow> bool" where
  "plain_line l \<longleftrightarrow> valid_text l \<and> l \<noteq> [] \<and> 10 \<notin> set l \<and> 13 \<notin> set l"

fun join_lines :: "rstr list \<Rightarrow> rstr" where
  "join_lines [] = []"
| "join_lines [l] = l"
| "join_lines (l # ls) = l @ [13, 10] @ join_lines ls"

lemma ascii_in_utf8_char:
  assumes "valid_scalar c" "b < 0x80"
  shows "char_of b \<in> set (utf8_char c) \<longleftrightarrow> c = b"
proof (cases "c < 0x80")
  case True
  have "c = b" if "char_of b = (char_of c :: char)"
  proof -
    have "(of_char (char_of b :: char) :: nat) = of_char (char_of c :: char)" using that by simp
    with True assms(2) show ?thesis by simp
  qed
  with True show ?thesis by (auto simp: utf8_char_ascii)
next
  case False
  have "(of_char (char_of b :: char) :: nat) = b" using assms(2) by simp
  then show ?thesis using utf8_char_high [OF assms(1), of "char_of b"] False assms(2) by force
qed

lemma ascii_in_utf8_encode:
  "valid_text s \<Longrightarrow> b < 0x80 \<Longrightarrow> char_of b \<in> set (utf8_encode s) \<longleftrightarrow> b \<in> set s"
  by (induction s) (auto simp: ascii_in_utf8_char)

lemma plain_line_bytes:
  assumes "plain_line l"
  shows "CHR 0x0D \<notin> set (utf8_encode l)" "utf8_encode l \<noteq> []"
proof -
  have "char_of (13::nat) = CHR 0x0D" by (simp add: char_of_eq_iff take_bit_eq_mod)
  then show "CHR 0x0D \<notin> set (utf8_encode l)"
    using ascii_in_utf8_encode [of l 13] assms by (simp add: plain_line_def)
  show "utf8_encode l \<noteq> []" using assms str_len_eq_0 [of l] by (simp add: plain_line_def str_len_def)
qed

lemma head_end_skip:
  "CHR 0x0D \<notin> set u \<Longrightarrow> head_end (u @ s) = map_option (\<lambda>n. length u + n) (head_end s)"
proof (induction u)
  case Nil
  then show ?case by (simp add: option.map_ident)
next
  case (Cons c u)
  then have "take 4 (c # u @ s) \<noteq> CRLF @ CRLF" by (auto simp: CRLF_def)
  with Cons show ?case by (cases "head_end s") auto
qed

lemma head_end_line:
  "s \<noteq> [] \<Longrightarrow> hd s \<noteq> CHR 0x0D \<Longrightarrow> head_end (CRLF @ s) = map_option (\<lambda>n. 2 + n) (head_end s)"
  by (cases s; cases "head_end s") (auto simp: CRLF_def)

lemma head_lines_joined:
  "ls \<noteq> [] \<Longrightarrow> concat (map http_line ls) @ CRLF @ body = utf8_encode (join_lines ls) @ CRLF @ CRLF @ body"
  by (induction ls rule: join_lines.induct) (simp_all add: http_line_def utf8_char_small CRLF_def)

lemma hd_joined:
  "\<forall>l \<in> set ls. plain_line l \<Longrightarrow> ls \<noteq> [] \<Longrightarrow>
     utf8_encode (join_lines ls) \<noteq> [] \<and> hd (utf8_encode (join_lines ls)) \<noteq> CHR 0x0D"
  using plain_line_bytes by (cases ls rule: join_lines.cases) (auto, (metis hd_in_set)+)

lemma head_end_joined:
  assumes "\<forall>l \<in> set ls. plain_line l" "ls \<noteq> []"
  shows "head_end (utf8_encode (join_lines ls) @ CRLF @ CRLF @ body) = Some (length (utf8_encode (join_lines ls)))"
  using assms
proof (induction ls rule: join_lines.induct)
  case (2 l)
  have "head_end (CRLF @ CRLF @ body) = Some 0" by (simp add: CRLF_def)
  with 2 show ?case using head_end_skip plain_line_bytes(1) [of l] by simp
next
  case (3 l l' ls)
  let ?s = "utf8_encode (join_lines (l' # ls)) @ CRLF @ CRLF @ body"
  have "head_end (CRLF @ ?s) = map_option (\<lambda>n. 2 + n) (head_end ?s)"
    using hd_joined [of "l' # ls"] "3.prems" by (intro head_end_line) auto
  moreover have "head_end ?s = Some (length (utf8_encode (join_lines (l' # ls))))"
    using 3 by simp
  moreover have "utf8_encode (join_lines (l # l' # ls)) @ CRLF @ CRLF @ body = utf8_encode l @ CRLF @ ?s"
    by (simp add: utf8_char_small CRLF_def)
  moreover have "length (utf8_encode (join_lines (l # l' # ls)))
      = length (utf8_encode l) + (2 + length (utf8_encode (join_lines (l' # ls))))"
    by (simp add: utf8_char_small)
  moreover have "head_end (utf8_encode l @ CRLF @ ?s)
      = map_option (\<lambda>n. length (utf8_encode l) + n) (head_end (CRLF @ ?s))"
    by (rule head_end_skip) (use "3.prems" plain_line_bytes(1) [of l] in simp)
  ultimately show ?case by (simp only: option.map)
qed simp

lemma split_crlf_plain: "13 \<notin> set l \<Longrightarrow> split_crlf l = [l]"
  by (induction l) auto

lemma split_crlf_join1: "13 \<notin> set l \<Longrightarrow> split_crlf (l @ 13 # 10 # s) = l # split_crlf s"
  by (induction l) auto

lemma split_crlf_joined:
  "\<forall>l \<in> set ls. plain_line l \<Longrightarrow> ls \<noteq> [] \<Longrightarrow> split_crlf (join_lines ls) = ls"
  by (induction ls rule: join_lines.induct) (auto simp: plain_line_def split_crlf_plain split_crlf_join1)

lemma valid_joined: "\<forall>l \<in> set ls. plain_line l \<Longrightarrow> valid_text (join_lines ls)"
  by (induction ls rule: join_lines.induct) (auto simp: plain_line_def valid_small)

text \<open>The headers the client keeps of those that were sent: the last one of each name.\<close>

definition kept :: "rstr \<times> rstr \<Rightarrow> rstr \<times> rstr" where
  "kept h = (to_ascii_lowercase (fst h), trim (snd h))"

lemma response_lines_print:
  "list_all valid_header hs \<Longrightarrow>
     response_lines (map header_line hs) acc = Some (fold (\<lambda>(k, v). bt_insert k v) (map kept hs) acc)"
proof (induction hs arbitrary: acc)
  case Nil
  then show ?case by simp
next
  case (Cons h hs)
  have n: "\<And>c. c \<in> set (fst h) \<Longrightarrow> c \<noteq> 58 \<and> \<not> is_whitespace c"
    using Cons.prems header_name_char_class by (auto simp: valid_header_def valid_header_name_def list_all_iff)
  then have "split_once 58 (header_line h) = Some (fst h, 32 # snd h)"
    unfolding header_line_def by (intro split_once_append) auto
  moreover have "trim (fst h) = fst h" using n by (intro trimmed_trim trimmed_no_whitespace) auto
  moreover have "trim (32 # snd h) = trim (snd h)" by (simp add: trim_def trim_start_def is_whitespace_def)
  ultimately show ?case using Cons by (simp add: kept_def)
qed

lemma status_words:
  "split_whitespace (status_line n) ! Suc 0 = show_dec n" "Suc 0 < length (split_whitespace (status_line n))"
proof -
  have w: "word_text (lit ''HTTP/1.1'')" "word_text (show_dec n)"
    by (auto simp: word_text_def lit_Cons char_class_defs dest!: show_dec_digits)
  have "status_line n = lit ''HTTP/1.1'' @ 32 # show_dec n @ 32 # reason_phrase n"
    by (simp add: status_line_def lit_Cons)
  then have "split_whitespace (status_line n) = lit ''HTTP/1.1'' # show_dec n # split_whitespace (reason_phrase n)"
    using split_whitespace_word(1) [OF w(1)] split_whitespace_word(1) [OF w(2)] by simp
  then show "split_whitespace (status_line n) ! Suc 0 = show_dec n" "Suc 0 < length (split_whitespace (status_line n))"
    by simp_all
qed

lemma sent_lines_plain:
  assumes "\<forall>h \<in> set hs. valid_text (snd h)" "l \<in> set (status_line status # map header_line (sent_headers hs body))"
  shows "plain_line l"
proof (cases "l = status_line status")
  case True
  have "13 \<notin> set (show_dec status)" using show_dec_digits [of 13 status] by (auto simp: char_class_defs)
  then have "13 \<notin> set (status_line status)" by (auto simp: status_line_def reason_phrase_def lit_Cons)
  then show ?thesis using True status_line_ok [of status] by (simp add: plain_line_def line_ok_def)
next
  case False
  then obtain h where h: "h \<in> set (sent_headers hs body)" "l = header_line h" using assms(2) by auto
  note ok = sent_headers_ok [OF h(1) assms(1)]
  have "13 \<notin> set (fst h)"
    using ok by (auto simp: valid_header_def valid_header_name_def list_all_iff header_name_char_def char_class_defs)
  then have "13 \<notin> set (header_line h)"
    using ok by (auto simp: header_line_def valid_header_def valid_header_value_def list_ex_iff)
  then show ?thesis using valid_header_line_ok [of h] ok h(2) by (auto simp: plain_line_def line_ok_def)
qed

lemma sent_headers_valid: "list_all valid_header (sent_headers hs body)"
  using last_headers_valid by (auto simp: sent_headers_def list_all_iff)

lemma sent_length: "bt_get (bt_from (map kept (sent_headers hs body))) (lit ''content-length'') = Some (show_dec (length body))"
proof -
  have "to_ascii_lowercase (lit ''content-length'') = lit ''content-length''"
    "to_ascii_lowercase (lit ''connection'') \<noteq> lit ''content-length''"
    by (simp_all add: to_ascii_lowercase_def lit_Cons char_class_defs)
  then show ?thesis by (simp add: bt_get_from sent_headers_def kept_def trimmed_trim)
qed

lemma parse_response_read:
  assumes "status \<le> 65535" "\<forall>h \<in> set hs. valid_text (snd h)" "length body \<le> usize_max"
    and "from_slice S body = Some v"
  shows "parse_response S (message status hs body) =
    Some \<lparr>outer_status = status, seen_headers = bt_from (map kept (sent_headers hs body)), seen_body = v\<rparr>"
proof -
  let ?ls = "status_line status # map header_line (sent_headers hs body)"
  let ?head = "utf8_encode (join_lines ?ls)"
  have plain: "\<forall>l \<in> set ?ls. plain_line l" using sent_lines_plain [OF assms(2)] by blast
  have m: "message status hs body = ?head @ CRLF @ CRLF @ body"
    unfolding message_lines by (rule head_lines_joined) simp
  have e: "head_end (message status hs body) = Some (length ?head)"
    unfolding m by (rule head_end_joined [OF plain]) simp
  have t: "take (length ?head) (message status hs body) = ?head"
    "drop (length ?head + 4) (message status hs body) = body"
    unfolding m by (simp_all add: CRLF_def)
  have d: "utf8_decode ?head = Some (join_lines ?ls)" by (rule utf8_decode_encode [OF valid_joined [OF plain]])
  have l: "split_crlf (join_lines ?ls) = ?ls" by (rule split_crlf_joined [OF plain]) simp
  have h: "response_lines (tl ?ls) [] = Some (bt_from (map kept (sent_headers hs body)))"
    unfolding list.sel bt_from_def by (rule response_lines_print [OF sent_headers_valid])
  have s: "parse_u16 (show_dec status) = Some status" by (rule parse_u16_show [OF assms(1)])
  have p: "parse_usize (show_dec (length body)) = Some (length body)" by (rule parse_usize_show [OF assms(3)])
  show ?thesis
    unfolding parse_response_def Let_def e t bind.bind_lunit d l h
    by (simp add: t d l h [unfolded list.sel] status_words s sent_length p assms(4))
qed

text \<open>
  C18. The client of the integration test reads back exactly what the server sends: from the bytes
  the writer sends for a status, a header map and a body it recovers the status, the body, and
  every header that was sent, by its lower-case name and trimmed, whatever else the map contained.
\<close>

theorem client_reads_response:
  assumes "status \<le> 65535" "\<forall>h \<in> set hs. valid_text (snd h)" "length body \<le> usize_max"
    and "from_slice S body = Some v"
  shows "parse_response S (written (snd (write_http_response status hs body \<lparr>written = [], budget = None\<rparr>))) =
    Some \<lparr>outer_status = status, seen_headers = bt_from (map kept (sent_headers hs body)), seen_body = v\<rparr>"
  using parse_response_read [OF assms] by (simp add: write_http_response_eq write_all_def)

theorem client_reads_response_witness:
  "\<exists>hs. parse_response (null_serde\<lparr>from_slice := \<lambda>_. Some Null\<rparr>)
       (written (snd (write_http_response 502 [(lit ''a b'', lit ''x''), (lit ''x-id'', lit '' 1 '')] ''{}''
          \<lparr>written = [], budget = None\<rparr>)))
     = Some \<lparr>outer_status = 502, seen_headers = hs, seen_body = Null\<rparr>
   \<and> bt_get hs (lit ''x-id'') = Some (lit ''1'') \<and> bt_get hs (lit ''a b'') = None"
proof -
  let ?hs = "[(lit ''a b'', lit ''x''), (lit ''x-id'', lit '' 1 '')]"
  let ?seen = "bt_from (map kept (sent_headers ?hs ''{}''))"
  have "\<forall>h \<in> set ?hs. valid_text (snd h)" by (simp add: lit_Cons valid_small)
  then have p: "parse_response (null_serde\<lparr>from_slice := \<lambda>_. Some Null\<rparr>)
        (written (snd (write_http_response 502 ?hs ''{}'' \<lparr>written = [], budget = None\<rparr>)))
      = Some \<lparr>outer_status = 502, seen_headers = ?seen, seen_body = Null\<rparr>"
    by (intro client_reads_response) (simp_all add: usize_max_def)
  have "filter valid_header ?hs = [(lit ''x-id'', lit '' 1 '')]"
    by (simp add: valid_header_def valid_header_name_def valid_header_value_def lit_Cons
        header_name_char_def char_class_defs)
  moreover have "trim (lit '' 1 '') = lit ''1''"
    by (simp add: trim_def trim_start_def trim_end_def lit_Cons is_whitespace_def)
  moreover have "to_ascii_lowercase (lit ''x-id'') = lit ''x-id''"
    "to_ascii_lowercase (lit ''content-length'') = lit ''content-length''"
    "to_ascii_lowercase (lit ''connection'') = lit ''connection''"
    by (simp_all add: to_ascii_lowercase_def lit_Cons char_class_defs)
  ultimately have "bt_get ?seen (lit ''x-id'') = Some (lit ''1'')" "bt_get ?seen (lit ''a b'') = None"
    by (simp_all add: bt_get_from sent_headers_def kept_def)
  with p show ?thesis by blast
qed

end
