(* ===== verification/Process_Test.thy ===== *)
theory Process_Test
  imports Fn_Client Binaries
begin

text \<open>
  The integration test of the Oracle Functions binaries
  (\<^verbatim>\<open>src/lambdas/tests/oracle_fn_process.rs\<close>): it starts a binary on a listener in a directory of its
  own, makes a direct call, a structured CloudEvent call and a binary CloudEvent call, and asserts
  on the responses. The binary is run on the three connections the client makes one after the other.
  A failed assertion or a panic is \<open>None\<close>. What is left of the state is what the test leaves behind.
\<close>

subsection \<open>The test\<close>

definition unique_temp_dir :: "rstr \<Rightarrow> rstr \<Rightarrow> nat \<Rightarrow> nat \<Rightarrow> rstr" where
  "unique_temp_dir temp_dir name pid nonce =
     temp_dir @ lit ''/scintilla-oracle-fn-'' @ name @ lit ''-'' @ show_dec pid @ lit ''-'' @ show_dec nonce"

definition request_url :: "rstr \<Rightarrow> rstr" where
  "request_url path = lit ''https://functions.example'' @ path"

definition direct_call_headers :: "rstr \<Rightarrow> (rstr \<times> rstr) list" where
  "direct_call_headers path =
     [(lit ''Fn-Intent'', lit ''httprequest''), (lit ''Fn-Call-Id'', lit ''direct-call-1''),
      (lit ''Fn-Http-Method'', lit ''POST''), (lit ''Fn-Http-Request-Url'', request_url path),
      (lit ''Content-Type'', lit ''application/json'')]"

definition structured_call_headers :: "rstr \<Rightarrow> (rstr \<times> rstr) list" where
  "structured_call_headers path =
     [(lit ''Fn-Intent'', lit ''httprequest''), (lit ''Fn-Call-Id'', lit ''structured-call-1''),
      (lit ''Fn-Http-Method'', lit ''POST''), (lit ''Fn-Http-Request-Url'', request_url path),
      (lit ''Content-Type'', lit ''application/cloudevents+json'')]"

definition binary_call_headers :: "rstr \<Rightarrow> (rstr \<times> rstr) list" where
  "binary_call_headers path =
     [(lit ''Fn-Intent'', lit ''httprequest''),
      (lit ''Fn-Http-Method'', lit ''POST''), (lit ''Fn-Http-Request-Url'', request_url path),
      (lit ''Content-Type'', lit ''application/json''),
      (lit ''Fn-Http-H-Ce-Specversion'', lit ''1.0''), (lit ''Fn-Http-H-Ce-Id'', lit ''binary-event-1''),
      (lit ''Fn-Http-H-Ce-Source'', lit ''urn:scintilla:test''),
      (lit ''Fn-Http-H-Ce-Type'', lit ''scintilla.route.requested'')]"

definition event_envelope :: "json \<Rightarrow> json" where
  "event_envelope payload = json_obj
     [(lit ''specversion'', String (lit ''1.0'')), (lit ''id'', String (lit ''structured-event-1'')),
      (lit ''source'', String (lit ''urn:scintilla:test'')),
      (lit ''type'', String (lit ''scintilla.route.requested'')), (lit ''data'', payload)]"

text \<open>\<open>fs::metadata\<close> follows a link; the adapter makes its link relative to the directory.\<close>

definition wait_for_socket :: "path \<Rightarrow> file_system \<Rightarrow> bool" where
  "wait_for_socket socket fs =
     (case nodes fs socket of
        Some (Socket _) \<Rightarrow> True
      | Some (Symlink target) \<Rightarrow>
          (case nodes fs (butlast socket @ path_components target) of Some (Socket _) \<Rightarrow> True | _ \<Rightarrow> False)
      | _ \<Rightarrow> False)"

definition client_connection :: "bytes \<Rightarrow> connection" where
  "client_connection input =
     \<lparr>clone_error = None, inbound = \<lparr>pending = input, broken = False\<rparr>, outbound = open_sink\<rparr>"

definition assert_accepted :: "ParsedResponse \<Rightarrow> rstr \<Rightarrow> rstr \<Rightarrow> bool" where
  "assert_accepted response name rid \<longleftrightarrow>
     outer_status response = 200
     \<and> bt_get (seen_headers response) (lit ''fn-http-status'') = Some (lit ''202'')
     \<and> bt_get (seen_headers response) (lit ''x-request-id'') = Some rid
     \<and> value_get (lit ''accepted'') (seen_body response) = Some (Bool True)
     \<and> value_get (lit ''handler'') (seen_body response) = Some (String name)
     \<and> value_get (lit ''request_id'') (seen_body response) = Some (String rid)"

definition reads_accepted :: "serde \<Rightarrow> rstr \<Rightarrow> sink \<Rightarrow> rstr \<Rightarrow> bool" where
  "reads_accepted S name out rid =
     (case parse_response S (written out) of None \<Rightarrow> False | Some r \<Rightarrow> assert_accepted r name rid)"

definition drop_guard :: "os_faults \<Rightarrow> path \<Rightarrow> file_system \<Rightarrow> file_system" where
  "drop_guard F root fs =
     snd (unlink F (root @ [lit ''phonylistener.sock'']) (snd (unlink F (root @ [lit ''listener.sock'']) fs)))"

type_synonym fn_binary =
  "env_var \<Rightarrow> env_var \<Rightarrow> accepted list \<Rightarrow> server_state \<Rightarrow> (boot_error + sink list) \<times> server_state"

definition exercise_binary ::
  "serde \<Rightarrow> os_faults \<Rightarrow> (nat \<Rightarrow> nat option) \<Rightarrow> rstr \<Rightarrow> nat \<Rightarrow> nat \<Rightarrow> fn_binary \<Rightarrow> rstr \<Rightarrow> rstr \<Rightarrow> json \<Rightarrow> server_state \<Rightarrow>
   server_state option" where
  "exercise_binary S F clock temp_dir pid nonce run_binary name path payload st =
     (let root = unique_temp_dir temp_dir name pid nonce; socket = root @ lit ''/listener.sock''; listener = lit ''unix://'' @ socket in
      Option.bind (to_vec S payload) (\<lambda>plain.
      Option.bind (to_vec S (event_envelope payload)) (\<lambda>event.
      Option.bind (invoke_bytes (direct_call_headers path) plain) (\<lambda>direct.
      Option.bind (invoke_bytes (structured_call_headers path) event) (\<lambda>structured.
      Option.bind (invoke_bytes (binary_call_headers path) plain) (\<lambda>event_headers.
        case run_binary (Present (lit ''http-stream'')) (Present listener)
               [Inr (clock 0, client_connection direct), Inr (clock 1, client_connection structured),
                Inr (clock 2, client_connection event_headers)] st of
          (Inl _, _) \<Rightarrow> None
        | (Inr outs, st') \<Rightarrow>
            if wait_for_socket (path_components socket) (server_fs st')
               \<and> list_all2 (reads_accepted S name) outs
                   [lit ''direct-call-1'', lit ''structured-call-1'', lit ''binary-event-1'']
            then Some (st'\<lparr>server_fs := drop_guard F (path_components root) (server_fs st')\<rparr>)
            else None))))))"

definition document_payload :: json where
  "document_payload = json_obj [(lit ''document_id'', String (lit ''document-1''))]"

definition case_payload :: json where
  "case_payload = json_obj [(lit ''case_id'', String (lit ''case-1''))]"

definition oracle_fn_processes_direct_and_cloudevent_invocations ::
  "serde \<Rightarrow> build \<Rightarrow> (io_error \<Rightarrow> rstr) \<Rightarrow> os_faults \<Rightarrow> nat \<times> nat \<Rightarrow> (nat \<Rightarrow> nat option) \<Rightarrow>
   rstr \<Rightarrow> nat \<Rightarrow> nat \<times> nat \<Rightarrow> server_state \<Rightarrow> server_state option" where
  "oracle_fn_processes_direct_and_cloudevent_invocations S b show_io F pids clock temp_dir pid nonces st =
     Option.bind
       (exercise_binary S F clock temp_dir pid (fst nonces) (heavy_document_render_fn_main S b (fst pids) show_io F)
         (lit ''heavy_document_render'') (lit ''/api/heavy/document-render'') document_payload st)
       (exercise_binary S F clock temp_dir pid (snd nonces) (heavy_case_export_fn_main S b (snd pids) show_io F)
         (lit ''heavy_case_export'') (lit ''/api/heavy/case-export'') case_payload)"

subsection \<open>The requests as printed heads\<close>

definition request_headers :: "(rstr \<times> rstr) list \<Rightarrow> bytes \<Rightarrow> (rstr \<times> rstr) list" where
  "request_headers hs body =
     (lit ''Host'', lit ''localhost'') # hs
     @ [(lit ''Content-Length'', show_dec (length body)), (lit ''Connection'', lit ''close'')]"

definition lowered :: "rstr \<times> rstr \<Rightarrow> rstr \<times> rstr" where
  "lowered h = (to_ascii_lowercase (fst h), snd h)"

text \<open>A header of the test: short, and accepted as it is.\<close>

definition tidy :: "rstr \<times> rstr \<Rightarrow> bool" where
  "tidy h \<longleftrightarrow> header_ok h \<and> str_len (header_line h) \<le> 100"

lemma collect_distinct:
  assumes "distinct (map fst (map lowered hs))" "\<forall>k \<in> fst ` set (map lowered hs). bt_get acc k = None"
  shows "bt_get (collect_headers hs acc) k = or_else (map_of (map lowered hs) k) (bt_get acc k)"
  using assms
proof (induction hs arbitrary: acc)
  case Nil
  then show ?case by (simp add: collect_headers_def or_else_def)
next
  case (Cons h hs)
  let ?acc = "add_header (to_ascii_lowercase (fst h)) (snd h) acc"
  have get: "bt_get ?acc j = (if j = to_ascii_lowercase (fst h) then Some (snd h) else bt_get acc j)" for j
    using Cons.prems by (simp add: add_header_def bt_get_modify lowered_def)
  have new: "fst (lowered h) \<notin> fst ` set (map lowered hs)"
    using Cons.prems(1) by (simp add: image_image)
  then have none: "map_of (map lowered hs) (to_ascii_lowercase (fst h)) = None"
    by (simp add: map_of_eq_None_iff lowered_def)
  have "collect_headers (h # hs) acc = collect_headers hs ?acc"
    by (simp add: collect_headers_def split_beta)
  moreover have "bt_get (collect_headers hs ?acc) k = or_else (map_of (map lowered hs) k) (bt_get ?acc k)"
  proof (rule Cons.IH)
    show "distinct (map fst (map lowered hs))" using Cons.prems(1) by simp
    show "\<forall>k \<in> fst ` set (map lowered hs). bt_get ?acc k = None"
      using Cons.prems(2) new unfolding get by (auto simp: lowered_def image_image) (metis fst_conv image_eqI)
  qed
  moreover have "fst (lowered h) = to_ascii_lowercase (fst h)" "snd (lowered h) = snd h"
    by (simp_all add: lowered_def)
  ultimately show ?case
    using none by (cases "lowered h") (auto simp: get or_else_def split: option.split)
qed

lemma tidy_head:
  assumes "list_all tidy hs" "length hs \<le> 20"
  shows "head_ok sample_line hs"
proof -
  have "header_size hs \<le> length hs * 100" using assms(1)
    by (induction hs) (auto simp: header_size_def tidy_def)
  then have "str_len sample_line + header_size hs \<le> MAX_HEADER_BYTES" "length hs < MAX_HEADER_LINES"
    using assms(2) sample_line_ok(3) by (simp_all add: MAX_HEADER_BYTES_def MAX_HEADER_LINES_def)
  moreover have "list_all header_ok hs" using assms(1) by (simp add: list_all_iff tidy_def)
  ultimately show ?thesis using sample_line_ok by (simp add: head_ok_def)
qed

lemma tidy_no_break:
  assumes "list_all tidy hs"
  shows "\<not> list_ex (\<lambda>(name, value). list_ex (\<lambda>c. c = 13 \<or> c = 10) name \<or> list_ex (\<lambda>c. c = 13 \<or> c = 10) value) hs"
  using assms
  by (fastforce simp: list_all_iff list_ex_iff tidy_def header_ok_def header_name_char_def char_class_defs)

lemma invoke_bytes_print:
  assumes "list_all tidy hs"
  shows "invoke_bytes hs body = Some (print_head sample_line (request_headers hs body) @ body @ [])"
proof -
  have first: "utf8_encode (lit ''POST /call HTTP/1.1'' @ [13, 10] @ lit ''Host: localhost'' @ [13, 10])
      = http_line sample_line @ http_line (header_line (lit ''Host'', lit ''localhost''))"
    by (simp add: http_line_def sample_line_def header_line_def utf8_char_small CRLF_def lit_Cons)
  have mid: "concat (map (\<lambda>(name, value). utf8_encode (name @ lit '': '' @ value @ [13, 10])) hs)
      = concat (map (\<lambda>h. http_line (header_line h)) hs)"
    by (rule arg_cong [where f = concat], rule map_cong) (auto simp only: split_beta header_text prod.collapse)
  have last: "utf8_encode (lit ''Content-Length: '' @ show_dec n @ [13, 10] @ lit ''Connection: close'' @ [13, 10, 13, 10])
      = http_line (header_line (lit ''Content-Length'', show_dec n))
        @ http_line (header_line (lit ''Connection'', lit ''close'')) @ CRLF" for n
    by (simp add: http_line_def header_line_def utf8_char_small CRLF_def lit_Cons)
  show ?thesis
    unfolding invoke_bytes_def first mid last using tidy_no_break [OF assms]
    by (simp add: print_head_def print_headers_def request_headers_def)
qed

subsection \<open>One call of the test\<close>

text \<open>What serde promises of a value the test or the adapter writes, and of its size.\<close>

definition on_the_wire :: "serde \<Rightarrow> json \<Rightarrow> bool" where
  "on_the_wire S v \<longleftrightarrow>
     (\<exists>bs. to_vec S v = Some bs \<and> bs \<noteq> [] \<and> length bs \<le> DEFAULT_MAX_EVENT_BYTES \<and> from_slice S bs = Some v)"

definition accept_answer :: "RouteSpec \<Rightarrow> rstr \<Rightarrow> json" where
  "accept_answer spec rid = json_obj
     [(lit ''accepted'', Bool True), (lit ''handler'', String (handler spec)),
      (lit ''request_id'', String rid), (lit ''route'', String (spec_path spec))]"

lemma map_of_rev_distinct: "distinct (map fst xs) \<Longrightarrow> map_of (rev xs) = map_of xs"
  by (simp add: map_of_inject_set flip: rev_map)

lemma kept_get:
  assumes "btree_ok hs" "\<forall>(k, v) \<in> set hs. header_token k" "k \<notin> {lit ''content-length'', lit ''connection''}"
    and "bt_get hs k = Some v" "filter valid_header hs = hs"
  shows "bt_get (bt_from (map kept (sent_headers hs body))) k = Some (trim v)"
proof -
  have low: "to_ascii_lowercase n = n" if "n \<in> fst ` set hs" for n
    using that assms(2) by (intro to_ascii_lowercase_id) (fastforce simp: header_token_def char_class_defs)
  have "to_ascii_lowercase (lit ''content-length'') = lit ''content-length''"
    "to_ascii_lowercase (lit ''connection'') = lit ''connection''"
    by (simp_all add: to_ascii_lowercase_def lit_Cons char_class_defs)
  then have "bt_get (bt_from (map kept (sent_headers hs body))) k = map_of (rev (map kept hs)) k"
    using assms(3,5) by (simp add: bt_get_from sent_headers_def kept_def)
  also have "map kept hs = map (\<lambda>(n, v). (n, trim v)) hs"
    using low by (intro map_cong) (auto simp: kept_def)
  also have "map_of (rev (map (\<lambda>(n, v). (n, trim v)) hs)) k = map_of (map (\<lambda>(n, v). (n, trim v)) hs) k"
    using btree_ok_distinct [OF assms(1)] by (subst map_of_rev_distinct) (simp_all add: comp_def split_beta)
  also have "\<dots> = Some (trim v)"
    using assms(4) by (simp add: map_of_map bt_get_def)
  finally show ?thesis .
qed

lemma answer_reads_accepted:
  assumes "presentable r" "resp_body r = accept_answer spec rid" "on_the_wire S (accept_answer spec rid)"
    and "bt_get (fn_headers r) (lit ''fn-http-status'') = Some (lit ''202'')"
    and "bt_get (fn_headers r) (lit ''x-request-id'') = Some rid" "safe_id rid"
  shows "reads_accepted S (handler spec)
    \<lparr>written = message 200 (fn_headers r) (fn_body S r), budget = None\<rparr> rid"
proof -
  obtain bs where bs: "to_vec S (accept_answer spec rid) = Some bs" "length bs \<le> DEFAULT_MAX_EVENT_BYTES"
    "from_slice S bs = Some (accept_answer spec rid)"
    using assms(3) by (auto simp: on_the_wire_def)
  then have body: "fn_body S r = bs" by (simp add: fn_body_def assms(2))
  note p = parse_response_read [of 200 "fn_headers r" bs S "accept_answer spec rid"]
  have parsed: "parse_response S (message 200 (fn_headers r) bs) = Some
      \<lparr>outer_status = 200, seen_headers = bt_from (map kept (sent_headers (fn_headers r) bs)),
       seen_body = accept_answer spec rid\<rparr>"
    using bs presentable_sent(2) [OF assms(1)]
    by (intro p) (simp_all add: DEFAULT_MAX_EVENT_BYTES_def usize_max_def)
  have "btree_ok (fn_headers r)" using assms(1) by (simp add: presentable_def fn_headers_ok)
  note get = kept_get [OF this _ _ _ presentable_sent(1) [OF assms(1)], of _ _ bs]
  have tok: "\<forall>(k, v) \<in> set (fn_headers r). header_token k"
    using presentable_headers [OF assms(1)] by auto
  have "trim (lit ''202'') = lit ''202''" "trim rid = rid"
    using assms(6) request_id_char_ascii
    by (auto intro!: trimmed_trim trimmed_no_whitespace simp: lit_Cons is_whitespace_def safe_id_def)
  then have "bt_get (bt_from (map kept (sent_headers (fn_headers r) bs))) (lit ''fn-http-status'') = Some (lit ''202'')"
    "bt_get (bt_from (map kept (sent_headers (fn_headers r) bs))) (lit ''x-request-id'') = Some rid"
    using get [OF tok _ assms(4)] get [OF tok _ assms(5)] by simp_all
  then show ?thesis
    by (simp add: reads_accepted_def parsed body assert_accepted_def accept_answer_def value_get_obj)
qed

lemma call_accepted:
  assumes "list_all tidy hs" "length hs \<le> 16" "distinct (map fst (map lowered (request_headers hs body)))"
  defines "H \<equiv> collect_headers (request_headers hs body) []"
  assumes "bt_get H (lit ''transfer-encoding'') = None"
    and "length body \<le> DEFAULT_MAX_EVENT_BYTES" "max_event_bytes spec = DEFAULT_MAX_EVENT_BYTES"
    and "decode_payload S H (fn_content_type H) body = Inr payload"
    and "has_required_value payload (required_field spec)"
    and "fn_method spec H = spec_method spec" "fn_path spec H = spec_path spec"
    and "fn_request_id pid clock H = rid" "safe_id rid" "visible_text (spec_method spec)"
    and "on_the_wire S (accept_answer spec rid)"
  shows "\<exists>input out log'. invoke_bytes hs body = Some input
    \<and> handle_stream S b pid clock show_io spec (client_connection input) log = ((Inr (), out), log')
    \<and> reads_accepted S (handler spec) out rid"
proof -
  have small: "length body \<le> usize_max"
    using assms(6) by (simp add: DEFAULT_MAX_EVENT_BYTES_def usize_max_def)
  have "length body < 10 ^ 20" using assms(6) by (simp add: DEFAULT_MAX_EVENT_BYTES_def)
  then have "length (show_dec (length body)) \<le> 20" by (simp add: length_show_dec del: power_numeral)
  moreover have "\<forall>c \<in> set (show_dec n). \<not> is_control c" for n
    by (auto simp: char_class_defs dest!: show_dec_digits)
  ultimately have "tidy (lit ''Content-Length'', show_dec (length body))"
    using ascii_header_ok [of "lit ''Content-Length''" "show_dec (length body)"] show_dec_ascii
    by (simp add: tidy_def lit_Cons header_name_char_def char_class_defs)
  moreover have "tidy (lit ''Host'', lit ''localhost'')" "tidy (lit ''Connection'', lit ''close'')"
    using ascii_header_ok [of "lit ''Host''" "lit ''localhost''"] ascii_header_ok [of "lit ''Connection''" "lit ''close''"]
    by (simp_all add: tidy_def lit_Cons header_name_char_def char_class_defs trimmed_def)
  ultimately have head: "head_ok sample_line (request_headers hs body)"
    using assms(1,2) by (intro tidy_head) (simp_all add: request_headers_def)
  have get: "bt_get H k = map_of (map lowered (request_headers hs body)) k" for k
    using collect_distinct [OF assms(3), of "[]"] by (simp add: H_def or_else_def split: option.split)
  have "lowered (lit ''Content-Length'', v) = (lit ''content-length'', v)" for v
    by (simp add: lowered_def to_ascii_lowercase_def lit_Cons char_class_defs)
  then have "(lit ''content-length'', show_dec (length body)) \<in> set (map lowered (request_headers hs body))"
    by (force simp: request_headers_def)
  then have len: "bt_get H (lit ''content-length'') = Some (show_dec (length body))"
    using assms(3) by (simp only: get map_of_is_SomeI)
  have plain: "\<not> chunked_coding H" using assms(5) by (simp add: chunked_coding_def)
  let ?input = "print_head sample_line (request_headers hs body) @ body @ []"
  have input: "invoke_bytes hs body = Some ?input" by (rule invoke_bytes_print [OF assms(1)])
  obtain r log' where r: "handle_stream S b pid clock show_io spec (client_connection ?input) log
      = ((Inr (), \<lparr>written = message 200 (fn_headers r) (fn_body S r), budget = None\<rparr>), log')"
    "bt_get (fn_headers r) (lit ''fn-http-status'') = Some (lit ''202'')"
    "resp_body r = accept_answer spec rid" "presentable r"
    "bt_get (fn_headers r) (lit ''x-request-id'') = Some rid"
    using fn_call_served [OF head, folded H_def, OF plain len _ small assms(8,9) _ assms(11),
        of "client_connection ?input" "[]" False b pid clock show_io log]
      assms(6,7,10,12-14)
    by (auto simp: client_connection_def eq_ignore_ascii_case_equiv accept_answer_def)
  then have "reads_accepted S (handler spec)
      \<lparr>written = message 200 (fn_headers r) (fn_body S r), budget = None\<rparr> rid"
    using assms(13,15) by (intro answer_reads_accepted)
  with input r(1) show ?thesis by blast
qed

subsection \<open>The three calls\<close>

text \<open>The two routes the test exercises.\<close>

definition tested :: "RouteSpec \<Rightarrow> json \<Rightarrow> bool" where
  "tested spec payload \<longleftrightarrow>
     spec = heavy_document_render_fn_ROUTE \<and> payload = document_payload
     \<or> spec = heavy_case_export_fn_ROUTE \<and> payload = case_payload"

lemma tested_facts:
  assumes "tested spec payload"
  shows "max_event_bytes spec = DEFAULT_MAX_EVENT_BYTES" "visible_text (lit ''POST'')"
    and "spec_method spec = lit ''POST''" "has_required_value payload (required_field spec)"
    and "request_path (request_url (spec_path spec)) = spec_path spec"
    and "tidy (lit ''Fn-Http-Request-Url'', request_url (spec_path spec))"
    and "trim (request_url (spec_path spec)) = request_url (spec_path spec)" "request_url (spec_path spec) \<noteq> []"
proof -
  have id: "trim (lit ''document-1'') = lit ''document-1''" "trim (lit ''case-1'') = lit ''case-1''"
    by (rule trimmed_trim, simp add: trimmed_def lit_Cons is_whitespace_def)+
  from assms consider "spec = heavy_document_render_fn_ROUTE \<and> payload = document_payload"
    | "spec = heavy_case_export_fn_ROUTE \<and> payload = case_payload" by (auto simp: tested_def)
  then have path: "spec_path spec = lit ''/api/heavy/document-render'' \<or> spec_path spec = lit ''/api/heavy/case-export''"
    by cases (simp_all add: route_defs route_spec_new_def)
  show "max_event_bytes spec = DEFAULT_MAX_EVENT_BYTES" "visible_text (lit ''POST'')" "spec_method spec = lit ''POST''"
    using assms by (auto simp: tested_def route_defs route_spec_new_def visible_text_def lit_Cons)
  show "has_required_value payload (required_field spec)"
    using assms by (auto simp: tested_def route_defs route_spec_new_def has_required_value_def document_payload_def
        case_payload_def json_obj_def as_object_def bt_get_from id)
  show "request_path (request_url (spec_path spec)) = spec_path spec"
    using path by (auto simp: request_url_def request_path_def lit_Cons trim_def trim_start_def trim_end_def
        is_whitespace_def first_segment_def starts_with_def)
  have url: "ascii_text (request_url (spec_path spec))" "trimmed (request_url (spec_path spec))"
    "\<forall>c \<in> set (request_url (spec_path spec)). \<not> is_control c" "length (request_url (spec_path spec)) \<le> 60"
    using path by (auto simp: request_url_def lit_Cons trimmed_def char_class_defs)
  have name: "ascii_text (lit ''Fn-Http-Request-Url'')" "\<forall>c \<in> set (lit ''Fn-Http-Request-Url''). header_name_char c"
    by (simp_all add: lit_Cons header_name_char_def char_class_defs)
  show "tidy (lit ''Fn-Http-Request-Url'', request_url (spec_path spec))"
    using ascii_header_ok [OF name(1) url(1) _ name(2) url(2,3)] url(4) by (simp add: tidy_def)
  show "trim (request_url (spec_path spec)) = request_url (spec_path spec)" by (rule trimmed_trim [OF url(2)])
  show "request_url (spec_path spec) \<noteq> []" by (simp add: request_url_def)
qed

lemma tidy_lit:
  assumes "ascii_text (lit n)" "ascii_text (lit v)" "n \<noteq> []" "\<forall>c \<in> set (lit n). header_name_char c"
    and "trimmed (lit v)" "\<forall>c \<in> set (lit v). \<not> is_control c" "length n + length v \<le> 98"
  shows "tidy (lit n, lit v)"
  using ascii_header_ok [OF assms(1,2) _ assms(4,5,6)] assms(3,7) by (simp add: tidy_def)

lemma tidy_headers:
  "tidy (lit ''Fn-Intent'', lit ''httprequest'')" "tidy (lit ''Fn-Http-Method'', lit ''POST'')"
  "tidy (lit ''Fn-Call-Id'', lit ''direct-call-1'')" "tidy (lit ''Fn-Call-Id'', lit ''structured-call-1'')"
  "tidy (lit ''Content-Type'', lit ''application/json'')"
  "tidy (lit ''Content-Type'', lit ''application/cloudevents+json'')"
  "tidy (lit ''Fn-Http-H-Ce-Specversion'', lit ''1.0'')" "tidy (lit ''Fn-Http-H-Ce-Id'', lit ''binary-event-1'')"
  "tidy (lit ''Fn-Http-H-Ce-Source'', lit ''urn:scintilla:test'')"
  "tidy (lit ''Fn-Http-H-Ce-Type'', lit ''scintilla.route.requested'')"
  by (rule tidy_lit; simp add: lit_Cons header_name_char_def char_class_defs trimmed_def)+

lemma test_headers_tidy:
  assumes "tested spec payload"
  shows "list_all tidy (direct_call_headers (spec_path spec))" "list_all tidy (structured_call_headers (spec_path spec))"
    "list_all tidy (binary_call_headers (spec_path spec))"
  using tested_facts(6) [OF assms] tidy_headers
  by (simp_all add: direct_call_headers_def structured_call_headers_def binary_call_headers_def)

lemma lowered_names:
  "lowered (lit ''Host'', v) = (lit ''host'', v)" "lowered (lit ''Content-Length'', v) = (lit ''content-length'', v)"
  "lowered (lit ''Connection'', v) = (lit ''connection'', v)" "lowered (lit ''Fn-Intent'', v) = (lit ''fn-intent'', v)"
  "lowered (lit ''Fn-Call-Id'', v) = (lit ''fn-call-id'', v)"
  "lowered (lit ''Fn-Http-Method'', v) = (lit ''fn-http-method'', v)"
  "lowered (lit ''Fn-Http-Request-Url'', v) = (lit ''fn-http-request-url'', v)"
  "lowered (lit ''Content-Type'', v) = (lit ''content-type'', v)"
  "lowered (lit ''Fn-Http-H-Ce-Specversion'', v) = (lit ''fn-http-h-ce-specversion'', v)"
  "lowered (lit ''Fn-Http-H-Ce-Id'', v) = (lit ''fn-http-h-ce-id'', v)"
  "lowered (lit ''Fn-Http-H-Ce-Source'', v) = (lit ''fn-http-h-ce-source'', v)"
  "lowered (lit ''Fn-Http-H-Ce-Type'', v) = (lit ''fn-http-h-ce-type'', v)"
  by (simp_all add: lowered_def to_ascii_lowercase_def lit_Cons char_class_defs)

lemmas test_headers = direct_call_headers_def structured_call_headers_def binary_call_headers_def request_headers_def

lemma test_headers_get:
  assumes "hs \<in> {direct_call_headers path, structured_call_headers path, binary_call_headers path}"
  shows "distinct (map fst (map lowered (request_headers hs body)))"
    and "bt_get (collect_headers (request_headers hs body) []) k = map_of (map lowered (request_headers hs body)) k"
proof -
  show d: "distinct (map fst (map lowered (request_headers hs body)))"
    using assms by (auto simp: test_headers lowered_names)
  show "bt_get (collect_headers (request_headers hs body) []) k = map_of (map lowered (request_headers hs body)) k"
    using collect_distinct [OF d, of "[]"] by (simp add: or_else_def split: option.split)
qed

lemma test_texts:
  "trim (lit ''POST'') = lit ''POST''" "trim (lit ''direct-call-1'') = lit ''direct-call-1''"
  "trim (lit ''structured-call-1'') = lit ''structured-call-1''"
  "trim (lit ''application/json'') = lit ''application/json''"
  "trim (lit ''application/cloudevents+json'') = lit ''application/cloudevents+json''"
  "trim (lit ''1.0'') = lit ''1.0''" "trim (lit ''binary-event-1'') = lit ''binary-event-1''"
  "trim (lit ''urn:scintilla:test'') = lit ''urn:scintilla:test''"
  "trim (lit ''scintilla.route.requested'') = lit ''scintilla.route.requested''"
  by (rule trimmed_trim, simp add: trimmed_def lit_Cons is_whitespace_def)+

lemma test_ids:
  "safe_id (lit ''direct-call-1'')" "safe_id (lit ''structured-call-1'')" "safe_id (lit ''binary-event-1'')"
  by (simp_all add: safe_id_def lit_Cons request_id_char_def char_class_defs)

lemma test_content_types:
  "to_ascii_lowercase (lit ''application/json'') = lit ''application/json''"
  "to_ascii_lowercase (lit ''application/cloudevents+json'') = lit ''application/cloudevents+json''"
  "\<not> starts_with (lit ''application/json'') (lit ''application/cloudevents+json'')"
  "starts_with (lit ''application/cloudevents+json'') (lit ''application/cloudevents+json'')"
  by (simp_all add: to_ascii_lowercase_def starts_with_def lit_Cons char_class_defs)

lemma fn_first_header_simps:
  "fn_first_header hs [] = None"
  "fn_first_header hs (n # ns) =
     (case opt_filter (\<lambda>v. v \<noteq> []) (map_option trim (bt_get hs n)) of Some v \<Rightarrow> Some v | None \<Rightarrow> fn_first_header hs ns)"
  by (auto simp: fn_first_header_def split: option.splits)

lemmas test_eval = test_headers lowered_names test_texts test_content_types fn_first_header_simps opt_filter_def
  fn_method_def fn_path_def fn_content_type_def fn_request_id_def fn_sanitize_eq

lemma call_decodes:
  assumes "body \<noteq> []" "from_slice S body = Some v"
  shows "\<not> starts_with content_type (lit ''application/cloudevents+json'') \<Longrightarrow> fn_attributes_ok hs \<Longrightarrow>
      decode_payload S hs content_type body = Inr v"
    and "starts_with content_type (lit ''application/cloudevents+json'') \<Longrightarrow> structured_event v \<Longrightarrow>
      decode_payload S hs content_type body = Inr (unwrap_or (value_get (lit ''data'') v) empty_obj)"
  using assms by (simp_all add: decode_payload_ok)

lemma direct_call:
  assumes "tested spec payload" "body \<noteq> []" "length body \<le> DEFAULT_MAX_EVENT_BYTES" "from_slice S body = Some payload"
    and "on_the_wire S (accept_answer spec (lit ''direct-call-1''))"
  shows "\<exists>input out log'. invoke_bytes (direct_call_headers (spec_path spec)) body = Some input
    \<and> handle_stream S b pid clock show_io spec (client_connection input) log = ((Inr (), out), log')
    \<and> reads_accepted S (handler spec) out (lit ''direct-call-1'')"
proof -
  note f = tested_facts [OF assms(1)]
  let ?hs = "direct_call_headers (spec_path spec)"
  define H where "H = collect_headers (request_headers ?hs body) []"
  have get: "bt_get H k = map_of (map lowered (request_headers ?hs body)) k" for k
    unfolding H_def by (rule test_headers_get(2) [where path = "spec_path spec"]) simp
  have ct: "fn_content_type H = lit ''application/json''" by (simp add: get test_eval)
  have "fn_attributes_ok H" by (simp add: get test_eval fn_attributes_ok_def fn_event_mode_def)
  then have dec: "decode_payload S H (fn_content_type H) body = Inr payload"
    unfolding ct using test_content_types(3) by (intro call_decodes assms)
  show ?thesis
  proof (rule call_accepted [OF test_headers_tidy(1) [OF assms(1)] _ _ _ assms(3) f(1) dec [unfolded H_def] f(4)], unfold H_def [symmetric])
    show "fn_method spec H = spec_method spec" "fn_path spec H = spec_path spec"
      by (simp_all add: get test_eval f)
    show "fn_request_id pid clock H = lit ''direct-call-1''"
      by (simp add: get test_eval sanitize_fixes_safe test_ids unwrap_or_def)
    show "bt_get H (lit ''transfer-encoding'') = None" by (simp add: get test_headers lowered_names)
  qed (use f(2) in \<open>simp_all add: test_headers lowered_names f test_ids assms(5)\<close>)
qed

lemma not_blank:
  "\<not> blank_text (lit ''structured-event-1'')" "\<not> blank_text (lit ''urn:scintilla:test'')"
  "\<not> blank_text (lit ''scintilla.route.requested'')"
  by (simp_all add: blank_text_def lit_Cons is_whitespace_def)

lemma structured_call:
  assumes "tested spec payload" "body \<noteq> []" "length body \<le> DEFAULT_MAX_EVENT_BYTES"
    and "from_slice S body = Some (event_envelope payload)"
    and "on_the_wire S (accept_answer spec (lit ''structured-call-1''))"
  shows "\<exists>input out log'. invoke_bytes (structured_call_headers (spec_path spec)) body = Some input
    \<and> handle_stream S b pid clock show_io spec (client_connection input) log = ((Inr (), out), log')
    \<and> reads_accepted S (handler spec) out (lit ''structured-call-1'')"
proof -
  note f = tested_facts [OF assms(1)]
  let ?hs = "structured_call_headers (spec_path spec)"
  define H where "H = collect_headers (request_headers ?hs body) []"
  have get: "bt_get H k = map_of (map lowered (request_headers ?hs body)) k" for k
    unfolding H_def by (rule test_headers_get(2) [where path = "spec_path spec"]) simp
  have ct: "fn_content_type H = lit ''application/cloudevents+json''" by (simp add: get test_eval)
  have "structured_event (event_envelope payload)"
    by (simp add: structured_event_def event_envelope_def event_attribute_def value_get_obj test_texts not_blank)
  then have "decode_payload S H (fn_content_type H) body
      = Inr (unwrap_or (value_get (lit ''data'') (event_envelope payload)) empty_obj)"
    unfolding ct using test_content_types(4) by (intro call_decodes assms)
  then have dec: "decode_payload S H (fn_content_type H) body = Inr payload"
    by (simp add: event_envelope_def value_get_obj unwrap_or_def)
  show ?thesis
  proof (rule call_accepted [OF test_headers_tidy(2) [OF assms(1)] _ _ _ assms(3) f(1) dec [unfolded H_def] f(4)], unfold H_def [symmetric])
    show "fn_method spec H = spec_method spec" "fn_path spec H = spec_path spec"
      by (simp_all add: get test_eval f)
    show "fn_request_id pid clock H = lit ''structured-call-1''"
      by (simp add: get test_eval sanitize_fixes_safe test_ids unwrap_or_def)
    show "bt_get H (lit ''transfer-encoding'') = None" by (simp add: get test_headers lowered_names)
  qed (use f(2) in \<open>simp_all add: test_headers lowered_names f test_ids assms(5)\<close>)
qed

lemma binary_call:
  assumes "tested spec payload" "body \<noteq> []" "length body \<le> DEFAULT_MAX_EVENT_BYTES" "from_slice S body = Some payload"
    and "on_the_wire S (accept_answer spec (lit ''binary-event-1''))"
  shows "\<exists>input out log'. invoke_bytes (binary_call_headers (spec_path spec)) body = Some input
    \<and> handle_stream S b pid clock show_io spec (client_connection input) log = ((Inr (), out), log')
    \<and> reads_accepted S (handler spec) out (lit ''binary-event-1'')"
proof -
  note f = tested_facts [OF assms(1)]
  let ?hs = "binary_call_headers (spec_path spec)"
  define H where "H = collect_headers (request_headers ?hs body) []"
  have get: "bt_get H k = map_of (map lowered (request_headers ?hs body)) k" for k
    unfolding H_def by (rule test_headers_get(2) [where path = "spec_path spec"]) simp
  have ct: "fn_content_type H = lit ''application/json''" by (simp add: get test_eval)
  have "fn_attributes_ok H"
    by (simp add: get test_eval fn_attributes_ok_def fn_event_mode_def fn_attributes_def)
  then have dec: "decode_payload S H (fn_content_type H) body = Inr payload"
    unfolding ct using test_content_types(3) by (intro call_decodes assms)
  show ?thesis
  proof (rule call_accepted [OF test_headers_tidy(3) [OF assms(1)] _ _ _ assms(3) f(1) dec [unfolded H_def] f(4)], unfold H_def [symmetric])
    show "fn_method spec H = spec_method spec" "fn_path spec H = spec_path spec"
      by (simp_all add: get test_eval f)
    show "fn_request_id pid clock H = lit ''binary-event-1''"
      by (simp add: get test_eval sanitize_fixes_safe test_ids unwrap_or_def)
    show "bt_get H (lit ''transfer-encoding'') = None" by (simp add: get test_headers lowered_names)
  qed (use f(2) in \<open>simp_all add: test_headers lowered_names f test_ids assms(5)\<close>)
qed

subsection \<open>The whole test\<close>

lemma split_on_join: "split_on c (u @ c # v) = split_on c u @ split_on c v"
proof (induction u)
  case (Cons x u)
  then show ?case by (cases "split_on c u") auto
qed simp

lemma path_components_join: "path_components (u @ 47 # v) = path_components u @ path_components v"
  by (simp add: path_components_def split_on_join)

lemma path_components_name:
  "47 \<notin> set v \<Longrightarrow> v \<noteq> [] \<Longrightarrow> v \<noteq> lit ''.'' \<Longrightarrow> path_components v = [v]"
  by (simp add: path_components_def split_on_none)

lemma test_paths:
  "path_components (root @ lit ''/listener.sock'') = path_components root @ [lit ''listener.sock'']"
  "phony_path (path_components root @ [lit ''listener.sock'']) = path_components root @ [lit ''phonylistener.sock'']"
  "path_components (lit ''phonylistener.sock'') = [lit ''phonylistener.sock'']"
proof -
  have "lit ''/listener.sock'' = 47 # lit ''listener.sock''" by (simp add: lit_Cons)
  moreover have "path_components (lit ''listener.sock'') = [lit ''listener.sock'']"
    by (rule path_components_name) (simp_all add: lit_Cons)
  ultimately show "path_components (root @ lit ''/listener.sock'') = path_components root @ [lit ''listener.sock'']"
    by (simp add: path_components_join)
  show "phony_path (path_components root @ [lit ''listener.sock'']) = path_components root @ [lit ''phonylistener.sock'']"
    by (simp add: phony_path_def lit_Cons)
  show "path_components (lit ''phonylistener.sock'') = [lit ''phonylistener.sock'']"
    by (rule path_components_name) (simp_all add: lit_Cons)
qed

definition fresh_root :: "rstr \<Rightarrow> file_system \<Rightarrow> bool" where
  "fresh_root root fs \<longleftrightarrow>
     starts_with root (lit ''/'') \<and> nodes fs (path_components root @ [lit ''listener.sock'']) = None
     \<and> nodes fs (path_components root @ [lit ''phonylistener.sock'']) = None"

definition answers_on_the_wire :: "serde \<Rightarrow> RouteSpec \<Rightarrow> json \<Rightarrow> bool" where
  "answers_on_the_wire S spec payload \<longleftrightarrow>
     on_the_wire S payload \<and> on_the_wire S (event_envelope payload)
     \<and> (\<forall>rid \<in> {lit ''direct-call-1'', lit ''structured-call-1'', lit ''binary-event-1''}.
          on_the_wire S (accept_answer spec rid))"

lemma listener_configured:
  assumes "starts_with root (lit ''/'')"
  shows "configured (Present (lit ''http-stream'')) (Present (lit ''unix://'' @ root @ lit ''/listener.sock''))
    (root @ lit ''/listener.sock'')"
proof -
  have "trim (lit ''http-stream'') = lit ''http-stream''"
    by (rule trimmed_trim) (simp add: trimmed_def lit_Cons is_whitespace_def)
  moreover have "trimmed (lit ''unix://'' @ root @ lit ''/listener.sock'')"
    by (simp add: trimmed_def lit_Cons is_whitespace_def)
  moreover have "starts_with (root @ lit ''/listener.sock'') (lit ''/'')"
    using assms by (auto simp: starts_with_iff)
  moreover from this have "trim (root @ lit ''/listener.sock'') \<noteq> []"
    by (auto simp: trim_eq_Nil lit_Cons is_whitespace_def)
  ultimately show ?thesis
    by (simp add: configured_def FN_FORMAT_HTTP_STREAM_def parse_listener_uri_def trimmed_trim or_else_def ok_or_def)
qed

lemma on_the_wireE:
  assumes "on_the_wire S v"
  obtains bs where "to_vec S v = Some bs" "bs \<noteq> []" "length bs \<le> DEFAULT_MAX_EVENT_BYTES" "from_slice S bs = Some v"
  using assms by (auto simp: on_the_wire_def)

lemma exercise_accepted:
  fixes clock :: "nat \<Rightarrow> nat option"
  assumes "tested spec payload" "answers_on_the_wire S spec payload"
    and "fresh_root (unique_temp_dir temp_dir (handler spec) pid nonce) (server_fs st)"
  shows "\<exists>st'. exercise_binary S no_faults clock temp_dir pid nonce (run S b child show_io no_faults spec)
      (handler spec) (spec_path spec) payload st = Some st'
    \<and> nodes (server_fs st') = nodes (server_fs st)"
proof -
  let ?root = "unique_temp_dir temp_dir (handler spec) pid nonce"
  let ?dir = "path_components ?root"
  let ?p = "?dir @ [lit ''listener.sock'']" and ?q = "?dir @ [lit ''phonylistener.sock'']"
  have wire: "on_the_wire S payload" "on_the_wire S (event_envelope payload)"
    "on_the_wire S (accept_answer spec (lit ''direct-call-1''))"
    "on_the_wire S (accept_answer spec (lit ''structured-call-1''))"
    "on_the_wire S (accept_answer spec (lit ''binary-event-1''))"
    using assms(2) by (simp_all add: answers_on_the_wire_def)
  have fresh: "starts_with ?root (lit ''/'')" "nodes (server_fs st) ?p = None" "nodes (server_fs st) ?q = None"
    using assms(3) by (simp_all add: fresh_root_def)
  obtain plain where plain: "to_vec S payload = Some plain" "plain \<noteq> []" "length plain \<le> DEFAULT_MAX_EVENT_BYTES"
    "from_slice S plain = Some payload" by (rule on_the_wireE [OF wire(1)])
  obtain event where event: "to_vec S (event_envelope payload) = Some event" "event \<noteq> []"
    "length event \<le> DEFAULT_MAX_EVENT_BYTES" "from_slice S event = Some (event_envelope payload)"
    by (rule on_the_wireE [OF wire(2)])
  let ?log = "server_log st @ [Stdout (listening_line spec)]"
  obtain i0 o0 l0 where h0: "invoke_bytes (direct_call_headers (spec_path spec)) plain = Some i0"
    "handle_stream S b child (clock 0) show_io spec (client_connection i0) ?log = ((Inr (), o0), l0)"
    "reads_accepted S (handler spec) o0 (lit ''direct-call-1'')"
    using direct_call [OF assms(1) plain(2-4) wire(3)] by blast
  obtain i1 o1 l1 where h1: "invoke_bytes (structured_call_headers (spec_path spec)) event = Some i1"
    "handle_stream S b child (clock 1) show_io spec (client_connection i1) l0 = ((Inr (), o1), l1)"
    "reads_accepted S (handler spec) o1 (lit ''structured-call-1'')"
    using structured_call [OF assms(1) event(2-4) wire(4)] by blast
  obtain i2 o2 l2 where h2: "invoke_bytes (binary_call_headers (spec_path spec)) plain = Some i2"
    "handle_stream S b child (clock 2) show_io spec (client_connection i2) l1 = ((Inr (), o2), l2)"
    "reads_accepted S (handler spec) o2 (lit ''binary-event-1'')"
    using binary_call [OF assms(1) plain(2-4) wire(5)] by blast
  have served: "serve S b child show_io spec [Inr (clock 0, client_connection i0),
      Inr (clock 1, client_connection i1), Inr (clock 2, client_connection i2)] ?log = ([o0, o1, o2], l2)"
    by (simp add: h0(2) h1(2) [unfolded One_nat_def] h2(2))
  obtain fs' where bind: "bind_listener no_faults ?p (server_fs st) = (Inr ?q, fs')"
    using bind_listener_no_faults [of ?p "server_fs st"] fresh test_paths(2) [of ?root] by auto
  have fs': "nodes fs' = (nodes (server_fs st))(?q \<mapsto> Socket 438, ?p \<mapsto> Symlink (lit ''phonylistener.sock''))"
    using bind_listener_success(7) [OF bind] test_paths(2) [of ?root] by (simp add: lit_Cons)
  have ready: "wait_for_socket ?p fs'" by (simp add: wait_for_socket_def fs' test_paths(3))
  have run: "run S b child show_io no_faults spec (Present (lit ''http-stream''))
      (Present (lit ''unix://'' @ ?root @ lit ''/listener.sock''))
      [Inr (clock 0, client_connection i0), Inr (clock 1, client_connection i1), Inr (clock 2, client_connection i2)] st
    = (Inr [o0, o1, o2], \<lparr>server_fs = fs', server_log = l2\<rparr>)"
    unfolding run_configured [OF listener_configured [OF fresh(1)]] test_paths(1) bind served by simp
  have gone: "nodes (drop_guard no_faults ?dir fs') = nodes (server_fs st)"
    using fresh(2,3) by (simp add: drop_guard_def unlink_def no_faults_def fs' fun_eq_iff)
  show ?thesis
    unfolding exercise_binary_def Let_def plain(1) event(1) bind.bind_lunit h0(1) h1(1) h2(1) run
    using ready h0(3) h1(3) h2(3) gone by (simp add: test_paths(1))
qed

lemma tested_routes:
  "tested heavy_document_render_fn_ROUTE document_payload" "tested heavy_case_export_fn_ROUTE case_payload"
  "handler heavy_document_render_fn_ROUTE = lit ''heavy_document_render''"
  "spec_path heavy_document_render_fn_ROUTE = lit ''/api/heavy/document-render''"
  "handler heavy_case_export_fn_ROUTE = lit ''heavy_case_export''"
  "spec_path heavy_case_export_fn_ROUTE = lit ''/api/heavy/case-export''"
  by (simp_all add: tested_def route_defs route_spec_new_def)

lemma fn_mains:
  "heavy_document_render_fn_main S b pid show_io F = run S b pid show_io F heavy_document_render_fn_ROUTE"
  "heavy_case_export_fn_main S b pid show_io F = run S b pid show_io F heavy_case_export_fn_ROUTE"
  by (simp_all add: fun_eq_iff heavy_document_render_fn_main_def heavy_case_export_fn_main_def)

text \<open>
  C17. The integration test of the Oracle Functions binaries passes: in a fresh temporary directory on
  a system without faults, with a serde that reads back the values it writes, both binaries bind
  their listener, take the direct, the structured and the binary CloudEvent call of the test's own
  client, and answer each so that every assertion of the test holds; and the test leaves no file
  behind.
\<close>

theorem oracle_fn_process_test_passes:
  assumes "answers_on_the_wire S heavy_document_render_fn_ROUTE document_payload"
    and "answers_on_the_wire S heavy_case_export_fn_ROUTE case_payload"
    and "fresh_root (unique_temp_dir temp_dir (lit ''heavy_document_render'') pid (fst nonces)) (server_fs st)"
    and "fresh_root (unique_temp_dir temp_dir (lit ''heavy_case_export'') pid (snd nonces)) (server_fs st)"
  shows "\<exists>st'. oracle_fn_processes_direct_and_cloudevent_invocations S b show_io no_faults pids clock temp_dir pid
      nonces st = Some st' \<and> nodes (server_fs st') = nodes (server_fs st)"
proof -
  obtain st1 where st1: "exercise_binary S no_faults clock temp_dir pid (fst nonces)
      (heavy_document_render_fn_main S b (fst pids) show_io no_faults)
      (lit ''heavy_document_render'') (lit ''/api/heavy/document-render'') document_payload st = Some st1"
    "nodes (server_fs st1) = nodes (server_fs st)"
    using exercise_accepted [OF tested_routes(1) assms(1), unfolded tested_routes, OF assms(3)]
    unfolding fn_mains by blast
  have "fresh_root (unique_temp_dir temp_dir (lit ''heavy_case_export'') pid (snd nonces)) (server_fs st1)"
    using assms(4) by (simp add: fresh_root_def st1(2))
  from exercise_accepted [OF tested_routes(2) assms(2), unfolded tested_routes, OF this] st1
  show ?thesis
    unfolding oracle_fn_processes_direct_and_cloudevent_invocations_def fn_mains by fastforce
qed

subsection \<open>A codec for a list of values\<close>

text \<open>A codec that writes the values of a list, by their position, and reads them back.\<close>

definition listed_serde :: "json list \<Rightarrow> serde" where
  "listed_serde vs = null_serde
     \<lparr>to_vec := \<lambda>v. if v \<in> set vs then Some (replicate (Suc (length (takeWhile (\<lambda>w. w \<noteq> v) vs))) (CHR ''a'')) else None,
      from_slice := \<lambda>bs. if bs \<noteq> [] \<and> length bs \<le> length vs then Some (vs ! (length bs - 1)) else None\<rparr>"

lemma position_in_list:
  "v \<in> set vs \<Longrightarrow> length (takeWhile (\<lambda>w. w \<noteq> v) vs) < length vs \<and> vs ! length (takeWhile (\<lambda>w. w \<noteq> v) vs) = v"
  by (induction vs) auto

lemma listed_on_the_wire:
  assumes "v \<in> set vs" "length vs \<le> 1000"
  shows "on_the_wire (listed_serde vs) v"
proof -
  let ?bs = "replicate (Suc (length (takeWhile (\<lambda>w. w \<noteq> v) vs))) (CHR ''a'')"
  have "to_vec (listed_serde vs) v = Some ?bs" "from_slice (listed_serde vs) ?bs = Some v"
    using position_in_list [OF assms(1)] assms(1) by (simp_all add: listed_serde_def Suc_le_eq)
  moreover have "length ?bs \<le> DEFAULT_MAX_EVENT_BYTES"
    using position_in_list [OF assms(1)] assms(2) by (simp add: DEFAULT_MAX_EVENT_BYTES_def)
  moreover have "?bs \<noteq> []" by simp
  ultimately show ?thesis unfolding on_the_wire_def by blast
qed

definition test_values :: "RouteSpec \<Rightarrow> json \<Rightarrow> json list" where
  "test_values spec payload = payload # event_envelope payload
     # map (accept_answer spec) [lit ''direct-call-1'', lit ''structured-call-1'', lit ''binary-event-1'']"

lemma listed_answers:
  assumes "set (test_values spec payload) \<subseteq> set vs" "length vs \<le> 1000"
  shows "answers_on_the_wire (listed_serde vs) spec payload"
  using assms(1) listed_on_the_wire [OF _ assms(2)] by (simp add: answers_on_the_wire_def test_values_def)

theorem oracle_fn_process_test_passes_witness:
  "\<exists>st'. oracle_fn_processes_direct_and_cloudevent_invocations
     (listed_serde (test_values heavy_document_render_fn_ROUTE document_payload
        @ test_values heavy_case_export_fn_ROUTE case_payload))
     \<lparr>feature_aws = False, feature_http = True\<rparr> (\<lambda>_. []) no_faults (8, 9) (\<lambda>n. Some n) (lit ''/tmp'') 7 (1, 2)
     \<lparr>server_fs = \<lparr>nodes = (\<lambda>_. None), creation_mode = 493\<rparr>, server_log = []\<rparr> = Some st'
   \<and> nodes (server_fs st') = (\<lambda>_. None)"
proof -
  let ?vs = "test_values heavy_document_render_fn_ROUTE document_payload
        @ test_values heavy_case_export_fn_ROUTE case_payload"
  let ?st = "\<lparr>server_fs = \<lparr>nodes = (\<lambda>_. None), creation_mode = 493\<rparr>, server_log = []\<rparr>"
  have codec: "answers_on_the_wire (listed_serde ?vs) heavy_document_render_fn_ROUTE document_payload"
    "answers_on_the_wire (listed_serde ?vs) heavy_case_export_fn_ROUTE case_payload"
    by (rule listed_answers; simp add: test_values_def)+
  have fresh: "fresh_root (unique_temp_dir (lit ''/tmp'') name 7 n) (server_fs ?st)" for name n
    by (simp add: fresh_root_def unique_temp_dir_def starts_with_def lit_Cons)
  from oracle_fn_process_test_passes [OF codec fresh fresh, of "\<lparr>feature_aws = False, feature_http = True\<rparr>"
      "\<lambda>_. []" "(8, 9)" "\<lambda>n. Some n" "(1, 2)"]
  show ?thesis by simp
qed

end
