(* ===== verification/Mock_Provider.thy ===== *)
theory Mock_Provider
  imports Fn_Client
begin

text \<open>
  The provider that the tests of \<^verbatim>\<open>src/auth.rs\<close> play on a socket (\<open>read_request\<close> and the reply of
  \<open>spawn_provider\<close>): it reads until the declared body is there, however the bytes arrive. A read is
  its outcome, an error or the bytes it put into the buffer; a peer that neither sends nor closes
  runs into the read timeout, the end of the list. A panic is \<open>None\<close>.
\<close>

subsection \<open>Text\<close>

text \<open>\<open>String::from_utf8_lossy\<close>: each maximal ill-formed part becomes one replacement character.\<close>

definition byte_in :: "nat \<Rightarrow> nat \<Rightarrow> byte \<Rightarrow> bool" where
  "byte_in lo hi b \<longleftrightarrow> lo \<le> (of_char b :: nat) \<and> (of_char b :: nat) \<le> hi"

definition second_ok :: "byte \<Rightarrow> byte \<Rightarrow> bool" where
  "second_ok b c \<longleftrightarrow>
     byte_in (if of_char b = (0xE0 :: nat) then 0xA0 else if of_char b = (0xF0 :: nat) then 0x90 else 0x80)
       (if of_char b = (0xED :: nat) then 0x9F else if of_char b = (0xF4 :: nat) then 0x8F else 0xBF) c"

definition ill_formed_part :: "bytes \<Rightarrow> nat" where
  "ill_formed_part bs =
     (case bs of
        b # c # rest \<Rightarrow>
          if byte_in 0xE0 0xF4 b \<and> second_ok b c
          then (if byte_in 0xF0 0xF4 b \<and> rest \<noteq> [] \<and> cont_byte (hd rest) then 3 else 2)
          else 1
      | _ \<Rightarrow> 1)"

function from_utf8_lossy :: "bytes \<Rightarrow> rstr" where
  "from_utf8_lossy bs =
     (if bs = [] then []
      else case utf8_head bs of
             Some (c, rest) \<Rightarrow> c # from_utf8_lossy rest
           | None \<Rightarrow> 0xFFFD # from_utf8_lossy (drop (ill_formed_part bs) bs))"
  by pat_completeness auto
termination
  by (relation "measure length")
     (auto dest: utf8_head_shorter simp: ill_formed_part_def neq_Nil_conv split: list.splits)

declare from_utf8_lossy.simps [simp del]

lemma from_utf8_lossy_valid: "utf8_decode bs = Some s \<Longrightarrow> from_utf8_lossy bs = s"
proof (induction bs arbitrary: s rule: utf8_decode.induct)
  case (1 bs)
  then show ?case
    by (subst from_utf8_lossy.simps, subst (asm) (2) utf8_decode.simps)
       (auto split: if_splits option.splits)
qed

text \<open>\<open>str::lines\<close>: a line ends in a line feed, or in a carriage return and one.\<close>

definition rust_lines :: "rstr \<Rightarrow> rstr list" where
  "rust_lines s =
     (let parts = split_on 10 s
      in map (\<lambda>l. if ends_with l [13] then butlast l else l) (butlast parts)
         @ (if last parts = [] then [] else [last parts]))"

subsection \<open>The reading loop\<close>

definition declared_length :: "rstr \<Rightarrow> nat option" where
  "declared_length head =
     find_map (\<lambda>line. Option.bind (split_once 58 line) (\<lambda>(name, value).
       if eq_ignore_ascii_case name (lit ''content-length'') then parse_usize (trim value) else None))
       (rust_lines head)"

text \<open>Whether the loop ends here; the sum overflows, and the test panics, for an absurd length.\<close>

definition request_complete :: "bytes \<Rightarrow> bool option" where
  "request_complete bytes =
     (case head_end bytes of
        None \<Rightarrow> Some False
      | Some header_end \<Rightarrow>
          (case declared_length (from_utf8_lossy (take header_end bytes)) of
             None \<Rightarrow> Some True
           | Some len \<Rightarrow>
               if header_end + 4 + len > usize_max then None else Some (length bytes \<ge> header_end + 4 + len)))"

fun provider_read :: "(unit + bytes) list \<Rightarrow> bytes \<Rightarrow> (rstr \<times> (unit + bytes) list) option" where
  "provider_read [] bytes = None"
| "provider_read (Inl _ # reads) bytes = None"
| "provider_read (Inr chunk # reads) bytes =
     (if chunk = [] then map_option (\<lambda>s. (s, reads)) (utf8_decode bytes)
      else case request_complete (bytes @ chunk) of
             None \<Rightarrow> None
           | Some True \<Rightarrow> map_option (\<lambda>s. (s, reads)) (utf8_decode (bytes @ chunk))
           | Some False \<Rightarrow> provider_read reads (bytes @ chunk))"

definition provider_reply :: "rstr \<Rightarrow> bytes" where
  "provider_reply body =
     utf8_encode (lit ''HTTP/1.1 200 OK'' @ [13, 10] @ lit ''content-type: application/json'' @ [13, 10]
       @ lit ''content-length: '' @ show_dec (str_len body) @ [13, 10]
       @ lit ''connection: close'' @ [13, 10, 13, 10] @ body)"

subsection \<open>Any fragmentation\<close>

lemma head_end_bound: "head_end bs = Some n \<Longrightarrow> n + 4 \<le> length bs"
proof (induction bs arbitrary: n)
  case (Cons c bs)
  show ?case
  proof (cases "take 4 (c # bs) = CRLF @ CRLF")
    case True
    then have "length (take 4 (c # bs)) = 4" by (simp add: CRLF_def)
    then show ?thesis using True Cons.prems by simp
  next
    case False
    then show ?thesis using Cons by auto
  qed
qed simp

lemma head_end_prefix:
  "head_end (p @ s) = Some n \<Longrightarrow> head_end p = (if n + 4 \<le> length p then Some n else None)"
proof (induction p arbitrary: n)
  case (Cons c p)
  show ?case
  proof (cases "take 4 (c # p @ s) = CRLF @ CRLF")
    case True
    then have "n = 0" using Cons.prems by simp
    moreover have "take 4 (c # p) = CRLF @ CRLF" if "4 \<le> length (c # p)" using True that by simp
    moreover have "head_end (c # p) = None" if "\<not> 4 \<le> length (c # p)"
      using head_end_bound [of "c # p"] that by (cases "head_end (c # p)") force+
    ultimately show ?thesis by simp
  next
    case False
    then obtain m where m: "head_end (p @ s) = Some m" "n = Suc m" using Cons.prems by auto
    have "take 4 (c # p) \<noteq> CRLF @ CRLF"
    proof
      assume eq: "take 4 (c # p) = CRLF @ CRLF"
      then have "length (take 4 (c # p)) = 4" by (simp add: CRLF_def)
      then have "take 4 (c # p @ s) = take 4 (c # p)" by simp
      with eq False show False by simp
    qed
    then show ?thesis using Cons.IH [OF m(1)] m(2) by simp
  qed
qed simp

text \<open>A request whose declared body is exactly what follows its head.\<close>

definition whole_request :: "bytes \<Rightarrow> bool" where
  "whole_request bytes \<longleftrightarrow>
     (\<exists>n. head_end bytes = Some n \<and> length bytes \<le> usize_max
        \<and> declared_length (from_utf8_lossy (take n bytes)) = Some (length bytes - n - 4))"

lemma request_complete_prefix:
  assumes "whole_request (p @ s)"
  shows "request_complete p = Some (s = [])"
proof -
  obtain n where n: "head_end (p @ s) = Some n" "length (p @ s) \<le> usize_max"
    "declared_length (from_utf8_lossy (take n (p @ s))) = Some (length (p @ s) - n - 4)"
    using assms by (auto simp: whole_request_def)
  have bound: "n + 4 \<le> length (p @ s)" by (rule head_end_bound [OF n(1)])
  show ?thesis
  proof (cases "n + 4 \<le> length p")
    case True
    then have "head_end p = Some n" using head_end_prefix [OF n(1)] by simp
    moreover have "take n p = take n (p @ s)" using True by simp
    ultimately show ?thesis using n(2,3) bound by (auto simp: request_complete_def)
  next
    case False
    then have "head_end p = None" "s \<noteq> []" using head_end_prefix [OF n(1)] bound by auto
    then show ?thesis by (simp add: request_complete_def)
  qed
qed

text \<open>
  However the bytes of a request with a correct length are cut into reads, the provider returns
  exactly that request, without waiting for more and without taking what comes after it.
\<close>

theorem provider_reads_any_fragmentation:
  assumes "whole_request (bytes @ concat chunks)" "chunks \<noteq> []" "\<forall>chunk \<in> set chunks. chunk \<noteq> []"
    and "utf8_decode (bytes @ concat chunks) = Some request"
  shows "provider_read (map Inr chunks @ later) bytes = Some (request, later)"
  using assms
proof (induction chunks arbitrary: bytes)
  case (Cons chunk chunks)
  have step: "request_complete (bytes @ chunk) = Some (concat chunks = [])"
    using Cons.prems(1) by (intro request_complete_prefix) simp
  show ?case
  proof (cases chunks)
    case Nil
    then show ?thesis using Cons.prems step by simp
  next
    case (Cons c cs)
    then have "concat chunks \<noteq> []" using Cons.prems(3) by simp
    then have "request_complete (bytes @ chunk) = Some False" using step by simp
    then show ?thesis using Cons.IH [of "bytes @ chunk"] Cons.prems Cons by simp
  qed
qed simp

text \<open>The reply is the message the adapter's writer would send, so its client reads the body back.\<close>

lemma provider_reply_message:
  "provider_reply body = message 200 [(lit ''content-type'', lit ''application/json'')] (utf8_encode body)"
proof -
  have valid: "valid_header (lit ''content-type'', lit ''application/json'')"
    by (simp add: valid_header_def valid_header_name_def valid_header_value_def lit_Cons
        header_name_char_def char_class_defs)
  have line: "status_line 200 = lit ''HTTP/1.1 200 OK''"
    by (simp add: status_line_def reason_phrase_def show_dec.simps lit_Cons)
  have split: "lit ''HTTP/1.1 200 OK'' @ [13, 10] @ lit ''content-type: application/json'' @ [13, 10]
       @ lit ''content-length: '' @ show_dec n @ [13, 10] @ lit ''connection: close'' @ [13, 10, 13, 10] @ body
     = (lit ''HTTP/1.1 200 OK'' @ [13, 10])
       @ (header_line (lit ''content-type'', lit ''application/json'') @ [13, 10])
       @ (header_line (lit ''content-length'', show_dec n) @ [13, 10])
       @ (header_line (lit ''connection'', lit ''close'') @ [13, 10]) @ [13, 10] @ body" for n
    by (simp add: header_line_def lit_Cons)
  have encode: "utf8_encode ((a @ [13, 10]) @ (b @ [13, 10]) @ (c @ [13, 10]) @ (d @ [13, 10]) @ [13, 10] @ e)
     = http_line a @ http_line b @ http_line c @ http_line d @ CRLF @ utf8_encode e" for a b c d e
    unfolding utf8_encode_simps(3) [of "_ @ [13, 10]"] utf8_encode_simps(3) [of "[13, 10]"] utf8_encode_crlf crlf_text ..
  show ?thesis
    unfolding provider_reply_def split encode
    by (simp add: message_def print_head_def print_headers_def sent_headers_def valid line str_len_def)
qed

lemma provider_reply_read:
  assumes "str_len body \<le> usize_max" "from_slice S (utf8_encode body) = Some v"
  shows "\<exists>hs. parse_response S (provider_reply body) = Some \<lparr>outer_status = 200, seen_headers = hs, seen_body = v\<rparr>"
proof -
  have "\<forall>h \<in> set [(lit ''content-type'', lit ''application/json'')]. valid_text (snd h)"
    by (simp add: lit_Cons valid_small)
  then show ?thesis
    unfolding provider_reply_message using assms by (auto simp: str_len_def intro!: exI parse_response_read)
qed

end
