(* ===== verification/Spec2Isabelle.thy ===== *)
theory Spec2Isabelle
  imports Runtimes Fn_Prefix Fn_Server Decoders Binaries Web_Router Web_Live Web_Main Web_Pages Web_Tests
    Tcp_Tasks Process_Test Mock_Provider
begin

text \<open>
  A verification of the Apostille Me web server and of its serverless routes.

  \<^bold>\<open>The program.\<close> Two Rust crates. The web crate (\<^verbatim>\<open>src/main.rs\<close>, \<^verbatim>\<open>src/auth.rs\<close>, \<^verbatim>\<open>src/data_plane.rs\<close>)
  serves pages with in-memory items, WebSocket notices of changes, and one protected endpoint,
  \<^verbatim>\<open>/api/data-plane/{direct|http|tcp|nats}\<close>, which introspects the bearer at the authority and then
  calls one of four backends. The serverless crate (\<^verbatim>\<open>src/lambdas\<close>) has a provider-neutral dispatcher
  (\<^verbatim>\<open>lib.rs\<close>) that checks a call against its route and accepts it, and three runtimes around it: AWS
  Lambda, a portable HTTP server, and the Oracle Functions contract over a Unix socket
  (\<^verbatim>\<open>bin/support/oracle_fn\<close>), which reads and writes HTTP by hand. Six binaries, two routes by three
  runtimes, choose a route and a runtime. The two crates share no code.

  \<^bold>\<open>The theories.\<close>
  \<^item> \<open>Prelude\<close>, \<open>Rust_Text\<close>, \<open>Rust_Num\<close>, \<open>Rust_Utf8\<close>, \<open>Btree_Map\<close>, \<open>Json\<close>: the standard library as far
    as the code uses it (results and option combinators, \<open>str\<close> with its trimming, splitting and
    searching, integer parsing and printing, strict UTF-8, \<open>BTreeMap\<close>), and JSON values. A text is the
    list of its scalar values, a byte string a list of characters; \<open>usize\<close> is a bounded \<open>nat\<close>, where
    the code saturates the model does. \<open>ordered_map\<close> is the interface of the maps.
  \<^item> \<open>Dispatch\<close> (\<^verbatim>\<open>lib.rs\<close>: \<^verbatim>\<open>RouteSpec\<close>, \<^verbatim>\<open>dispatch_request\<close>, \<^verbatim>\<open>sanitize_request_id\<close>,
    \<^verbatim>\<open>emit_accept_log\<close>): when a call is accepted, in which order it is refused, what is logged. The
    locale \<open>responder\<close> is the contract of everything that answers with a correlation identifier;
    \<open>adapter\<close> and \<open>adapter_pair\<close> are the contract of a runtime adapter: normalise, dispatch, wrap.
  \<^item> \<open>Aws_Adapter\<close>, \<open>Http_Adapter\<close>, \<open>Runtimes\<close>, \<open>Routes\<close> (\<^verbatim>\<open>lib.rs\<close>: \<^verbatim>\<open>dispatch\<close>,
    \<^verbatim>\<open>decode_http_payload\<close>, \<^verbatim>\<open>http_handler\<close>, \<^verbatim>\<open>http_response\<close>, \<^verbatim>\<open>resolve_port\<close>, \<^verbatim>\<open>handle_aws\<close>,
    \<^verbatim>\<open>run_http\<close>; the constants of the binaries): the AWS and HTTP adapters as instances of \<open>adapter\<close>,
    CloudEvents decoding, the well-formedness of what AWS is handed, the HTTP server from its
    configuration to its log.
  \<^item> \<open>Fn_Reader\<close>, \<open>Fn_Framing\<close>, \<open>Fn_Prefix\<close>, \<open>Fn_Writer\<close> (\<^verbatim>\<open>http_stream.rs\<close>): the request reader over a
    stream that may end or break, what it returns on well-formed, oversized, truncated and malformed
    requests, that a request delimits itself, and the response writer over a sink that may fail after any byte, with the
    impossibility of splitting a response by its header contents.
  \<^item> \<open>Fn_Handler\<close>, \<open>Fn_Socket\<close>, \<open>Fn_Server\<close> (\<^verbatim>\<open>oracle_fn/mod.rs\<close>, \<^verbatim>\<open>socket.rs\<close>): one connection from
    bytes to bytes as an instance of \<open>adapter\<close>, the listener socket over a file-system state whose
    calls may fail, start-up and the accept loop.
  \<^item> \<open>Decoders\<close>, \<open>Binaries\<close>: the CloudEvents decoders of the HTTP and of the Oracle Functions adapter
    accept the same bodies; the six \<open>main\<close> functions of \<^verbatim>\<open>src/lambdas/src/bin\<close>, and that the binaries of
    the two routes share no call.
  \<^item> \<open>Auth\<close> (\<^verbatim>\<open>auth.rs\<close>): configuration of the verifier and when an introspection proves an identity.
  \<^item> \<open>Data_Plane_Direct\<close>, \<open>Data_Plane_Http\<close>, \<open>Data_Plane_Tcp\<close>, \<open>Tcp_Connect\<close>, \<open>Data_Plane_Nats\<close>
    (\<^verbatim>\<open>data_plane.rs\<close>, one per module): the read-only script, base-URL rules and the bounded read, the
    persistent mTLS channel with its state, as a queue from which the calls take the frames in turn,
    how it is opened, the broker checks and the poll.
  \<^item> \<open>Tcp_Tasks\<close> (\<^verbatim>\<open>main.rs\<close>: the \<^verbatim>\<open>Mutex\<close> around the channel): the handlers that share the channel, step by
    step, with clients that go away and with waits that time out. The mutex makes the calls sequential,
    a run of \<open>tcp_run\<close>; one wait that ends without its frame puts the channel out of step for good.
  \<^item> \<open>Web_App\<close> (\<^verbatim>\<open>main.rs\<close>: \<^verbatim>\<open>data_plane_request\<close>, \<^verbatim>\<open>bearer\<close>, \<^verbatim>\<open>create_item\<close>, \<^verbatim>\<open>ws_loop\<close>): the gate, with
    the locales \<open>authority\<close> (an identity given out is vouched for), \<open>backend_contract\<close> (a value is the
    answer to the call made) and \<open>data_plane\<close> (both), interpreted on \<open>verify_user\<close> and on the four
    avenues; the items as a transition system whose creations interleave, which refines whole
    creations one after the other; one WebSocket loop.
  \<^item> \<open>Web_Live\<close>: all loops, the broadcast channel and the items together, as a step relation.
  \<^item> \<open>Web_Start\<close>, \<open>Web_Main\<close>, \<open>Web_Router\<close>: \<^verbatim>\<open>main\<close> up to serving, the whole of it with what it reports, and
    the routes with the shared state.
  \<^item> \<open>Web_Pages\<close> (\<^verbatim>\<open>main.rs\<close>: \<^verbatim>\<open>layout\<close>, the templates of \<^verbatim>\<open>items_fragment\<close>): the pages as markup, what the
    template library prints of them, and that no client can add a tag.
  \<^item> \<open>Fn_Tests\<close>, \<open>Route_Tests\<close>, \<open>Web_Tests\<close>: the unit tests that the source files carry, as predicates on
    the model, proved: the definitions do what the authors of the code expect of it. \<open>Mock_Provider\<close> is
    the provider that the tests of \<^verbatim>\<open>auth.rs\<close> play.
  \<^item> \<open>Fn_Client\<close>, \<open>Process_Test\<close> (\<^verbatim>\<open>src/lambdas/tests/oracle_fn_process.rs\<close>): the client of the integration
    test, which reads back what the writer sends, and the test itself, run on the models of the two
    binaries from their environment to their last answer, proved to pass.
  \<^item> this theory: the three runtimes give the same answer to the same call.

  \<^bold>\<open>Correspondence.\<close> A definition has the name of its function; where two modules have a function of
  the same name, that of the Oracle Functions adapter has the prefix \<open>fn_\<close> and those of the avenues
  the prefix of theirs. \<open>Inl\<close> is \<open>Err\<close>. State that a function mutates is passed and returned (the log, the
  stream, the sink, the file system, the channel, the items); the clock, the process id and fresh
  identifiers are arguments. What the features of the build select is the record \<open>build\<close> or
  \<open>web_build\<close>. A function that may be called concurrently is modelled by steps (\<open>app_step\<close>,
  \<open>live_step\<close>); \<open>web_handle\<close> and \<open>serve_all\<close> take requests one after the other. The calls on the TCP
  channel are one after the other in \<open>tcp_run\<close>, and steps of handlers in \<open>tcp_step\<close> and \<open>drop_step\<close>.

  \<^bold>\<open>Parameters.\<close> Third-party code is an argument: \<open>serde\<close> (the JSON codec), \<open>http_crate\<close> (header and
  status checks), \<open>http_request\<close> (header lookup and the limited body reader, whose documented
  behaviour is \<open>reads_body\<close>), \<open>client_ops\<close> (the Shared Auth client), \<open>uuid_parser\<close>, \<open>database\<close>,
  \<open>http_lib\<close> (\<^verbatim>\<open>url\<close> and \<^verbatim>\<open>reqwest\<close>), \<open>tls_lib\<close>, \<open>frame_codec\<close>, \<open>broker\<close>, \<open>status_codec\<close>,
  \<open>broadcast_lib\<close> with the laws \<open>broadcast_laws\<close>, and the printer of the templates with the laws
  \<open>maud_prints\<close>. Failures of the operating system are
  \<open>os_faults\<close>, a broken stream, a sink with a byte budget.

  \<^bold>\<open>Bounds and termination.\<close> No fuel is used. The readers recurse on the bytes left in the stream, of
  which each step consumes some; at most 127 header lines and 64 KiB of them are accepted. The
  poll of the durable avenue is a partial function with a theorem that it returns within 101 reads,
  from the 100 ms it sleeps between two reads and its limit of 10 s. Servers and loops run on a
  finite list of what they are given, a prefix of a run that need not end.

  \<^bold>\<open>Not modelled.\<close> The tracing subscriber and the tracing layers, which decide nothing. The service
  loops and the protocol of the HTTP servers, TLS, SQL and JetStream, which are libraries. Of the
  tests: those that search source texts for phrases, and what the tests of \<^verbatim>\<open>auth.rs\<close> assert of the
  request that the Shared Auth client, a library, sends to their provider.
\<close>

subsection \<open>The adapters agree\<close>

interpretation aws_http: adapter_pair b spec
    "aws_normalise S" aws_reject "aws_response S" "aws_answer S b spec"
    "http_normalise S spec" "http_reject S spec" "http_response C S" "http_answer C S b spec"
  for C S b spec ..

interpretation http_fn: adapter_pair b spec
    "http_normalise S spec" "http_reject S spec" "http_response C S" "http_answer C S b spec"
    "fn_normalise S spec" "fn_reject S" "\<lambda>r. r" "fn_answer S b spec"
  for C S b spec ..

text \<open>The response does not depend on the exact size of an event within the limit.\<close>

lemma dispatch_size_irrelevant:
  "event_bytes q \<le> max_event_bytes spec \<Longrightarrow> n \<le> max_event_bytes spec \<Longrightarrow>
   fst (dispatch_request b (q\<lparr>event_bytes := n\<rparr>) spec log) = fst (dispatch_request b q spec log')"
  by (simp add: dispatch_request_def Let_def)

text \<open>One call, in the form each runtime delivers it.\<close>

definition call_of :: "rstr \<Rightarrow> rstr \<Rightarrow> json \<Rightarrow> rstr \<Rightarrow> nat \<Rightarrow> FunctionRequest" where
  "call_of m p v rid n =
     \<lparr>req_method = m, req_path = p, req_body = v, request_id = rid, event_bytes = n\<rparr>"

definition http_delivers :: "http_request \<Rightarrow> rstr \<Rightarrow> rstr \<Rightarrow> bytes \<Rightarrow> rstr \<Rightarrow> bool" where
  "http_delivers request m p body rid \<longleftrightarrow>
     http_method request = m \<and> uri_path request = p \<and> reads_body request body
     \<and> \<not> structured_mode (http_headers request)
     \<and> first_header (http_headers request) [lit ''ce-specversion''] = None
     \<and> first_header (http_headers request) [lit ''ce-id''] = None
     \<and> http_headers request (lit ''x-request-id'') = Some rid"

definition fn_delivers :: "ParsedRequest \<Rightarrow> rstr \<Rightarrow> rstr \<Rightarrow> bytes \<Rightarrow> rstr \<Rightarrow> bool" where
  "fn_delivers request m p body rid \<longleftrightarrow>
     (let hs = parsed_headers request in
      parsed_body request = body \<and> bt_get hs (lit ''fn-http-method'') = Some m
      \<and> bt_get hs (lit ''fn-http-request-url'') = Some p \<and> bt_get hs (lit ''fn-call-id'') = Some rid
      \<and> \<not> starts_with (fn_content_type hs) (lit ''application/cloudevents+json'')
      \<and> \<not> fn_event_mode hs)"

lemma safe_id_trim: "safe_id s \<Longrightarrow> trim s = s \<and> s \<noteq> []"
  using token_facts(1) by (auto simp: safe_id_def intro!: trimmed_trim trimmed_no_whitespace)

lemma word_trim: "word_text s \<Longrightarrow> trim s = s \<and> s \<noteq> []"
  by (auto simp: word_text_def intro!: trimmed_trim trimmed_no_whitespace)

lemma first_header_head:
  "hs k = Some v \<Longrightarrow> trim v = v \<Longrightarrow> v \<noteq> [] \<Longrightarrow> first_header hs (k # ks) = Some v"
  by (simp add: first_header_def)

lemma http_normalise_delivers:
  assumes "http_delivers request m p body rid" "safe_id rid" "p \<noteq> lit ''/''" "body \<noteq> []"
    and "from_slice S body = Some v" "length body \<le> max_event_bytes spec" "max_event_bytes spec < usize_max"
  shows "http_normalise S spec (pid, clock, request) = Some (call_of m p v rid (length body))"
proof -
  have d: "http_method request = m" "uri_path request = p" "reads_body request body"
    "\<not> structured_mode (http_headers request)"
    "first_header (http_headers request) [lit ''ce-specversion''] = None"
    "first_header (http_headers request) [lit ''ce-id''] = None"
    "http_headers request (lit ''x-request-id'') = Some rid"
    using assms(1) by (simp_all add: http_delivers_def)
  have "binary_attributes_ok (http_headers request)" using d(5) by (simp add: binary_attributes_ok_def)
  then have "decode_http_payload S (http_headers request) body = Inr (v, None)"
    using d(6) assms(4,5) by (simp add: direct_payload_decoded [OF d(4)])
  moreover have "admitted_body spec request = Some body"
    using admitted_body_eq [OF d(3) assms(7)] assms(6) by simp
  moreover have "http_correlation pid clock (http_headers request) None = rid"
    using safe_id_trim [OF assms(2)] sanitize_fixes_safe [OF assms(2)]
    by (simp add: http_correlation_def request_id_from_headers_def first_header_head [of "http_headers request", OF d(7)])
  ultimately show ?thesis using d(1,2) assms(3) by (simp add: call_of_def)
qed

lemma fn_normalise_delivers:
  assumes "fn_delivers request m p body rid" "safe_id rid" "word_text m" "body \<noteq> []"
    and "from_slice S body = Some v" "request_path p = p" "word_text p"
  shows "fn_normalise S spec (pid, clock, request) = Some (call_of m p v rid (length body))"
proof -
  let ?hs = "parsed_headers request"
  have d: "parsed_body request = body" "bt_get ?hs (lit ''fn-http-method'') = Some m"
    "bt_get ?hs (lit ''fn-http-request-url'') = Some p" "bt_get ?hs (lit ''fn-call-id'') = Some rid"
    "\<not> starts_with (fn_content_type ?hs) (lit ''application/cloudevents+json'')" "\<not> fn_event_mode ?hs"
    using assms(1) by (simp_all add: fn_delivers_def Let_def)
  have "decode_payload S ?hs (fn_content_type ?hs) body = Inr v"
    using d(5,6) assms(4,5) by (simp add: decode_payload_ok fn_attributes_ok_def)
  moreover have "fn_request_id pid clock ?hs = rid"
    using safe_id_trim [OF assms(2)] sanitize_fixes_safe [OF assms(2)]
    by (simp add: fn_request_id_def fn_first_header_eq fn_sanitize_eq
        first_header_head [of "bt_get ?hs", OF d(4)])
  moreover have "fn_method spec ?hs = m" "fn_path spec ?hs = p"
    using word_trim [OF assms(3)] word_trim [OF assms(7)] assms(6)
    by (simp_all add: fn_method_def fn_path_def fn_first_header_eq first_header_head [of "bt_get ?hs", OF d(2)]
        first_header_head [of "bt_get ?hs", OF d(3)])
  ultimately show ?thesis using d(1) by (simp add: call_of_def)
qed

text \<open>
  C3. One call, one answer, whatever the runtime: when AWS (as an API Gateway v2 event), the portable
  HTTP adapter and Oracle Fn each deliver the same method, path, JSON body and correlation
  identifier, within the size limit of the route, all three hand the same response to their client,
  and they log an accepted call or log nothing alike.
\<close>

theorem adapters_agree:
  assumes "spec \<in> deployed_routes" "word_text m" "word_text p" "p \<noteq> lit ''/''" "request_path p = p" "safe_id rid"
    and "http_delivers hrequest m p body rid" "fn_delivers frequest m p body rid" "body \<noteq> []"
    and "from_slice S body = Some v" "from_str S text = Some v" "length body \<le> max_event_bytes spec"
    and "\<exists>bs. to_vec S (aws_v2_event m p (String text)) = Some bs \<and> length bs \<le> max_event_bytes spec"
  shows "\<exists>r. fst (dispatch S b pid clock (aws_v2_event m p (String text)) rid spec log) = aws_response S r
    \<and> fst (http_handler S b pid' clock' spec hrequest log) = r
    \<and> fst (answer_request S b pid'' clock'' spec frequest log) = r
    \<and> length (snd (http_handler S b pid' clock' spec hrequest log))
        = length (snd (dispatch S b pid clock (aws_v2_event m p (String text)) rid spec log))
    \<and> snd (http_handler S b pid' clock' spec hrequest log)
        = snd (answer_request S b pid'' clock'' spec frequest log)"
proof -
  let ?ev = "aws_v2_event m p (String text)"
  let ?q = "call_of m p v rid (length body)"
  note facts = deployed_route_facts [OF assms(1)]
  have h: "http_normalise S spec (pid', clock', hrequest) = Some ?q"
    by (rule http_normalise_delivers [OF assms(7,6,4,9,10,12) facts(2)])
  have f: "fn_normalise S spec (pid'', clock'', frequest) = Some ?q"
    by (rule fn_normalise_delivers [OF assms(8,6,2,9,10,5,3)])
  obtain n where n: "aws_request S ?ev rid = call_of m p v rid n" "n \<le> max_event_bytes spec" "\<not> aws_base64 ?ev"
  proof -
    obtain bs where bs: "to_vec S ?ev = Some bs" "length bs \<le> max_event_bytes spec" using assms(13) by blast
    have "aws_request S ?ev rid = call_of m p v rid (length bs)"
      using bs(1) assms(11)
      by (simp add: aws_request_def call_of_def aws_v2_event_def value_get_obj decode_json_value_def)
    moreover have "\<not> aws_base64 ?ev" by (simp add: aws_base64_def aws_v2_event_def value_get_obj)
    ultimately show thesis using bs(2) that by blast
  qed
  have a: "aws_normalise S (pid, clock, ?ev, rid) = Some (call_of m p v rid n)"
    using n sanitize_fixes_safe [OF assms(6)] by simp
  have same: "fst (dispatch_request b (call_of m p v rid n) spec log) = fst (dispatch_request b ?q spec log)"
    using dispatch_size_irrelevant [of ?q spec n b log log] n(2) assms(12) by (simp add: call_of_def)
  have "acceptable spec (call_of m p v rid n) \<longleftrightarrow> acceptable spec ?q"
    using n(2) assms(12) by (simp add: acceptable_def call_of_def)
  then have logs: "length (snd (dispatch_request b ?q spec log))
      = length (snd (dispatch_request b (call_of m p v rid n) spec log))"
    by (simp add: dispatch_request_log emit_accept_log_def)
  have "dispatch S b pid clock ?ev rid spec log
      = map_prod (aws_response S) id (dispatch_request b (call_of m p v rid n) spec log)"
    using aws.dispatches [OF a, of b spec log] by simp
  moreover have "http_handler S b pid' clock' spec hrequest log = dispatch_request b ?q spec log"
    unfolding http_handler_eq h by simp
  moreover have "answer_request S b pid'' clock'' spec frequest log = dispatch_request b ?q spec log"
    unfolding answer_request_eq f by simp
  ultimately show ?thesis using same logs by (simp add: fst_map_prod snd_map_prod)
qed

text \<open>A concrete call for the witness.\<close>

definition agreeing_serde :: serde where
  "agreeing_serde = \<lparr>from_slice = (\<lambda>_. Some sample_document), from_str = (\<lambda>_. Some sample_document),
     to_vec = (\<lambda>_. Some ''{}''), to_string = (\<lambda>_. None)\<rparr>"

definition agreeing_http :: http_request where
  "agreeing_http = \<lparr>http_method = lit ''POST'', uri_path = lit ''/api/heavy/document-render'',
     http_headers = (\<lambda>k. if k = lit ''x-request-id'' then Some (lit ''r-1'') else None),
     read_body = (\<lambda>limit. if length ''{}'' \<le> limit then Some ''{}'' else None)\<rparr>"

definition agreeing_fn :: ParsedRequest where
  "agreeing_fn = \<lparr>parsed_headers =
       [(lit ''fn-call-id'', lit ''r-1''), (lit ''fn-http-method'', lit ''POST''),
        (lit ''fn-http-request-url'', lit ''/api/heavy/document-render'')],
     parsed_body = ''{}''\<rparr>"

lemma agreeing_delivers:
  "http_delivers agreeing_http (lit ''POST'') (lit ''/api/heavy/document-render'') ''{}'' (lit ''r-1'')"
  "fn_delivers agreeing_fn (lit ''POST'') (lit ''/api/heavy/document-render'') ''{}'' (lit ''r-1'')"
proof -
  show "http_delivers agreeing_http (lit ''POST'') (lit ''/api/heavy/document-render'') ''{}'' (lit ''r-1'')"
    by (simp add: http_delivers_def agreeing_http_def reads_body_def structured_mode_def first_header_def
        starts_with_def to_ascii_lowercase_def)
  have none: "fn_first_header (parsed_headers agreeing_fn) ks = None"
    if "set ks \<inter> {lit ''fn-call-id'', lit ''fn-http-method'', lit ''fn-http-request-url''} = {}" for ks
    using that by (auto simp: fn_first_header_def find_map_eq_None agreeing_fn_def bt_get_def)
  then have "\<not> fn_event_mode (parsed_headers agreeing_fn)" "fn_content_type (parsed_headers agreeing_fn) = []"
    by (simp_all add: fn_event_mode_def fn_content_type_def to_ascii_lowercase_def)
  then show "fn_delivers agreeing_fn (lit ''POST'') (lit ''/api/heavy/document-render'') ''{}'' (lit ''r-1'')"
    by (simp add: fn_delivers_def Let_def starts_with_def) (simp add: agreeing_fn_def bt_get_def)
qed

lemma document_path: "request_path (lit ''/api/heavy/document-render'') = lit ''/api/heavy/document-render''"
proof -
  have "url_part (47 # lit ''api/heavy/document-render'')" "url_suffix []"
    by (simp_all add: url_part_def url_suffix_def lit_Cons is_whitespace_def)
  moreover have "find_sub (lit ''://'') (47 # lit ''api/heavy/document-render'' @ []) = None"
    by (simp add: lit_Cons starts_with_def)
  then have "\<not> contains_sub (lit ''://'') (47 # lit ''api/heavy/document-render'' @ [])"
    by (simp add: contains_sub_def)
  ultimately have "request_path ([] @ (47 # lit ''api/heavy/document-render'' @ []) @ [])
      = 47 # lit ''api/heavy/document-render''"
    using request_path_forms(1) [of "lit ''api/heavy/document-render''" "[]" "[]" "[]"] by simp
  then show ?thesis by (simp add: lit_Cons)
qed

theorem adapters_agree_witness:
  "\<exists>r. fst (http_handler agreeing_serde \<lparr>feature_aws = False, feature_http = True\<rparr> 1 None
         heavy_document_render_ROUTE agreeing_http []) = r
     \<and> fst (answer_request agreeing_serde \<lparr>feature_aws = False, feature_http = True\<rparr> 2 (Some 3)
         heavy_document_render_ROUTE agreeing_fn []) = r"
proof -
  have "word_text (lit ''POST'')" "word_text (lit ''/api/heavy/document-render'')" "safe_id (lit ''r-1'')"
    by (simp_all add: word_text_def safe_id_def lit_Cons char_class_defs request_id_char_def)
  moreover have "heavy_document_render_ROUTE \<in> deployed_routes" by (simp add: deployed_routes_def)
  moreover have "length ''{}'' \<le> max_event_bytes heavy_document_render_ROUTE"
    by (simp add: route_defs route_spec_new_def DEFAULT_MAX_EVENT_BYTES_def)
  ultimately show ?thesis
    using adapters_agree [of heavy_document_render_ROUTE "lit ''POST''" "lit ''/api/heavy/document-render''"
        "lit ''r-1''" agreeing_http "''{}''" agreeing_fn agreeing_serde sample_document "lit ''x''"
        "\<lparr>feature_aws = False, feature_http = True\<rparr>" 0 None "[]" 1 None 2 "Some 3"]
      agreeing_delivers document_path
    by (simp add: agreeing_serde_def)
qed

end
